(* ===== verification/Prelude.thy ===== *)
theory Prelude
  imports Main "HOL-Library.Word" "HOL-Library.Char_ord" "HOL-Library.List_Lexorder"
begin

text \<open>
  Shared vocabulary of the development. A Go string is a \<open>string\<close> (a list of 8-bit characters,
  as a Go string is a sequence of bytes), a \<open>[]byte\<close> is a list of 8-bit words. Fallible code
  returns a sum with the error on the left; code that also talks to the outside world passes a
  state along. The theory holds the combinators for both, the byte encodings of the Go standard
  library that the program uses (\<open>encoding/binary\<close>, the \<open>%x\<close> and \<open>%d\<close> verbs of \<open>fmt\<close>), and
  the generic facts about lists the components share.
\<close>

section \<open>Names of types\<close>

type_synonym byte = "8 word"
type_synonym bytes = "byte list"
type_synonym ('e, 'a, 'w) effect = "'w \<Rightarrow> ('e + 'a) \<times> 'w"

named_theorems results "inversion rules of the error combinators"

section \<open>Error results\<close>

text \<open>
  \<open>x, err := m(); if err != nil { return err }\<close> is \<open>bindR\<close> for a pure call and \<open>bindE\<close> for a call
  with effects; an effect that has happened is kept when an error is returned.
\<close>

definition bindR :: "'e + 'a \<Rightarrow> ('a \<Rightarrow> 'e + 'b) \<Rightarrow> 'e + 'b" where
  "bindR m f = (case m of Inl e \<Rightarrow> Inl e | Inr x \<Rightarrow> f x)"

definition bindE :: "('e, 'a, 'w) effect \<Rightarrow> ('a \<Rightarrow> ('e, 'b, 'w) effect) \<Rightarrow> ('e, 'b, 'w) effect" where
  "bindE m f = (\<lambda>w. case m w of (Inl e, w') \<Rightarrow> (Inl e, w') | (Inr x, w') \<Rightarrow> f x w')"

definition returnE :: "'a \<Rightarrow> ('e, 'a, 'w) effect" where
  "returnE x = (\<lambda>w. (Inr x, w))"

definition throwE :: "'e \<Rightarrow> ('e, 'a, 'w) effect" where
  "throwE e = (\<lambda>w. (Inl e, w))"

definition liftE :: "'e + 'a \<Rightarrow> ('e, 'a, 'w) effect" where
  "liftE r = (\<lambda>w. (r, w))"

definition ensure :: "bool \<Rightarrow> 'e \<Rightarrow> 'e + unit" where
  "ensure b e = (if b then Inr () else Inl e)"

definition wrapErr :: "('e \<Rightarrow> 'f) \<Rightarrow> 'e + 'a \<Rightarrow> 'f + 'a" where
  "wrapErr g r = (case r of Inl e \<Rightarrow> Inl (g e) | Inr x \<Rightarrow> Inr x)"

definition wrapE :: "('e \<Rightarrow> 'f) \<Rightarrow> ('e, 'a, 'w) effect \<Rightarrow> ('f, 'a, 'w) effect" where
  "wrapE g m = (\<lambda>w. case m w of (r, w') \<Rightarrow> (wrapErr g r, w'))"

fun is_ok :: "'e + 'a \<Rightarrow> bool" where
  "is_ok (Inl e) = False"
| "is_ok (Inr x) = True"

lemma bindR_simps [simp]:
  "bindR (Inl e) f = Inl e"
  "bindR (Inr x) f = f x"
  by (simp_all add: bindR_def)

lemma bindR_Inr_iff [results]: "bindR m f = Inr y \<longleftrightarrow> (\<exists>x. m = Inr x \<and> f x = Inr y)"
  by (cases m) simp_all

lemma bindR_Inl_iff [results]:
  "bindR m f = Inl e \<longleftrightarrow> m = Inl e \<or> (\<exists>x. m = Inr x \<and> f x = Inl e)"
  by (cases m) simp_all

lemma ensure_Inr_iff [results]: "ensure b e = Inr u \<longleftrightarrow> b"
  by (simp add: ensure_def)

lemma ensure_Inl_iff [results]: "ensure b e = Inl e' \<longleftrightarrow> \<not> b \<and> e' = e"
  by (auto simp: ensure_def)

lemma ensure_simps [simp]:
  "ensure True e = Inr ()"
  "ensure False e = Inl e"
  by (simp_all add: ensure_def)

lemma wrapErr_simps [simp]:
  "wrapErr g (Inl e) = Inl (g e)"
  "wrapErr g (Inr x) = Inr x"
  by (simp_all add: wrapErr_def)

lemma wrapErr_Inr_iff [results]: "wrapErr g r = Inr x \<longleftrightarrow> r = Inr x"
  by (cases r) simp_all

lemma wrapErr_Inl_iff [results]: "wrapErr g r = Inl f \<longleftrightarrow> (\<exists>e. r = Inl e \<and> f = g e)"
  by (cases r) auto

lemma bindE_Inr_iff [results]:
  "bindE m f w = (Inr y, w'') \<longleftrightarrow> (\<exists>x w'. m w = (Inr x, w') \<and> f x w' = (Inr y, w''))"
  by (auto simp: bindE_def split: prod.splits sum.splits)

lemma bindE_Inl_iff [results]:
  "bindE m f w = (Inl e, w'') \<longleftrightarrow>
     m w = (Inl e, w'') \<or> (\<exists>x w'. m w = (Inr x, w') \<and> f x w' = (Inl e, w''))"
  by (auto simp: bindE_def split: prod.splits sum.splits)

lemma wrapE_Inr_iff [results]: "wrapE g m w = (Inr x, w') \<longleftrightarrow> m w = (Inr x, w')"
  by (auto simp: wrapE_def results split: prod.splits)

lemma wrapE_Inl_iff [results]: "wrapE g m w = (Inl f, w') \<longleftrightarrow> (\<exists>e. m w = (Inl e, w') \<and> f = g e)"
  by (auto simp: wrapE_def results split: prod.splits)

lemma bindE_step [simp]:
  "m w = (Inr x, w') \<Longrightarrow> bindE m f w = f x w'"
  "m w = (Inl e, w') \<Longrightarrow> bindE m f w = (Inl e, w')"
  by (simp_all add: bindE_def)

lemma effect_simps [simp]:
  "returnE x w = (Inr x, w)"
  "throwE e w = (Inl e, w)"
  "liftE r w = (r, w)"
  by (simp_all add: returnE_def throwE_def liftE_def)

lemma is_ok_iff: "is_ok r \<longleftrightarrow> (\<exists>x. r = Inr x)"
  by (cases r) auto

lemma not_is_ok_iff: "\<not> is_ok r \<longleftrightarrow> (\<exists>e. r = Inl e)"
  by (cases r) auto

section \<open>Bytes of strings and integers\<close>

text \<open>\<open>[]byte(s)\<close> and \<open>string(b)\<close>: the same bytes, read the other way.\<close>

definition bytes_of_string :: "string \<Rightarrow> bytes" where
  "bytes_of_string s = map (\<lambda>c. of_char c) s"

definition string_of_bytes :: "bytes \<Rightarrow> string" where
  "string_of_bytes b = map (\<lambda>x. char_of (unat x)) b"

text \<open>The conversion \<open>uint32(n)\<close> of a Go \<open>int\<close> keeps the low 32 bits.\<close>

definition uint32 :: "int \<Rightarrow> 32 word" where
  "uint32 n = word_of_int n"

text \<open>\<open>binary.BigEndian.AppendUint32\<close>\<close>

definition AppendUint32 :: "bytes \<Rightarrow> 32 word \<Rightarrow> bytes" where
  "AppendUint32 b v = b @ [ucast (drop_bit 24 v), ucast (drop_bit 16 v), ucast (drop_bit 8 v), ucast v]"

text \<open>The verbs \<open>%x\<close> (two lower-case digits per byte) and \<open>%d\<close>.\<close>

definition hexDigit :: "nat \<Rightarrow> char" where
  "hexDigit n = ''0123456789abcdef'' ! (n mod 16)"

definition hexBytes :: "bytes \<Rightarrow> string" where
  "hexBytes b = concat (map (\<lambda>x. [hexDigit (unat x div 16), hexDigit (unat x mod 16)]) b)"

fun decDigits :: "nat \<Rightarrow> string" where
  "decDigits n = (if n < 10 then [hexDigit n] else decDigits (n div 10) @ [hexDigit (n mod 10)])"

declare decDigits.simps [simp del]

definition decInt :: "int \<Rightarrow> string" where
  "decInt i = (if i < 0 then ''-'' @ decDigits (nat (- i)) else decDigits (nat i))"

lemma unat_of_char_byte [simp]: "unat (of_char c :: byte) = of_char c"
proof -
  have "(of_char c :: byte) = of_nat (of_char c)"
    by (simp add: of_nat_of_char)
  then show ?thesis by (simp add: unat_of_nat)
qed

lemma of_char_byte_inject: "(of_char c :: byte) = of_char d \<longleftrightarrow> c = d"
proof
  assume "(of_char c :: byte) = of_char d"
  then have "unat (of_char c :: byte) = unat (of_char d :: byte)" by simp
  then have "(of_char c :: nat) = of_char d" by (simp only: unat_of_char_byte)
  then show "c = d" by simp
qed simp

lemma bytes_of_string_inject [simp]: "bytes_of_string s = bytes_of_string t \<longleftrightarrow> s = t"
  unfolding bytes_of_string_def
  by (rule inj_map_eq_map) (auto simp: inj_def of_char_byte_inject)

lemma length_bytes_of_string [simp]: "length (bytes_of_string s) = length s"
  by (simp add: bytes_of_string_def)

lemma bytes_of_string_Nil_iff [simp]: "bytes_of_string s = [] \<longleftrightarrow> s = []"
  by (simp add: bytes_of_string_def)

lemma string_of_bytes_of_string [simp]: "string_of_bytes (bytes_of_string s) = s"
  by (simp add: string_of_bytes_def bytes_of_string_def o_def)

lemma bytes_of_string_of_bytes [simp]: "bytes_of_string (string_of_bytes b) = b"
proof -
  have "(of_char (char_of (unat x)) :: byte) = x" for x :: byte
  proof -
    have "unat x < 2 ^ LENGTH(8)" by (rule unsigned_less)
    then have "unat (of_char (char_of (unat x)) :: byte) = unat x" by simp
    then show ?thesis by (rule unsigned_word_eqI)
  qed
  then show ?thesis by (simp add: string_of_bytes_def bytes_of_string_def o_def)
qed

lemma length_string_of_bytes [simp]: "length (string_of_bytes b) = length b"
  by (simp add: string_of_bytes_def)

lemma string_of_bytes_Nil_iff [simp]: "string_of_bytes b = [] \<longleftrightarrow> b = []"
  by (simp add: string_of_bytes_def)

lemma string_of_bytes_inject [simp]: "string_of_bytes a = string_of_bytes b \<longleftrightarrow> a = b"
  by (metis bytes_of_string_of_bytes)

lemma uint32_eq_iff: "uint32 a = uint32 b \<longleftrightarrow> a mod 2 ^ 32 = b mod 2 ^ 32"
  by (simp add: uint32_def word_of_int_eq_iff take_bit_eq_mod)

section \<open>Encodings that can be read back\<close>

text \<open>
  An encoder is a \<^emph>\<open>prefix code\<close> on a domain when two encodings with anything behind them are
  equal only if the values and what follows are equal. The authenticated header is built from such
  codes, which is what makes it unambiguous; the contract and its composition are stated once.
\<close>

locale prefix_code =
  fixes enc :: "'a \<Rightarrow> bytes" and ok :: "'a \<Rightarrow> bool"
  assumes split: "ok a \<Longrightarrow> ok b \<Longrightarrow> enc a @ r = enc b @ s \<Longrightarrow> a = b \<and> r = s"
begin

lemma inject: "ok a \<Longrightarrow> ok b \<Longrightarrow> enc a = enc b \<Longrightarrow> a = b"
  using split [of a b "[]" "[]"] by simp

lemma append_eq_iff: "ok a \<Longrightarrow> ok b \<Longrightarrow> enc a @ r = enc b @ s \<longleftrightarrow> a = b \<and> r = s"
  using split by blast

end

locale prefix_code_pair = fst: prefix_code enc1 ok1 + snd: prefix_code enc2 ok2
  for enc1 :: "'a \<Rightarrow> bytes" and ok1 and enc2 :: "'b \<Rightarrow> bytes" and ok2
begin

lemma pair_split:
  assumes "ok1 a" "ok1 a'" "ok2 b" "ok2 b'"
    and "enc1 a @ enc2 b @ r = enc1 a' @ enc2 b' @ s"
  shows "a = a' \<and> b = b' \<and> r = s"
  using assms fst.split snd.split by blast

end

sublocale prefix_code_pair \<subseteq> pair: prefix_code "\<lambda>(a, b). enc1 a @ enc2 b" "\<lambda>(a, b). ok1 a \<and> ok2 b"
proof unfold_locales
  fix a b :: "'a \<times> 'b" and r s :: bytes
  obtain a1 a2 b1 b2 where ab: "a = (a1, a2)" "b = (b1, b2)" by (metis surj_pair)
  assume "case a of (a, b) \<Rightarrow> ok1 a \<and> ok2 b" "case b of (a, b) \<Rightarrow> ok1 a \<and> ok2 b"
    and "(case a of (a, b) \<Rightarrow> enc1 a @ enc2 b) @ r = (case b of (a, b) \<Rightarrow> enc1 a @ enc2 b) @ s"
  then have "a1 = b1 \<and> a2 = b2 \<and> r = s"
    by (intro pair_split) (simp_all add: ab)
  then show "a = b \<and> r = s" by (simp add: ab)
qed

lemma ucast_drop_bits_inject:
  fixes v w :: "32 word"
  assumes "ucast (drop_bit 24 v) = (ucast (drop_bit 24 w) :: byte)"
    and "ucast (drop_bit 16 v) = (ucast (drop_bit 16 w) :: byte)"
    and "ucast (drop_bit 8 v) = (ucast (drop_bit 8 w) :: byte)"
    and "(ucast v :: byte) = ucast w"
  shows "v = w"
proof (rule bit_word_eqI)
  fix n assume n: "n < LENGTH(32)"
  have byte_n: "bit v (k + i) = bit w (k + i)"
    if "ucast (drop_bit k v) = (ucast (drop_bit k w) :: byte)" "i < 8" for k i
    using arg_cong [OF that(1), of "\<lambda>x. bit x i"] that(2)
    by (simp add: bit_ucast_iff bit_drop_bit_eq)
  consider "n < 8" | "8 \<le> n" "n < 16" | "16 \<le> n" "n < 24" | "24 \<le> n" "n < 32"
    using n by fastforce
  then show "bit v n = bit w n"
  proof cases
    case 1 then show ?thesis using byte_n [of 0 n] assms(4) by simp
  next
    case 2 then show ?thesis using byte_n [of 8 "n - 8"] assms(3) by simp
  next
    case 3 then show ?thesis using byte_n [of 16 "n - 16"] assms(2) by simp
  next
    case 4 then show ?thesis using byte_n [of 24 "n - 24"] assms(1) by simp
  qed
qed

interpretation be32: prefix_code "AppendUint32 []" "\<lambda>_. True"
  by unfold_locales (auto simp: AppendUint32_def dest: ucast_drop_bits_inject)

lemma AppendUint32_inject [simp]: "AppendUint32 [] v = AppendUint32 [] w \<longleftrightarrow> v = w"
  using be32.inject by blast

lemma AppendUint32_append: "AppendUint32 b v = b @ AppendUint32 [] v"
  by (simp add: AppendUint32_def)

lemma length_AppendUint32 [simp]: "length (AppendUint32 b v) = length b + 4"
  by (simp add: AppendUint32_def)

section \<open>Systems that keep an invariant\<close>

locale invariant_system =
  fixes init :: "'s \<Rightarrow> bool" and step :: "'s \<Rightarrow> 's \<Rightarrow> bool" and I :: "'s \<Rightarrow> bool"
  assumes init: "init s \<Longrightarrow> I s"
    and step: "step s s' \<Longrightarrow> I s \<Longrightarrow> I s'"
begin

lemma steps: "step\<^sup>*\<^sup>* s s' \<Longrightarrow> I s \<Longrightarrow> I s'"
  by (induction rule: rtranclp_induct) (auto intro: step)

lemma reachable: "init s \<Longrightarrow> step\<^sup>*\<^sup>* s s' \<Longrightarrow> I s'"
  by (blast intro: steps init)

end

end
