(* ===== verification/Errors.thy ===== *)
theory Errors
  imports Prelude
begin

text \<open>
  The error values of \<open>errors.go\<close>. Each sentinel is a constructor. \<open>fmt.Errorf\<close> with one or more
  \<open>%w\<close> verbs builds an error that wraps others; \<open>errors.Is\<close> looks a sentinel up anywhere in that
  tree. A message keeps its format string; the arguments a format string would render are not kept.
\<close>

datatype sentinel =
    ErrNoSuchSecret
  | ErrSlotOccupied
  | ErrNoSuchSlot
  | ErrUnknownCredential
  | ErrUserVerificationMismatch
  | ErrNotPresent
  | ErrDerivationIgnoresSalt
  | ErrNotEntropyVerified
  | ErrWrongFormat
  | ErrLocked
  | ErrNoKeysEnrolled
  | ErrLastKey
  | ErrResidentKey
  | ErrNoAttestation
  | ErrUnsupportedAttestationFormat
  | ErrUntrustedAuthenticator
  | ErrAttestationSignature
  | ErrNoPRF
  | ErrNoAuthenticatorData
  | ErrSaltLength
  | ErrNoCredentialID
  | ErrUnderTest
  | ErrUnderAgent
  | ErrUnsupportedPlatform

datatype goerror =
    Sentinel sentinel
  | ErrorString string
  | WrapErrors string "goerror list"

type_synonym 'a result = "goerror + 'a"

text \<open>\<open>errors.New(text)\<close> and \<open>fmt.Errorf(format, ..., err)\<close> with one \<open>%w\<close>.\<close>

abbreviation errorsNew :: "string \<Rightarrow> goerror" where
  "errorsNew text \<equiv> ErrorString text"

abbreviation wrap :: "string \<Rightarrow> goerror \<Rightarrow> goerror" where
  "wrap format e \<equiv> WrapErrors format [e]"

abbreviation failWith :: "sentinel \<Rightarrow> 'a result" where
  "failWith e \<equiv> Inl (Sentinel e)"

text \<open>\<open>errors.Is(err, target)\<close> for a sentinel target.\<close>

fun errorsIs :: "goerror \<Rightarrow> sentinel \<Rightarrow> bool" where
  "errorsIs (Sentinel t) s = (t = s)"
| "errorsIs (ErrorString text) s = False"
| "errorsIs (WrapErrors format es) s = list_ex (\<lambda>e. errorsIs e s) es"

text \<open>A result fails with a sentinel when its error is, or wraps, that sentinel.\<close>

fun failsWith :: "'a result \<Rightarrow> sentinel \<Rightarrow> bool" where
  "failsWith (Inl e) s = errorsIs e s"
| "failsWith (Inr x) s = False"

lemma failsWith_iff: "failsWith r s \<longleftrightarrow> (\<exists>e. r = Inl e \<and> errorsIs e s)"
  by (cases r) auto

lemma failsWith_not_ok: "failsWith r s \<Longrightarrow> \<not> is_ok r"
  by (cases r) auto

lemma wrapErr_wrap_failsWith [simp]: "failsWith (wrapErr (wrap format) r) s = failsWith r s"
  by (cases r) auto

end
