(* ===== verification/Port.thy ===== *)
theory Port
  imports Errors
begin

text \<open>
  \<open>authenticator.go\<close>: the port through which the library reaches a security key. The Go interface
  \<open>Authenticator\<close> is a record of two functions over the provider's own state \<open>'d\<close>; a provider is an
  argument of everything that uses one. The \<open>world\<close> is what a call can change outside the vault: the
  provider's state, the operating system's entropy source, and a log of the gestures that were asked
  for, which the code does not keep and which is here to state what each operation costs.
\<close>

section \<open>Constants and user verification\<close>

definition SaltLen :: nat where
  "SaltLen = 32"

text \<open>A \<open>time.Duration\<close> is a count of nanoseconds.\<close>

definition DefaultTimeout :: int where
  "DefaultTimeout = 60 * 1000000000"

datatype UserVerification = UVDiscouraged | UVRequired

text \<open>The constants are numbered by \<open>iota\<close> in this order.\<close>

instantiation UserVerification :: linorder
begin

fun uvIndex :: "UserVerification \<Rightarrow> nat" where
  "uvIndex UVDiscouraged = 0"
| "uvIndex UVRequired = 1"

definition less_eq_UserVerification :: "UserVerification \<Rightarrow> UserVerification \<Rightarrow> bool" where
  "less_eq_UserVerification a b = (uvIndex a \<le> uvIndex b)"

definition less_UserVerification :: "UserVerification \<Rightarrow> UserVerification \<Rightarrow> bool" where
  "less_UserVerification a b = (uvIndex a < uvIndex b)"

lemma uvIndex_inject: "uvIndex a = uvIndex b \<Longrightarrow> a = b"
  by (cases a; cases b) simp_all

instance
  by standard
    (auto simp: less_eq_UserVerification_def less_UserVerification_def dest: uvIndex_inject)

end

definition UserVerification_String :: "UserVerification \<Rightarrow> string" where
  "UserVerification_String uv = (if uv = UVRequired then ''required'' else ''discouraged'')"

section \<open>Requests and results\<close>

record EnrollRequest =
  eq_RPID :: string
  eq_RPName :: string
  eq_UserID :: bytes
  eq_UserName :: string
  eq_UV :: UserVerification
  eq_Timeout :: int

record EnrollResult =
  er_CredentialID :: bytes
  er_PRFEnabled :: bool
  er_ResidentKey :: bool
  er_AttestationFormat :: string
  er_AttestationAlg :: int
  er_AttestationSignature :: bytes
  er_AuthenticatorData :: bytes
  er_ClientDataHash :: bytes
  er_AttestationCerts :: "bytes list"

record DeriveRequest =
  dq_RPID :: string
  dq_CredentialIDs :: "bytes list"
  dq_Salt :: bytes
  dq_UV :: UserVerification
  dq_Timeout :: int

record DeriveResult =
  dr_Secret :: bytes
  dr_CredentialID :: bytes
  dr_UserPresent :: bool
  dr_UserVerified :: bool

record 'd Authenticator =
  auth_Enroll :: "EnrollRequest \<Rightarrow> 'd \<Rightarrow> EnrollResult result \<times> 'd"
  auth_Derive :: "DeriveRequest \<Rightarrow> 'd \<Rightarrow> DeriveResult result \<times> 'd"

section \<open>Validation and timeouts\<close>

text \<open>\<open>DeriveRequest.Validate\<close>: the loop over the allow-list stops at the first empty ID.\<close>

fun validateIDs :: "bytes list \<Rightarrow> unit result" where
  "validateIDs [] = Inr ()"
| "validateIDs (i # ids) = (if length i = 0 then failWith ErrNoCredentialID else validateIDs ids)"

definition Validate :: "DeriveRequest \<Rightarrow> unit result" where
  "Validate r =
     (if length (dq_CredentialIDs r) = 0 then failWith ErrNoCredentialID
      else bindR (validateIDs (dq_CredentialIDs r)) (\<lambda>_.
        if length (dq_Salt r) \<noteq> SaltLen then failWith ErrSaltLength else Inr ()))"

definition orDefault :: "int \<Rightarrow> int" where
  "orDefault d = (if d \<le> 0 then DefaultTimeout else d)"

definition DeriveRequest_TimeoutOrDefault :: "DeriveRequest \<Rightarrow> int" where
  "DeriveRequest_TimeoutOrDefault r = orDefault (dq_Timeout r)"

definition EnrollRequest_TimeoutOrDefault :: "EnrollRequest \<Rightarrow> int" where
  "EnrollRequest_TimeoutOrDefault r = orDefault (eq_Timeout r)"

lemma validateIDs_cases:
  "validateIDs ids = (if [] \<in> set ids then failWith ErrNoCredentialID else Inr ())"
  by (induction ids) auto

lemma Validate_ok_iff:
  "Validate r = Inr () \<longleftrightarrow>
     dq_CredentialIDs r \<noteq> [] \<and> [] \<notin> set (dq_CredentialIDs r) \<and> length (dq_Salt r) = SaltLen"
  by (auto simp: Validate_def validateIDs_cases)

section \<open>Calls through the port\<close>

datatype gesture = GEnroll EnrollRequest | GDerive DeriveRequest

record 'd world =
  w_device :: 'd
  w_entropy :: "nat \<Rightarrow> (nat \<Rightarrow> byte) option"
  w_draws :: nat
  w_gestures :: "gesture list"

definition callEnroll ::
  "'d Authenticator \<Rightarrow> EnrollRequest \<Rightarrow> (goerror, EnrollResult, 'd world) effect" where
  "callEnroll auth req = (\<lambda>w.
     case auth_Enroll auth req (w_device w) of (r, d) \<Rightarrow>
       (r, w\<lparr>w_device := d, w_gestures := w_gestures w @ [GEnroll req]\<rparr>))"

definition callDerive ::
  "'d Authenticator \<Rightarrow> DeriveRequest \<Rightarrow> (goerror, DeriveResult, 'd world) effect" where
  "callDerive auth req = (\<lambda>w.
     case auth_Derive auth req (w_device w) of (r, d) \<Rightarrow>
       (r, w\<lparr>w_device := d, w_gestures := w_gestures w @ [GDerive req]\<rparr>))"

lemma callEnroll_world:
  "callEnroll auth req w = (r, w') \<Longrightarrow>
     w_gestures w' = w_gestures w @ [GEnroll req] \<and> w_draws w' = w_draws w \<and> w_entropy w' = w_entropy w"
  by (auto simp: callEnroll_def split: prod.splits)

lemma callDerive_world:
  "callDerive auth req w = (r, w') \<Longrightarrow>
     w_gestures w' = w_gestures w @ [GDerive req] \<and> w_draws w' = w_draws w \<and> w_entropy w' = w_entropy w"
  by (auto simp: callDerive_def split: prod.splits)

lemma callDerive_result:
  "callDerive auth req w = (r, w') \<Longrightarrow> fst (auth_Derive auth req (w_device w)) = r"
  by (auto simp: callDerive_def split: prod.splits)

section \<open>What a provider promises\<close>

text \<open>
  Two documented behaviours of a provider, used as hypotheses where a property needs them.
  \<open>answers_from_allow_list\<close>: the credential a derivation reports is one of those asked for
  (\<open>DeriveRequest.CredentialIDs\<close>). \<open>derives_by prf\<close>: the secret is a function of the credential,
  the salt and whether the operator was verified (\<open>UserVerification\<close>: two independent
  per-credential secrets, the same salt yields a different output).
\<close>

definition answers_from_allow_list :: "'d Authenticator \<Rightarrow> bool" where
  "answers_from_allow_list auth \<longleftrightarrow>
     (\<forall>req d r. fst (auth_Derive auth req d) = Inr r \<longrightarrow> dr_CredentialID r \<in> set (dq_CredentialIDs req))"

definition derives_by :: "(bytes \<Rightarrow> bytes \<Rightarrow> bool \<Rightarrow> bytes) \<Rightarrow> 'd Authenticator \<Rightarrow> bool" where
  "derives_by prf auth \<longleftrightarrow>
     (\<forall>req d r. fst (auth_Derive auth req d) = Inr r \<longrightarrow>
        dr_Secret r = prf (dr_CredentialID r) (dq_Salt req) (dr_UserVerified r))"

lemma derives_singleton:
  assumes "answers_from_allow_list auth" and "derives_by prf auth"
    and "callDerive auth req w = (Inr r, w')" and "dq_CredentialIDs req = [c]"
  shows "dr_CredentialID r = c \<and> dr_Secret r = prf c (dq_Salt req) (dr_UserVerified r)"
  using assms callDerive_result [OF assms(3)]
  by (fastforce simp: answers_from_allow_list_def derives_by_def)

text \<open>Validation refuses exactly the malformed requests, and reports a missing credential
  before a wrong salt length.\<close>

lemma Validate_total:
  "Validate r =
     (if dq_CredentialIDs r = [] \<or> [] \<in> set (dq_CredentialIDs r) then failWith ErrNoCredentialID
      else if length (dq_Salt r) \<noteq> 32 then failWith ErrSaltLength else Inr ())"
  by (auto simp: Validate_def validateIDs_cases SaltLen_def)

end
