(* ===== verification/Slots.thy ===== *)
theory Slots
  imports Errors
begin

text \<open>
  \<open>slots.go\<close>: the public description of an enrolled key and the choice of a free slot.
  A Go \<open>int\<close> slot is an \<open>int\<close>; the only arithmetic on one is the counter of \<open>FreeSlot\<close>, which never
  passes the number of entries.
\<close>

record SlotInfo =
  si_Slot :: int
  si_Label :: string
  si_CredentialIDHex :: string

definition SlotInfo_String :: "SlotInfo \<Rightarrow> string" where
  "SlotInfo_String s =
     ''slot '' @ decInt (si_Slot s) @ '' ('' @ si_Label s @ '') '' @ si_CredentialIDHex s"

text \<open>
  The unbounded counting loop \<open>for n := 0; ; n++\<close> of \<open>FreeSlot\<close>. It may not end on an arbitrary
  map, so not returning is \<open>None\<close>; on the map \<open>FreeSlot\<close> builds it always returns.
\<close>

partial_function (option) freeSlotLoop :: "(int \<Rightarrow> bool) \<Rightarrow> int \<Rightarrow> int option" where
  "freeSlotLoop occupied n = (if \<not> occupied n then Some n else freeSlotLoop occupied (n + 1))"

definition FreeSlot :: "SlotInfo list \<Rightarrow> int option" where
  "FreeSlot slots =
     (let occupied = foldl (\<lambda>m s. m(si_Slot s := True)) (\<lambda>_. False) slots
      in freeSlotLoop occupied 0)"

lemma occupied_foldl:
  "foldl (\<lambda>m s. m(si_Slot s := True)) m slots n \<longleftrightarrow> m n \<or> n \<in> si_Slot ` set slots"
  by (induction slots arbitrary: m) auto

lemma freeSlotLoop_to:
  assumes "\<not> occupied (n + int k)"
    and "\<And>j. j < k \<Longrightarrow> occupied (n + int j)"
  shows "freeSlotLoop occupied n = Some (n + int k)"
  using assms
proof (induction k arbitrary: n)
  case 0
  then show ?case by (simp add: freeSlotLoop.simps)
next
  case (Suc k)
  have "occupied n" using Suc.prems(2) [of 0] by simp
  moreover have "freeSlotLoop occupied (n + 1) = Some (n + 1 + int k)"
  proof (rule Suc.IH)
    show "\<not> occupied (n + 1 + int k)" using Suc.prems(1) by (simp add: add.assoc)
    show "occupied (n + 1 + int j)" if "j < k" for j
      using Suc.prems(2) [of "Suc j"] that by (simp add: add.assoc)
  qed
  ultimately show ?case by (simp add: freeSlotLoop.simps [of occupied n] add.assoc)
qed

text \<open>
  Some number up to the number of entries is free: \<open>length slots + 1\<close> candidates cannot all be
  taken by \<open>length slots\<close> entries.
\<close>

lemma free_candidate: "\<exists>k \<le> length slots. int k \<notin> si_Slot ` set slots"
proof (rule ccontr)
  assume "\<not> ?thesis"
  then have sub: "int ` {..length slots} \<subseteq> si_Slot ` set slots" by auto
  have "Suc (length slots) = card (int ` {..length slots})"
    by (simp add: card_image)
  also have "\<dots> \<le> card (si_Slot ` set slots)"
    by (rule card_mono [OF _ sub]) simp
  also have "\<dots> \<le> length slots"
    using card_image_le [of "set slots" si_Slot] card_length [of slots] by simp
  finally show False by simp
qed

lemma FreeSlot_least_free:
  "\<exists>k \<le> length slots. FreeSlot slots = Some (int k) \<and> int k \<notin> si_Slot ` set slots
     \<and> (\<forall>j<k. int j \<in> si_Slot ` set slots)"
proof -
  define k where "k = (LEAST k. int k \<notin> si_Slot ` set slots)"
  obtain c where c: "c \<le> length slots" "int c \<notin> si_Slot ` set slots"
    using free_candidate by blast
  have free: "int k \<notin> si_Slot ` set slots"
    unfolding k_def using c(2) by (rule LeastI)
  have le: "k \<le> length slots"
    unfolding k_def using Least_le [of "\<lambda>k. int k \<notin> si_Slot ` set slots", OF c(2)] c(1) by simp
  have below: "\<forall>j<k. int j \<in> si_Slot ` set slots"
    unfolding k_def using not_less_Least by blast
  have "FreeSlot slots = Some (0 + int k)"
    unfolding FreeSlot_def Let_def
    by (rule freeSlotLoop_to) (use free below in \<open>simp_all add: occupied_foldl\<close>)
  with le free below show ?thesis by auto
qed

lemma FreeSlot_Some:
  "FreeSlot slots = Some n \<Longrightarrow> 0 \<le> n \<and> n \<notin> si_Slot ` set slots"
  using FreeSlot_least_free [of slots] by auto

text \<open>C36: \<open>FreeSlot\<close> always returns, and what it returns is the least non-negative number that no
  listed slot uses; it is at most the number of listed slots, so the counter cannot overflow.\<close>

theorem FreeSlot_least:
  "\<exists>n. FreeSlot slots = Some n \<and> 0 \<le> n \<and> n \<le> int (length slots)
     \<and> n \<notin> si_Slot ` set slots \<and> {0..<n} \<subseteq> si_Slot ` set slots"
proof -
  obtain k where k: "k \<le> length slots" "FreeSlot slots = Some (int k)"
    "int k \<notin> si_Slot ` set slots" "\<forall>j<k. int j \<in> si_Slot ` set slots"
    using FreeSlot_least_free by blast
  have "{0..<int k} \<subseteq> si_Slot ` set slots"
  proof
    fix n assume "n \<in> {0..<int k}"
    then have "nat n < k" "int (nat n) = n" by auto
    with k(4) show "n \<in> si_Slot ` set slots" by metis
  qed
  with k show ?thesis by simp
qed

end
