(* ===== verification/Sealed.thy ===== *)
theory Sealed
  imports Port Slots "HOL-Library.Multiset"
begin

text \<open>
  \<open>sealed.go\<close>: the document a caller persists, the authenticated data every seal is bound to, the
  lookups over the document and the structural validation of a parsed one.
\<close>

section \<open>The document\<close>

definition formatVersion :: int where
  "formatVersion = 1"

definition aadInfo :: string where
  "aadInfo = ''touchvault/v1/aad''"

definition aadKindKey :: byte where
  "aadKindKey = 1"

definition aadKindSecret :: byte where
  "aadKindSecret = 2"

record sealedKey =
  k_Slot :: int
  k_Label :: string
  k_CredentialID :: bytes
  k_Nonce :: bytes
  k_Wrapped :: bytes

record sealedSecret =
  s_Name :: string
  s_Nonce :: bytes
  s_Ciphertext :: bytes

record sealedVault =
  v_Format :: int
  v_RPID :: string
  v_Salt :: bytes
  v_UserVerified :: bool
  v_EntropyVerified :: bool
  v_Keys :: "sealedKey list"
  v_Secrets :: "sealedSecret list"

section \<open>The authenticated data\<close>

definition appendLenPrefixed :: "bytes \<Rightarrow> bytes \<Rightarrow> bytes" where
  "appendLenPrefixed b v = AppendUint32 b (uint32 (int (length v))) @ v"

definition boolByte :: "bool \<Rightarrow> byte" where
  "boolByte b = (if b then 1 else 0)"

definition aad :: "sealedVault \<Rightarrow> bytes" where
  "aad v =
     (let b0 = bytes_of_string aadInfo;
          b1 = AppendUint32 b0 (uint32 (v_Format v));
          b2 = appendLenPrefixed b1 (bytes_of_string (v_RPID v));
          b3 = b2 @ [boolByte (v_UserVerified v), boolByte (v_EntropyVerified v)]
      in appendLenPrefixed b3 (v_Salt v))"

definition keyAAD :: "sealedVault \<Rightarrow> int \<Rightarrow> bytes \<Rightarrow> bytes" where
  "keyAAD v slot credentialID =
     appendLenPrefixed (AppendUint32 (aad v @ [aadKindKey]) (uint32 slot)) credentialID"

definition secretAAD :: "sealedVault \<Rightarrow> string \<Rightarrow> bytes" where
  "secretAAD v name = appendLenPrefixed (aad v @ [aadKindSecret]) (bytes_of_string name)"

section \<open>Lookups and listings\<close>

fun findKeyIn :: "sealedKey list \<Rightarrow> bytes \<Rightarrow> sealedKey option" where
  "findKeyIn [] credentialID = None"
| "findKeyIn (k # ks) credentialID =
     (if k_CredentialID k = credentialID then Some k else findKeyIn ks credentialID)"

definition findKey :: "sealedVault \<Rightarrow> bytes \<Rightarrow> sealedKey option" where
  "findKey v credentialID = findKeyIn (v_Keys v) credentialID"

definition slotOccupied :: "sealedVault \<Rightarrow> int \<Rightarrow> bool" where
  "slotOccupied v slot = list_ex (\<lambda>k. k_Slot k = slot) (v_Keys v)"

fun findSecretIn :: "sealedSecret list \<Rightarrow> string \<Rightarrow> sealedSecret option" where
  "findSecretIn [] name = None"
| "findSecretIn (s # ss) name = (if s_Name s = name then Some s else findSecretIn ss name)"

definition findSecret :: "sealedVault \<Rightarrow> string \<Rightarrow> sealedSecret option" where
  "findSecret v name = findSecretIn (v_Secrets v) name"

definition credentialIDs :: "sealedVault \<Rightarrow> bytes list" where
  "credentialIDs v = map k_CredentialID (v_Keys v)"

definition uvRequirement :: "sealedVault \<Rightarrow> UserVerification" where
  "uvRequirement v = (if v_UserVerified v then UVRequired else UVDiscouraged)"

text \<open>\<open>sort.Strings\<close> orders bytewise, which is the lexicographic order of \<open>string\<close>.\<close>

definition names :: "sealedVault \<Rightarrow> string list" where
  "names v = sort (map s_Name (v_Secrets v))"

definition credentialIDPrefixLen :: nat where
  "credentialIDPrefixLen = 8"

definition slotInfo :: "sealedKey \<Rightarrow> SlotInfo" where
  "slotInfo k =
     \<lparr>si_Slot = k_Slot k, si_Label = k_Label k,
      si_CredentialIDHex =
        hexBytes (take (min credentialIDPrefixLen (length (k_CredentialID k))) (k_CredentialID k))\<rparr>"

text \<open>\<open>sort.Slice\<close> by slot number; the slots of a valid document differ, so the order is determined.\<close>

definition slots :: "sealedVault \<Rightarrow> SlotInfo list" where
  "slots v = sort_key si_Slot (map slotInfo (v_Keys v))"

section \<open>Structural validation\<close>

text \<open>
  What \<open>parseSealed\<close> does after \<open>json.Unmarshal\<close>: the checks on the header, then the two loops with
  their \<open>seen\<close> maps, in the order of the code.
\<close>

definition wrongFormat :: "string \<Rightarrow> 'a result" where
  "wrongFormat format = Inl (wrap format (Sentinel ErrWrongFormat))"

fun checkKeys :: "int set \<Rightarrow> bytes set \<Rightarrow> sealedKey list \<Rightarrow> unit result" where
  "checkKeys seenSlot seenCred [] = Inr ()"
| "checkKeys seenSlot seenCred (k # ks) =
     (if k_Slot k < 0 then wrongFormat ''%w: negative slot %d''
      else if k_Slot k \<in> seenSlot then wrongFormat ''%w: slot %d appears twice''
      else if length (k_CredentialID k) = 0 then wrongFormat ''%w: slot %d has no credential ID''
      else if k_CredentialID k \<in> seenCred
        then wrongFormat ''%w: a credential is enrolled in two slots''
      else checkKeys (insert (k_Slot k) seenSlot) (insert (k_CredentialID k) seenCred) ks)"

fun checkSecrets :: "string set \<Rightarrow> sealedSecret list \<Rightarrow> unit result" where
  "checkSecrets seenName [] = Inr ()"
| "checkSecrets seenName (s # ss) =
     (if s_Name s = [] then wrongFormat ''%w: a secret has no name''
      else if s_Name s \<in> seenName then wrongFormat ''%w: secret %q appears twice''
      else checkSecrets (insert (s_Name s) seenName) ss)"

definition validateSealed :: "sealedVault \<Rightarrow> sealedVault result" where
  "validateSealed v =
     (if v_Format v \<noteq> formatVersion then wrongFormat ''%w: %d''
      else if length (v_Salt v) \<noteq> SaltLen then wrongFormat ''%w: salt is %d bytes, want %d''
      else if v_RPID v = [] then wrongFormat ''%w: no RP ID''
      else bindR (checkKeys {} {} (v_Keys v)) (\<lambda>_.
           bindR (checkSecrets {} (v_Secrets v)) (\<lambda>_. Inr v)))"

text \<open>The same acceptance, said of the document as a whole.\<close>

definition wfKeys :: "sealedKey list \<Rightarrow> bool" where
  "wfKeys ks \<longleftrightarrow> (\<forall>k \<in> set ks. 0 \<le> k_Slot k \<and> k_CredentialID k \<noteq> [])
     \<and> distinct (map k_Slot ks) \<and> distinct (map k_CredentialID ks)"

definition wfSecrets :: "sealedSecret list \<Rightarrow> bool" where
  "wfSecrets ss \<longleftrightarrow> (\<forall>s \<in> set ss. s_Name s \<noteq> []) \<and> distinct (map s_Name ss)"

definition wfVault :: "sealedVault \<Rightarrow> bool" where
  "wfVault v \<longleftrightarrow> v_Format v = formatVersion \<and> length (v_Salt v) = SaltLen \<and> v_RPID v \<noteq> []
     \<and> wfKeys (v_Keys v) \<and> wfSecrets (v_Secrets v)"

section \<open>The authenticated header is unambiguous\<close>

text \<open>
  The length prefix is 32 bits wide, so it identifies the length of everything shorter than
  \<open>2 ^ 32\<close> bytes; \<open>short\<close> is that bound, and \<open>fits\<close> puts it on the two variable fields of the header.
\<close>

definition short :: "bytes \<Rightarrow> bool" where
  "short b \<longleftrightarrow> length b < 2 ^ 32"

definition fits :: "sealedVault \<Rightarrow> bool" where
  "fits v \<longleftrightarrow> short (bytes_of_string (v_RPID v)) \<and> short (v_Salt v)"

definition sameHeader :: "sealedVault \<Rightarrow> sealedVault \<Rightarrow> bool" where
  "sameHeader v v' \<longleftrightarrow>
     uint32 (v_Format v) = uint32 (v_Format v') \<and> v_RPID v = v_RPID v'
     \<and> v_UserVerified v = v_UserVerified v' \<and> v_EntropyVerified v = v_EntropyVerified v'
     \<and> v_Salt v = v_Salt v'"

lemma appendLenPrefixed_append: "appendLenPrefixed b v = b @ appendLenPrefixed [] v"
  by (simp add: appendLenPrefixed_def AppendUint32_def)

lemma uint32_length_inject:
  "short a \<Longrightarrow> short b \<Longrightarrow> uint32 (int (length a)) = uint32 (int (length b)) \<Longrightarrow> length a = length b"
  by (simp add: uint32_eq_iff short_def flip: of_nat_mod)

lemma boolByte_inject: "boolByte a = boolByte b \<longleftrightarrow> a = b"
  by (simp add: boolByte_def)

interpretation lp: prefix_code "appendLenPrefixed []" short
proof unfold_locales
  fix a b r s
  assume ok: "short a" "short b"
    and eq: "appendLenPrefixed [] a @ r = appendLenPrefixed [] b @ s"
  have "uint32 (int (length a)) = uint32 (int (length b)) \<and> a @ r = b @ s"
    using eq unfolding appendLenPrefixed_def append_assoc by (intro be32.split) simp_all
  moreover from this have "length a = length b" using uint32_length_inject ok by blast
  ultimately show "a = b \<and> r = s" by simp
qed

interpretation flag: prefix_code "\<lambda>b. [boolByte b]" "\<lambda>_. True"
  by unfold_locales (simp add: boolByte_inject)

text \<open>The tail of a per-key AAD: a slot number, then a length-prefixed credential ID.\<close>

interpretation entry: prefix_code_pair "AppendUint32 []" "\<lambda>_. True" "appendLenPrefixed []" short
  by unfold_locales

lemma aad_unfold:
  "aad v = bytes_of_string aadInfo @ AppendUint32 [] (uint32 (v_Format v))
     @ appendLenPrefixed [] (bytes_of_string (v_RPID v))
     @ [boolByte (v_UserVerified v)] @ [boolByte (v_EntropyVerified v)]
     @ appendLenPrefixed [] (v_Salt v)"
  by (simp add: aad_def appendLenPrefixed_def AppendUint32_def)

lemma keyAAD_unfold:
  "keyAAD v slot c =
     aad v @ [aadKindKey] @ AppendUint32 [] (uint32 slot) @ appendLenPrefixed [] c"
  by (simp add: keyAAD_def appendLenPrefixed_def AppendUint32_def)

lemma secretAAD_unfold:
  "secretAAD v name = aad v @ [aadKindSecret] @ appendLenPrefixed [] (bytes_of_string name)"
  by (simp add: secretAAD_def appendLenPrefixed_def AppendUint32_def)

lemma aad_append_eq_iff:
  assumes "fits v" "fits v'"
  shows "aad v @ r = aad v' @ s \<longleftrightarrow> sameHeader v v' \<and> r = s"
  using assms unfolding sameHeader_def fits_def aad_unfold append_assoc
  by (simp add: be32.append_eq_iff lp.append_eq_iff boolByte_inject)

lemma aad_cong: "sameHeader v v' \<Longrightarrow> aad v = aad v'"
  by (simp add: aad_unfold sameHeader_def)

lemma keyAAD_cong: "sameHeader v v' \<Longrightarrow> keyAAD v slot c = keyAAD v' slot c"
  by (simp add: keyAAD_unfold aad_cong)

lemma secretAAD_cong: "sameHeader v v' \<Longrightarrow> secretAAD v name = secretAAD v' name"
  by (simp add: secretAAD_unfold aad_cong)

lemma keyAAD_eq_iff:
  assumes "fits v" "fits v'" "short c" "short c'"
  shows "keyAAD v slot c = keyAAD v' slot' c' \<longleftrightarrow>
     sameHeader v v' \<and> uint32 slot = uint32 slot' \<and> c = c'"
  using assms entry.pair.inject [of "(uint32 slot, c)" "(uint32 slot', c')"]
  by (auto simp: keyAAD_unfold aad_append_eq_iff)

lemma secretAAD_eq_iff:
  assumes "fits v" "fits v'" "short (bytes_of_string n)" "short (bytes_of_string n')"
  shows "secretAAD v n = secretAAD v' n' \<longleftrightarrow> sameHeader v v' \<and> n = n'"
  using assms lp.inject [of "bytes_of_string n" "bytes_of_string n'"]
  by (auto simp: secretAAD_unfold aad_append_eq_iff)

lemma keyAAD_neq_secretAAD:
  "fits v \<Longrightarrow> fits v' \<Longrightarrow> keyAAD v slot c \<noteq> secretAAD v' n"
  by (simp add: keyAAD_unfold secretAAD_unfold aad_append_eq_iff aadKindKey_def aadKindSecret_def)

section \<open>Facts about lookups\<close>

lemma findKeyIn_Some: "findKeyIn ks c = Some k \<Longrightarrow> k \<in> set ks \<and> k_CredentialID k = c"
  by (induction ks) (auto split: if_splits)

lemma findKeyIn_None: "findKeyIn ks c = None \<longleftrightarrow> c \<notin> k_CredentialID ` set ks"
  by (induction ks) auto

lemma findKeyIn_distinct:
  "distinct (map k_CredentialID ks) \<Longrightarrow> k \<in> set ks \<Longrightarrow> findKeyIn ks (k_CredentialID k) = Some k"
  by (induction ks) (auto simp: image_iff)

lemma findSecretIn_Some: "findSecretIn ss n = Some s \<Longrightarrow> s \<in> set ss \<and> s_Name s = n"
  by (induction ss) (auto split: if_splits)

lemma findSecretIn_None: "findSecretIn ss n = None \<longleftrightarrow> n \<notin> s_Name ` set ss"
  by (induction ss) auto

lemma slotOccupied_iff: "slotOccupied v slot \<longleftrightarrow> slot \<in> k_Slot ` set (v_Keys v)"
  by (auto simp: slotOccupied_def list_ex_iff image_iff)

lemma si_Slot_slots: "si_Slot ` set (slots v) = k_Slot ` set (v_Keys v)"
  by (simp add: slots_def slotInfo_def image_image)

lemma FreeSlot_not_occupied:
  "FreeSlot (slots v) = Some n \<Longrightarrow> 0 \<le> n \<and> \<not> slotOccupied v n"
  using FreeSlot_Some [of "slots v" n] by (simp add: slotOccupied_iff si_Slot_slots)

section \<open>Facts about validation\<close>

lemma checkKeys_ok_iff:
  "checkKeys seenSlot seenCred ks = Inr () \<longleftrightarrow>
     wfKeys ks \<and> k_Slot ` set ks \<inter> seenSlot = {} \<and> k_CredentialID ` set ks \<inter> seenCred = {}"
  by (induction ks arbitrary: seenSlot seenCred)
     (auto simp: wfKeys_def wrongFormat_def)

lemma checkSecrets_ok_iff:
  "checkSecrets seenName ss = Inr () \<longleftrightarrow> wfSecrets ss \<and> s_Name ` set ss \<inter> seenName = {}"
  by (induction ss arbitrary: seenName) (auto simp: wfSecrets_def wrongFormat_def)

lemma wrongFormat_fails [simp]: "failsWith (wrongFormat format) ErrWrongFormat"
  by (simp add: wrongFormat_def)

lemma checkKeys_error:
  "checkKeys seenSlot seenCred ks = Inl e \<Longrightarrow> errorsIs e ErrWrongFormat"
  by (induction ks arbitrary: seenSlot seenCred) (auto simp: wrongFormat_def split: if_splits)

lemma checkSecrets_error: "checkSecrets seenName ss = Inl e \<Longrightarrow> errorsIs e ErrWrongFormat"
  by (induction ss arbitrary: seenName) (auto simp: wrongFormat_def split: if_splits)

lemma validateSealed_Inr_iff: "validateSealed v = Inr v' \<longleftrightarrow> v' = v \<and> wfVault v"
  by (auto simp: validateSealed_def wfVault_def results checkKeys_ok_iff checkSecrets_ok_iff
      wrongFormat_def)

lemma validateSealed_error: "validateSealed v = Inl e \<Longrightarrow> errorsIs e ErrWrongFormat"
  by (auto simp: validateSealed_def results wrongFormat_def checkKeys_error checkSecrets_error
      split: if_splits)

lemma wfVault_findKey:
  "wfVault v \<Longrightarrow> k \<in> set (v_Keys v) \<Longrightarrow> findKey v (k_CredentialID k) = Some k"
  by (simp add: wfVault_def wfKeys_def findKey_def findKeyIn_distinct)

end
