(* ===== verification/Crypto.thy ===== *)
theory Crypto
  imports Sealed
begin

text \<open>
  \<open>crypto.go\<close>: key derivation, sealing and opening, and the four operations of a document built on
  them. AES-GCM, HKDF and SHA-256 are the standard library's; they are the fields of \<open>prims\<close>, an
  argument of every definition that uses one, and what the code relies on is stated as the named
  predicates \<open>aead_roundtrip\<close>, \<open>aead_authentic\<close> and \<open>aead_binding\<close> (the documentation of
  \<open>cipher.AEAD\<close>). Randomness is drawn from the world's entropy source, one draw per call.
\<close>

section \<open>The primitives\<close>

text \<open>
  \<open>gcmSeal key nonce plaintext additionalData\<close>, \<open>gcmOpen key nonce ciphertext additionalData\<close>,
  \<open>hkdfKey secret salt info keyLength\<close> (over SHA-256).
\<close>

record prims =
  gcmSeal :: "bytes \<Rightarrow> bytes \<Rightarrow> bytes \<Rightarrow> bytes \<Rightarrow> bytes"
  gcmOpen :: "bytes \<Rightarrow> bytes \<Rightarrow> bytes \<Rightarrow> bytes \<Rightarrow> bytes option"
  hkdfKey :: "bytes \<Rightarrow> bytes \<Rightarrow> string \<Rightarrow> nat \<Rightarrow> bytes result"
  sha256Sum :: "bytes \<Rightarrow> bytes"

text \<open>\<open>gcm.NonceSize()\<close> of the standard GCM, and the key sizes \<open>aes.NewCipher\<close> accepts.\<close>

definition gcmNonceSize :: nat where
  "gcmNonceSize = 12"

definition aesNewCipher :: "bytes \<Rightarrow> bytes result" where
  "aesNewCipher key =
     (if length key \<in> {16, 24, 32} then Inr key else Inl (errorsNew ''crypto/aes: invalid key size''))"

definition aead_roundtrip :: "'z prims_scheme \<Rightarrow> bool" where
  "aead_roundtrip p \<longleftrightarrow> (\<forall>k n pt ad. gcmOpen p k n (gcmSeal p k n pt ad) ad = Some pt)"

definition aead_authentic :: "'z prims_scheme \<Rightarrow> bool" where
  "aead_authentic p \<longleftrightarrow> (\<forall>k n c ad pt. gcmOpen p k n c ad = Some pt \<longrightarrow> c = gcmSeal p k n pt ad)"

text \<open>
  Opening under the key of the sealing needs the nonce and the additional data of the sealing. Nothing
  is said of other keys: AES-GCM does not commit to its key.
\<close>

definition aead_binding :: "'z prims_scheme \<Rightarrow> bool" where
  "aead_binding p \<longleftrightarrow>
     (\<forall>k n pt ad n' ad' q. gcmOpen p k n' (gcmSeal p k n pt ad) ad' = Some q \<longrightarrow> n' = n \<and> ad' = ad)"

section \<open>Random bytes and derived keys\<close>

definition dataKeyLen :: nat where
  "dataKeyLen = 32"

definition kekInfo :: string where
  "kekInfo = ''touchvault/v1/kek''"

definition randomBytes :: "nat \<Rightarrow> (goerror, bytes, 'd world) effect" where
  "randomBytes n = (\<lambda>w.
     let w' = w\<lparr>w_draws := Suc (w_draws w)\<rparr> in
     case w_entropy w (w_draws w) of
       None \<Rightarrow> (Inl (wrap ''touchvault: reading random bytes: %w'' (errorsNew ''crypto/rand'')), w')
     | Some g \<Rightarrow> (Inr (map g [0..<n]), w'))"

definition newSalt :: "(goerror, bytes, 'd world) effect" where
  "newSalt = randomBytes SaltLen"

definition newDataKey :: "(goerror, bytes, 'd world) effect" where
  "newDataKey = randomBytes dataKeyLen"

definition deriveKEK :: "'z prims_scheme \<Rightarrow> bytes \<Rightarrow> bytes \<Rightarrow> bytes result" where
  "deriveKEK p prf salt =
     (if length prf = 0 then failWith ErrNoPRF
      else wrapErr (wrap ''touchvault: deriving key-encryption key: %w'')
             (hkdfKey p prf salt kekInfo dataKeyLen))"

section \<open>Sealing and opening\<close>

definition newGCM :: "bytes \<Rightarrow> bytes result" where
  "newGCM key =
     (if length key \<noteq> dataKeyLen then Inl (errorsNew ''touchvault: key must be 32 bytes'')
      else wrapErr (wrap ''touchvault: aes: %w'') (aesNewCipher key))"

definition seal ::
  "'z prims_scheme \<Rightarrow> bytes \<Rightarrow> bytes \<Rightarrow> bytes \<Rightarrow> (goerror, bytes \<times> bytes, 'd world) effect" where
  "seal p key plaintext ad =
     bindE (liftE (newGCM key)) (\<lambda>gcm.
     bindE (randomBytes gcmNonceSize) (\<lambda>nonce.
       returnE (nonce, gcmSeal p gcm nonce plaintext ad)))"

definition openAEAD :: "'z prims_scheme \<Rightarrow> bytes \<Rightarrow> bytes \<Rightarrow> bytes \<Rightarrow> bytes \<Rightarrow> bytes result" where
  "openAEAD p key nonce ciphertext ad =
     bindR (newGCM key) (\<lambda>gcm.
       if length nonce \<noteq> gcmNonceSize
         then Inl (wrap ''%w: nonce is %d bytes, want %d'' (Sentinel ErrWrongFormat))
       else case gcmOpen p gcm nonce ciphertext ad of
              None \<Rightarrow> Inl (wrap ''touchvault: authenticating: %w''
                        (errorsNew ''cipher: message authentication failed''))
            | Some plaintext \<Rightarrow> Inr plaintext)"

section \<open>The data key under a credential, a secret under the data key\<close>

definition wrapDataKey ::
  "'z prims_scheme \<Rightarrow> sealedVault \<Rightarrow> bytes \<Rightarrow> bytes \<Rightarrow> bytes \<Rightarrow> int \<Rightarrow> string
     \<Rightarrow> (goerror, sealedKey, 'd world) effect" where
  "wrapDataKey p v dataKey credentialID prf slot label =
     bindE (liftE (deriveKEK p prf (v_Salt v))) (\<lambda>kek.
     bindE (seal p kek dataKey (keyAAD v slot credentialID)) (\<lambda>(nonce, wrapped).
       returnE \<lparr>k_Slot = slot, k_Label = label, k_CredentialID = credentialID,
                k_Nonce = nonce, k_Wrapped = wrapped\<rparr>))"

definition unwrapDataKey ::
  "'z prims_scheme \<Rightarrow> sealedVault \<Rightarrow> sealedKey \<Rightarrow> bytes \<Rightarrow> bytes result" where
  "unwrapDataKey p v entry prf =
     bindR (deriveKEK p prf (v_Salt v)) (\<lambda>kek.
       wrapErr (wrap ''touchvault: unwrapping the data key with key %q: %w'')
         (openAEAD p kek (k_Nonce entry) (k_Wrapped entry)
            (keyAAD v (k_Slot entry) (k_CredentialID entry))))"

definition sealSecret ::
  "'z prims_scheme \<Rightarrow> sealedVault \<Rightarrow> bytes \<Rightarrow> string \<Rightarrow> bytes
     \<Rightarrow> (goerror, sealedSecret, 'd world) effect" where
  "sealSecret p v dataKey name plaintext =
     bindE (seal p dataKey plaintext (secretAAD v name)) (\<lambda>(nonce, ciphertext).
       returnE \<lparr>s_Name = name, s_Nonce = nonce, s_Ciphertext = ciphertext\<rparr>)"

definition openSecret ::
  "'z prims_scheme \<Rightarrow> sealedVault \<Rightarrow> bytes \<Rightarrow> sealedSecret \<Rightarrow> bytes result" where
  "openSecret p v dataKey s =
     wrapErr (wrap ''touchvault: decrypting secret %q: %w'')
       (openAEAD p dataKey (s_Nonce s) (s_Ciphertext s) (secretAAD v (s_Name s)))"

definition zero :: "bytes \<Rightarrow> bytes" where
  "zero b = map (\<lambda>_. 0) b"

section \<open>Facts about the primitives\<close>

lemma newGCM_Inr_iff [results]: "newGCM key = Inr g \<longleftrightarrow> length key = 32 \<and> g = key"
  by (auto simp: newGCM_def dataKeyLen_def aesNewCipher_def)

lemma newGCM_32 [simp]: "length key = 32 \<Longrightarrow> newGCM key = Inr key"
  by (simp add: newGCM_Inr_iff)

lemma randomBytes_ok:
  "randomBytes n w = (Inr b, w') \<longleftrightarrow>
     (\<exists>g. w_entropy w (w_draws w) = Some g \<and> b = map g [0..<n])
     \<and> w' = w\<lparr>w_draws := Suc (w_draws w)\<rparr>"
  by (auto simp: randomBytes_def Let_def split: option.splits)

lemma randomBytes_world:
  "randomBytes n w = (r, w') \<Longrightarrow>
     w_draws w' = Suc (w_draws w) \<and> w_gestures w' = w_gestures w \<and> w_device w' = w_device w
     \<and> w_entropy w' = w_entropy w"
  by (auto simp: randomBytes_def Let_def split: option.splits)

lemma randomBytes_length: "randomBytes n w = (Inr b, w') \<Longrightarrow> length b = n"
  by (auto simp: randomBytes_ok)

lemma seal_ok:
  "seal p key pt ad w = (Inr (n, c), w') \<longleftrightarrow>
     length key = 32 \<and> randomBytes 12 w = (Inr n, w') \<and> c = gcmSeal p key n pt ad"
  by (auto simp: seal_def results gcmNonceSize_def)

lemma openAEAD_Inr_iff:
  "openAEAD p key n c ad = Inr pt \<longleftrightarrow>
     length key = 32 \<and> length n = 12 \<and> gcmOpen p key n c ad = Some pt"
  by (auto simp: openAEAD_def results gcmNonceSize_def split: option.splits)

lemma wrapDataKey_ok:
  "wrapDataKey p v dk cred prf slot label w = (Inr k, w') \<longleftrightarrow>
     (\<exists>kek. deriveKEK p prf (v_Salt v) = Inr kek
        \<and> seal p kek dk (keyAAD v slot cred) w = (Inr (k_Nonce k, k_Wrapped k), w')
        \<and> k_Slot k = slot \<and> k_Label k = label \<and> k_CredentialID k = cred)"
  by (cases k) (auto simp: wrapDataKey_def results)

lemma unwrapDataKey_Inr_iff:
  "unwrapDataKey p v k prf = Inr dk \<longleftrightarrow>
     (\<exists>kek. deriveKEK p prf (v_Salt v) = Inr kek
        \<and> openAEAD p kek (k_Nonce k) (k_Wrapped k) (keyAAD v (k_Slot k) (k_CredentialID k)) = Inr dk)"
  by (auto simp: unwrapDataKey_def results)

lemma sealSecret_ok:
  "sealSecret p v dk name pt w = (Inr s, w') \<longleftrightarrow>
     s_Name s = name \<and> seal p dk pt (secretAAD v name) w = (Inr (s_Nonce s, s_Ciphertext s), w')"
  by (cases s) (auto simp: sealSecret_def results)

lemma openSecret_Inr_iff:
  "openSecret p v dk s = Inr pt \<longleftrightarrow>
     openAEAD p dk (s_Nonce s) (s_Ciphertext s) (secretAAD v (s_Name s)) = Inr pt"
  by (simp add: openSecret_def results)

section \<open>The contract of a sealed box\<close>

text \<open>
  Three pairs of operations share one contract: \<open>seal\<close>/\<open>open\<close>, wrapping and unwrapping the data key,
  sealing and opening a secret. A box sealed in a context opens in that context to what was sealed;
  the stronger contract adds that the key it was sealed with opens it in no context that differs.
\<close>

locale sealed_box =
  fixes good :: "'c \<Rightarrow> bool"
    and sealop :: "'c \<Rightarrow> 'k \<Rightarrow> 'a \<Rightarrow> 'p \<Rightarrow> 'w \<Rightarrow> (goerror + 'b) \<times> 'w"
    and openop :: "'c \<Rightarrow> 'k \<Rightarrow> 'a \<Rightarrow> 'b \<Rightarrow> goerror + 'p"
  assumes opens: "good c \<Longrightarrow> sealop c k a p w = (Inr b, w') \<Longrightarrow> openop c k a b = Inr p"
begin

lemma opens_only_to:
  "good c \<Longrightarrow> sealop c k a p w = (Inr b, w') \<Longrightarrow> openop c k a b = Inr q \<Longrightarrow> q = p"
  using opens by fastforce

lemma same_box_same_content:
  assumes "good c" "sealop c k a p w = (Inr b, w1)" "sealop c k a p' w' = (Inr b, w2)"
  shows "p = p'"
  using opens [OF assms(1,2)] opens [OF assms(1,3)] by simp

end

locale bound_box = sealed_box good sealop openop
  for good :: "'c \<Rightarrow> bool"
    and sealop :: "'c \<Rightarrow> 'k \<Rightarrow> 'a \<Rightarrow> 'p \<Rightarrow> 'w \<Rightarrow> (goerror + 'b) \<times> 'w"
    and openop :: "'c \<Rightarrow> 'k \<Rightarrow> 'a \<Rightarrow> 'b \<Rightarrow> goerror + 'p" +
  fixes binding :: "'c \<Rightarrow> bool" and usable :: "'a \<Rightarrow> bool" and agree :: "'a \<Rightarrow> 'a \<Rightarrow> bool"
    and keyof :: "'c \<Rightarrow> 'k \<Rightarrow> 'a \<Rightarrow> 'q"
  assumes bound: "binding c \<Longrightarrow> usable a \<Longrightarrow> usable a' \<Longrightarrow> keyof c k' a' = keyof c k a
    \<Longrightarrow> sealop c k a p w = (Inr b, w') \<Longrightarrow> openop c k' a' b = Inr q \<Longrightarrow> agree a a'"
begin

lemma tampered_fails:
  assumes "binding c" "usable a" "usable a'" "keyof c k' a' = keyof c k a"
    and "sealop c k a p w = (Inr b, w')" "\<not> agree a a'"
  shows "\<exists>e. openop c k' a' b = Inl e"
  using bound [OF assms(1-5)] assms(6) by (cases "openop c k' a' b") auto

end

lemma seal_opens:
  assumes "aead_roundtrip p" and "seal p key pt ad w = (Inr (n, c), w')"
  shows "openAEAD p key n c ad = Inr pt"
  using assms randomBytes_length [of 12 w n w']
  by (auto simp: seal_ok openAEAD_Inr_iff aead_roundtrip_def)

lemma seal_bound:
  assumes "aead_binding p" and "seal p key pt ad w = (Inr (n, c), w')"
    and "openAEAD p key n' c ad' = Inr q"
  shows "n' = n \<and> ad' = ad"
proof -
  have "gcmOpen p key n' (gcmSeal p key n pt ad) ad' = Some q"
    using assms(2,3) by (simp add: seal_ok openAEAD_Inr_iff)
  with assms(1) show ?thesis unfolding aead_binding_def by blast
qed

interpretation gcmBox: bound_box aead_roundtrip
  "\<lambda>p key ad pt w. seal p key pt ad w" "\<lambda>p key ad b. openAEAD p key (fst b) (snd b) ad"
  aead_binding "\<lambda>_. True" "(=)" "\<lambda>p key ad. key"
  by unfold_locales (auto simp: seal_opens dest: seal_bound)

text \<open>
  The context of a wrapped data key: the document's header, a slot, a credential and a label. The
  label is part of the stored entry and so of the context; \<open>agreeKey\<close> does not mention it, because
  nothing binds it. The key is the one derived from the secret and the document's salt, \<open>kekIn\<close>.
\<close>

type_synonym keyContext = "sealedVault \<times> int \<times> bytes \<times> string"

definition sealKeyIn :: "'z prims_scheme \<Rightarrow> bytes \<Rightarrow> keyContext \<Rightarrow> bytes
    \<Rightarrow> (goerror, sealedKey, 'd world) effect" where
  "sealKeyIn p prf ctx dk =
     (case ctx of (v, slot, cred, label) \<Rightarrow> wrapDataKey p v dk cred prf slot label)"

definition openKeyIn :: "'z prims_scheme \<Rightarrow> bytes \<Rightarrow> keyContext \<Rightarrow> sealedKey \<Rightarrow> bytes result" where
  "openKeyIn p prf ctx k =
     (case ctx of (v, slot, cred, label) \<Rightarrow>
        unwrapDataKey p v (k\<lparr>k_Slot := slot, k_CredentialID := cred, k_Label := label\<rparr>) prf)"

definition kekIn :: "'z prims_scheme \<Rightarrow> bytes \<Rightarrow> keyContext \<Rightarrow> bytes result" where
  "kekIn p prf ctx = (case ctx of (v, slot, cred, label) \<Rightarrow> deriveKEK p prf (v_Salt v))"

definition usableKey :: "keyContext \<Rightarrow> bool" where
  "usableKey ctx = (case ctx of (v, slot, cred, label) \<Rightarrow> fits v \<and> short cred)"

definition agreeKey :: "keyContext \<Rightarrow> keyContext \<Rightarrow> bool" where
  "agreeKey ctx ctx' =
     (case (ctx, ctx') of ((v, slot, cred, label), (v', slot', cred', label')) \<Rightarrow>
        sameHeader v v' \<and> uint32 slot = uint32 slot' \<and> cred = cred')"

lemma openKeyIn_own:
  "openKeyIn p prf (v, k_Slot k, k_CredentialID k, k_Label k) k = unwrapDataKey p v k prf"
  by (simp add: openKeyIn_def)

lemma unwrap_wrapped:
  assumes "aead_roundtrip p" and "wrapDataKey p v dk cred prf slot label w = (Inr k, w')"
  shows "unwrapDataKey p v k prf = Inr dk"
  using assms by (auto simp: wrapDataKey_ok unwrapDataKey_Inr_iff seal_opens)

interpretation keyBox: bound_box aead_roundtrip sealKeyIn openKeyIn aead_binding usableKey agreeKey kekIn
proof unfold_locales
  fix p :: "'a prims_scheme" and pr :: bytes and ctx :: keyContext and dk and w w' :: "'b world"
    and k :: sealedKey
  obtain v slot cred label where ctx: "ctx = (v, slot, cred, label)" by (cases ctx)
  assume "sealKeyIn p pr ctx dk w = (Inr k, w')"
  then have wrapped: "wrapDataKey p v dk cred pr slot label w = (Inr k, w')"
    by (simp add: sealKeyIn_def ctx)
  then have own: "k\<lparr>k_Slot := slot, k_CredentialID := cred, k_Label := label\<rparr> = k"
    by (auto simp: wrapDataKey_ok)
  show "openKeyIn p pr ctx k = Inr dk" if "aead_roundtrip p"
    using unwrap_wrapped [OF that wrapped] own by (simp add: openKeyIn_def ctx)
  fix ctx' :: keyContext and pr' and q
  obtain v' slot' cred' label' where ctx': "ctx' = (v', slot', cred', label')" by (cases ctx')
  assume "aead_binding p" "usableKey ctx" "usableKey ctx'" "kekIn p pr' ctx' = kekIn p pr ctx"
    and "openKeyIn p pr' ctx' k = Inr q"
  then have use: "fits v" "fits v'" "short cred" "short cred'"
    and opened: "unwrapDataKey p v' (k\<lparr>k_Slot := slot', k_CredentialID := cred', k_Label := label'\<rparr>) pr'
      = Inr q"
    and same: "deriveKEK p pr' (v_Salt v') = deriveKEK p pr (v_Salt v)"
    by (simp_all add: usableKey_def openKeyIn_def kekIn_def ctx ctx')
  obtain kek where kek: "deriveKEK p pr (v_Salt v) = Inr kek"
    and "seal p kek dk (keyAAD v slot cred) w = (Inr (k_Nonce k, k_Wrapped k), w')"
    using wrapped by (auto simp: wrapDataKey_ok)
  moreover have "openAEAD p kek (k_Nonce k) (k_Wrapped k) (keyAAD v' slot' cred') = Inr q"
    using opened same kek by (auto simp: unwrapDataKey_Inr_iff)
  ultimately have "keyAAD v slot cred = keyAAD v' slot' cred'"
    using seal_bound [OF \<open>aead_binding p\<close>] by metis
  then show "agreeKey ctx ctx'"
    using use by (simp add: agreeKey_def ctx ctx' keyAAD_eq_iff)
qed

text \<open>The context of a secret: the document's header and the secret's name.\<close>

definition sealSecretIn :: "'z prims_scheme \<Rightarrow> bytes \<Rightarrow> sealedVault \<times> string \<Rightarrow> bytes
    \<Rightarrow> (goerror, sealedSecret, 'd world) effect" where
  "sealSecretIn p dk ctx pt = (case ctx of (v, name) \<Rightarrow> sealSecret p v dk name pt)"

definition openSecretIn ::
    "'z prims_scheme \<Rightarrow> bytes \<Rightarrow> sealedVault \<times> string \<Rightarrow> sealedSecret \<Rightarrow> bytes result" where
  "openSecretIn p dk ctx s = (case ctx of (v, name) \<Rightarrow> openSecret p v dk (s\<lparr>s_Name := name\<rparr>))"

definition usableSecret :: "sealedVault \<times> string \<Rightarrow> bool" where
  "usableSecret ctx = (case ctx of (v, name) \<Rightarrow> fits v \<and> short (bytes_of_string name))"

definition agreeSecret :: "sealedVault \<times> string \<Rightarrow> sealedVault \<times> string \<Rightarrow> bool" where
  "agreeSecret ctx ctx' =
     (case (ctx, ctx') of ((v, name), (v', name')) \<Rightarrow> sameHeader v v' \<and> name = name')"

lemma open_sealed_secret:
  assumes "aead_roundtrip p" and "sealSecret p v dk name pt w = (Inr s, w')"
  shows "openSecret p v dk s = Inr pt"
  using assms by (auto simp: sealSecret_ok openSecret_Inr_iff seal_opens)

interpretation secretBox: bound_box aead_roundtrip sealSecretIn openSecretIn aead_binding
  usableSecret agreeSecret "\<lambda>p dk ctx. dk"
proof unfold_locales
  fix p :: "'a prims_scheme" and dk :: bytes and ctx :: "sealedVault \<times> string" and pt
    and w w' :: "'b world" and s :: sealedSecret
  obtain v name where ctx: "ctx = (v, name)" by (cases ctx)
  assume "sealSecretIn p dk ctx pt w = (Inr s, w')"
  then have sealed: "sealSecret p v dk name pt w = (Inr s, w')"
    by (simp add: sealSecretIn_def ctx)
  then have own: "s\<lparr>s_Name := name\<rparr> = s"
    by (auto simp: sealSecret_ok)
  show "openSecretIn p dk ctx s = Inr pt" if "aead_roundtrip p"
    using open_sealed_secret [OF that sealed] own by (simp add: openSecretIn_def ctx)
  fix ctx' :: "sealedVault \<times> string" and dk' and q
  obtain v' name' where ctx': "ctx' = (v', name')" by (cases ctx')
  assume binding: "aead_binding p" and "usableSecret ctx" "usableSecret ctx'" "dk' = dk"
    and opened: "openSecretIn p dk' ctx' s = Inr q"
  then have use: "fits v" "fits v'" "short (bytes_of_string name)" "short (bytes_of_string name')"
    by (simp_all add: usableSecret_def ctx ctx')
  have "seal p dk pt (secretAAD v name) w = (Inr (s_Nonce s, s_Ciphertext s), w')"
    using sealed by (simp add: sealSecret_ok)
  moreover have "openAEAD p dk (s_Nonce s) (s_Ciphertext s) (secretAAD v' name') = Inr q"
    using opened \<open>dk' = dk\<close> by (simp add: openSecretIn_def ctx' openSecret_Inr_iff)
  ultimately have "secretAAD v name = secretAAD v' name'"
    using seal_bound [OF binding] by metis
  then show "agreeSecret ctx ctx'"
    using use by (simp add: agreeSecret_def ctx ctx' secretAAD_eq_iff)
qed

end
