(* ===== verification/Entropy.thy ===== *)
theory Entropy
  imports Crypto
begin

unbundle bit_operations_syntax

text \<open>
  \<open>entropy.go\<close>: the gate that proves, on the device at enrollment, that the derivation depends on the
  whole salt. It derives once more over the salt with its last byte flipped and refuses when the
  output does not change.
\<close>

section \<open>The gate\<close>

text \<open>\<open>probe[len(probe)-1] ^= 0xFF\<close> on a copy of the salt.\<close>

definition flipLast :: "bytes \<Rightarrow> bytes" where
  "flipLast salt = salt[length salt - 1 := (salt ! (length salt - 1)) XOR 0xFF]"

definition probeRequest :: "string \<Rightarrow> bytes \<Rightarrow> bytes \<Rightarrow> UserVerification \<Rightarrow> DeriveRequest" where
  "probeRequest rpID credentialID salt uv =
     \<lparr>dq_RPID = rpID, dq_CredentialIDs = [credentialID], dq_Salt = flipLast salt, dq_UV = uv,
      dq_Timeout = 0\<rparr>"

definition verifyDerivationDependsOnSalt ::
  "'d Authenticator \<Rightarrow> string \<Rightarrow> bytes \<Rightarrow> bytes \<Rightarrow> bytes \<Rightarrow> UserVerification \<Rightarrow> bool
     \<Rightarrow> (goerror, unit, 'd world) effect" where
  "verifyDerivationDependsOnSalt auth rpID credentialID salt realOutput uv observedUV =
     (if length salt \<noteq> SaltLen then throwE (Sentinel ErrSaltLength)
      else if length realOutput = 0 then throwE (Sentinel ErrNoPRF)
      else
        bindE (wrapE (wrap ''touchvault: proving the derivation depends on the salt: %w'')
                 (callDerive auth (probeRequest rpID credentialID salt uv))) (\<lambda>got.
          if \<not> dr_UserPresent got then throwE (Sentinel ErrNotPresent)
          else if length (dr_Secret got) = 0 then throwE (Sentinel ErrNoPRF)
          else if dr_UserVerified got \<noteq> observedUV then
            throwE (wrap ''%w: the entropy-check derivation reported user_verified=%v, the enrollment derivation reported %v''
                      (Sentinel ErrUserVerificationMismatch))
          else if dr_Secret got = realOutput then throwE (Sentinel ErrDerivationIgnoresSalt)
          else returnE ()))"

section \<open>The probe\<close>

lemma length_flipLast [simp]: "length (flipLast salt) = length salt"
  by (simp add: flipLast_def)

lemma xor_FF_neq: "(x :: byte) XOR 0xFF \<noteq> x"
proof
  assume "x XOR 0xFF = x"
  then have "(x XOR 0xFF) XOR x = 0" by simp
  then have "(0xFF :: byte) = 0" by (simp add: xor.commute xor.left_commute flip: xor.assoc)
  then show False by simp
qed

lemma flipLast_neq: "salt \<noteq> [] \<Longrightarrow> flipLast salt \<noteq> salt"
  by (metis One_nat_def diff_less flipLast_def length_greater_0_conv lessI nth_list_update_eq xor_FF_neq)

text \<open>Only the last byte changes: every proper prefix of the probe is the prefix of the salt.\<close>

lemma take_flipLast: "n < length salt \<Longrightarrow> take n (flipLast salt) = take n salt"
  by (simp add: flipLast_def take_update_cancel)

section \<open>What passing the gate means\<close>

lemma gate_ok_iff:
  "verifyDerivationDependsOnSalt auth rpID c salt out uv obs w = (Inr (), w') \<longleftrightarrow>
     length salt = SaltLen \<and> out \<noteq> [] \<and>
     (\<exists>got. callDerive auth (probeRequest rpID c salt uv) w = (Inr got, w')
        \<and> dr_UserPresent got \<and> dr_Secret got \<noteq> [] \<and> dr_UserVerified got = obs
        \<and> dr_Secret got \<noteq> out)"
  by (auto simp: verifyDerivationDependsOnSalt_def results split: if_splits)

lemma gate_world:
  assumes "verifyDerivationDependsOnSalt auth rpID c salt out uv obs w = (r, w')"
  shows "w_draws w' = w_draws w \<and> w_entropy w' = w_entropy w \<and>
    (w_gestures w' = w_gestures w \<or>
     w_gestures w' = w_gestures w @ [GDerive (probeRequest rpID c salt uv)])"
  using assms
  by (cases r)
     (auto simp: verifyDerivationDependsOnSalt_def results split: if_splits dest!: callDerive_world)

lemma gate_truncated:
  assumes "derives_by (\<lambda>c s u. g c (take n s) u) auth" "answers_from_allow_list auth" "n < SaltLen"
    and "out = g c (take n salt) obs"
  shows "fst (verifyDerivationDependsOnSalt auth rpID c salt out uv obs w) \<noteq> Inr ()"
proof
  assume "fst (verifyDerivationDependsOnSalt auth rpID c salt out uv obs w) = Inr ()"
  then obtain w' where
    "verifyDerivationDependsOnSalt auth rpID c salt out uv obs w = (Inr (), w')"
    by (metis prod.collapse)
  then obtain got where len: "length salt = SaltLen"
    and call: "callDerive auth (probeRequest rpID c salt uv) w = (Inr got, w')"
    and uv: "dr_UserVerified got = obs" and differs: "dr_Secret got \<noteq> out"
    by (auto simp: gate_ok_iff)
  have "dr_Secret got = g c (take n (flipLast salt)) obs"
    using derives_singleton [OF assms(2,1) call, of c] uv by (simp add: probeRequest_def)
  with differs assms(3,4) len show False by (simp add: take_flipLast)
qed

text \<open>A device that reads only a proper prefix of the salt never passes the gate, whatever the
  prefix length; and when it answers the probe with a touch, an output and the same user
  verification, the error says that the derivation ignores the salt.\<close>

lemma gate_catches_truncation:
  assumes "derives_by (\<lambda>c s u. g c (take n s) u) auth" "answers_from_allow_list auth" "n < 32"
    and "length salt = 32" and "out = g c (take n salt) obs" "out \<noteq> []"
  shows "fst (verifyDerivationDependsOnSalt auth rpID c salt out uv obs w) \<noteq> Inr () \<and>
    (\<forall>got w'. callDerive auth (probeRequest rpID c salt uv) w = (Inr got, w') \<longrightarrow>
       dr_UserPresent got \<longrightarrow> dr_UserVerified got = obs \<longrightarrow>
       verifyDerivationDependsOnSalt auth rpID c salt out uv obs w =
         (failWith ErrDerivationIgnoresSalt, w'))"
proof (intro conjI allI impI)
  show "fst (verifyDerivationDependsOnSalt auth rpID c salt out uv obs w) \<noteq> Inr ()"
    using assms(1-3,5) by (intro gate_truncated) (simp_all add: SaltLen_def)
next
  fix got w'
  assume call: "callDerive auth (probeRequest rpID c salt uv) w = (Inr got, w')"
    and got: "dr_UserPresent got" "dr_UserVerified got = obs"
  have "dr_Secret got = out"
    using derives_singleton [OF assms(2,1) call, of c] got assms(3-5)
    by (simp add: probeRequest_def take_flipLast)
  with call got assms(4,6)
  show "verifyDerivationDependsOnSalt auth rpID c salt out uv obs w =
      (failWith ErrDerivationIgnoresSalt, w')"
    by (simp add: verifyDerivationDependsOnSalt_def SaltLen_def wrapE_def bindE_def)
qed

text \<open>An honest device passes. When the device answers the probe with a touch and the same user
  verification, and its outputs over the two salts differ and are not empty, the gate returns
  success and has asked for exactly one gesture: a derivation over the salt with its last byte
  flipped, which differs from the salt and agrees with it on every other byte.\<close>

lemma gate_passes_honest_device:
  assumes "derives_by prf auth" "answers_from_allow_list auth"
    and "callDerive auth (probeRequest rpID c salt uv) w = (Inr got, w')"
    and "dr_UserPresent got" "dr_UserVerified got = obs"
    and "length salt = 32" "prf c (flipLast salt) obs \<noteq> prf c salt obs"
    and "prf c (flipLast salt) obs \<noteq> []" "prf c salt obs \<noteq> []"
  shows "verifyDerivationDependsOnSalt auth rpID c salt (prf c salt obs) uv obs w = (Inr (), w')
    \<and> w_gestures w' = w_gestures w @ [GDerive (probeRequest rpID c salt uv)]
    \<and> dq_Salt (probeRequest rpID c salt uv) \<noteq> salt
    \<and> butlast (dq_Salt (probeRequest rpID c salt uv)) = butlast salt"
proof -
  have "dr_Secret got = prf c (flipLast salt) obs"
    using derives_singleton [OF assms(2,1,3), of c] assms(5) by (simp add: probeRequest_def)
  with assms have "verifyDerivationDependsOnSalt auth rpID c salt (prf c salt obs) uv obs w = (Inr (), w')"
    by (auto simp: gate_ok_iff SaltLen_def)
  moreover have "flipLast salt \<noteq> salt" using flipLast_neq [of salt] assms(6) by fastforce
  moreover have "butlast (flipLast salt) = butlast salt"
    using take_flipLast [of 31 salt] assms(6) by (simp add: butlast_conv_take)
  ultimately show ?thesis
    using callDerive_world [OF assms(3)] by (simp add: probeRequest_def)
qed

end
