(* ===== verification/Attestation.thy ===== *)
theory Attestation
  imports Crypto
begin

text \<open>
  \<open>attestation.go\<close>: the proof, at enrollment, that a credential lives on genuine hardware. X.509
  parsing and chain building, ECDSA verification, PEM decoding and the two embedded PEM files are
  fields of \<open>x509\<close>, which extends \<open>prims\<close>; the policy around them, the choice of trust anchors, the
  order of the checks and the AAGUID comparison are the code's. A certificate pool is the list of
  its certificates.
\<close>

section \<open>Certificates and the library around them\<close>

datatype publicKey = ECDSAKey bytes | OtherKey

record certificate =
  c_Raw :: bytes
  c_PublicKey :: publicKey
  c_Extensions :: "(nat list \<times> bytes) list"
  c_SubjectCN :: string
  c_IssuerCN :: string
  c_NotAfter :: "int \<times> nat \<times> nat"

type_synonym certPool = "certificate list"

record pemBlock =
  pb_Type :: string
  pb_Headers :: "(string \<times> string) list"
  pb_Bytes :: bytes

text \<open>
  \<open>certVerify leaf roots intermediates\<close> is \<open>leaf.Verify\<close> with \<open>KeyUsages\<close> set to any;
  \<open>ecdsaVerifyASN1 pub digest sig\<close>; \<open>pemDecode\<close> returns the first block and the rest, or nothing.
\<close>

record x509 = prims +
  parseCertificate :: "bytes \<Rightarrow> certificate result"
  certVerify :: "certificate \<Rightarrow> certPool \<Rightarrow> certPool \<Rightarrow> unit result"
  ecdsaVerifyASN1 :: "bytes \<Rightarrow> bytes \<Rightarrow> bytes \<Rightarrow> bool"
  pemDecode :: "bytes \<Rightarrow> (pemBlock \<times> bytes) option"
  trustedAttestationRootsPEM :: bytes
  attestationIntermediatesPEM :: bytes

text \<open>Documented behaviour: a chain ends at one of the given roots, so no root means no chain.\<close>

definition empty_pool_trusts_nobody :: "'z x509_scheme \<Rightarrow> bool" where
  "empty_pool_trusts_nobody x \<longleftrightarrow> (\<forall>leaf inter. \<not> is_ok (certVerify x leaf [] inter))"

text \<open>Documented behaviour: \<open>pem.Decode\<close> returns the remainder behind the block it found.\<close>

definition pem_shrinks :: "'z x509_scheme \<Rightarrow> bool" where
  "pem_shrinks x \<longleftrightarrow> (\<forall>b block rest. pemDecode x b = Some (block, rest) \<longrightarrow> length rest < length b)"

section \<open>Trust anchors and intermediates\<close>

definition coseAlgES256 :: int where
  "coseAlgES256 = -7"

definition packedFormat :: string where
  "packedFormat = ''packed''"

definition oidFidoGenCeAAGUID :: "nat list" where
  "oidFidoGenCeAAGUID = [1, 3, 6, 1, 4, 1, 45724, 1, 1, 4]"

text \<open>
  The loop of \<open>parsePEMCertificates\<close>, with fuel; \<open>None\<close> is running out of it. Each round decodes one
  block, so one unit per byte of input and one for the last round are enough.
\<close>

fun parsePEMLoop :: "'z x509_scheme \<Rightarrow> nat \<Rightarrow> bytes \<Rightarrow> certificate list option" where
  "parsePEMLoop x 0 rest = None"
| "parsePEMLoop x (Suc fuel) rest =
     (case pemDecode x rest of
        None \<Rightarrow> Some []
      | Some (block, rest') \<Rightarrow>
          if pb_Type block \<noteq> ''CERTIFICATE'' then parsePEMLoop x fuel rest'
          else case parseCertificate x (pb_Bytes block) of
                 Inr c \<Rightarrow> map_option (\<lambda>cs. c # cs) (parsePEMLoop x fuel rest')
               | Inl e \<Rightarrow> parsePEMLoop x fuel rest')"

definition parsePEMCertificates :: "'z x509_scheme \<Rightarrow> bytes \<Rightarrow> certificate list" where
  "parsePEMCertificates x pemBytes =
     (case parsePEMLoop x (Suc (length pemBytes)) pemBytes of Some cs \<Rightarrow> cs | None \<Rightarrow> [])"

text \<open>\<open>pool.AppendCertsFromPEM\<close> also skips blocks that carry headers.\<close>

fun appendCertsFromPEM :: "'z x509_scheme \<Rightarrow> nat \<Rightarrow> certPool \<Rightarrow> bytes \<Rightarrow> certPool" where
  "appendCertsFromPEM x 0 pool rest = pool"
| "appendCertsFromPEM x (Suc fuel) pool rest =
     (case pemDecode x rest of
        None \<Rightarrow> pool
      | Some (block, rest') \<Rightarrow>
          if pb_Type block \<noteq> ''CERTIFICATE'' \<or> pb_Headers block \<noteq> [] then appendCertsFromPEM x fuel pool rest'
          else case parseCertificate x (pb_Bytes block) of
                 Inr c \<Rightarrow> appendCertsFromPEM x fuel (pool @ [c]) rest'
               | Inl e \<Rightarrow> appendCertsFromPEM x fuel pool rest')"

text \<open>The two singletons are computed once from embedded data; their value is a constant (\<open>Anchors\<close> shows that
  sharing them keeps it so).\<close>

definition trustedFIDORoots :: "'z x509_scheme \<Rightarrow> certPool" where
  "trustedFIDORoots x =
     appendCertsFromPEM x (Suc (length (trustedAttestationRootsPEM x))) [] (trustedAttestationRootsPEM x)"

definition fidoIntermediates :: "'z x509_scheme \<Rightarrow> certificate list" where
  "fidoIntermediates x = parsePEMCertificates x (attestationIntermediatesPEM x)"

text \<open>\<open>Clone\<close> copies the pool; as a value the copy is the pool.\<close>

definition BundledRoots :: "'z x509_scheme \<Rightarrow> certPool" where
  "BundledRoots x = trustedFIDORoots x"

section \<open>The AAGUID extension\<close>

text \<open>
  \<open>asn1.Unmarshal\<close> into a byte slice: one primitive OCTET STRING with a definite, minimal length;
  bytes behind it are returned as the rest, which the code ignores. \<open>asn1LongLen\<close> reads the bytes of
  a long-form length.
\<close>

fun asn1LongLen :: "nat \<Rightarrow> nat \<Rightarrow> bytes \<Rightarrow> (nat \<times> bytes) option" where
  "asn1LongLen 0 acc bs = Some (acc, bs)"
| "asn1LongLen (Suc n) acc [] = None"
| "asn1LongLen (Suc n) acc (b # bs) =
     (if 8388608 \<le> acc then None
      else let acc' = 256 * acc + unat b
           in if acc' = 0 then None else asn1LongLen n acc' bs)"

fun asn1Length :: "bytes \<Rightarrow> (nat \<times> bytes) option" where
  "asn1Length [] = None"
| "asn1Length (b # bs) =
     (if unat b < 128 then Some (unat b, bs)
      else if unat b = 128 then None
      else case asn1LongLen (unat b - 128) 0 bs of
             None \<Rightarrow> None
           | Some (n, rest) \<Rightarrow> if n < 128 then None else Some (n, rest))"

fun asn1OctetString :: "bytes \<Rightarrow> bytes result" where
  "asn1OctetString [] = Inl (errorsNew ''asn1: syntax error: sequence truncated'')"
| "asn1OctetString (tag # bs) =
     (if tag \<noteq> 4 then Inl (errorsNew ''asn1: structure error: tags don't match'')
      else case asn1Length bs of
             None \<Rightarrow> Inl (errorsNew ''asn1: syntax error: length'')
           | Some (n, rest) \<Rightarrow>
               if length rest < n then Inl (errorsNew ''asn1: syntax error: data truncated'')
               else Inr (take n rest))"

definition aaguidStart :: nat where
  "aaguidStart = 37"

definition aaguidEnd :: nat where
  "aaguidEnd = 53"

text \<open>\<open>e.Id.Equal\<close> compares the identifiers; the loop stops at the first match.\<close>

fun findExtension :: "(nat list \<times> bytes) list \<Rightarrow> nat list \<Rightarrow> bytes option" where
  "findExtension [] oid = None"
| "findExtension ((i, value) # es) oid = (if i = oid then Some value else findExtension es oid)"

definition checkAAGUIDMatches :: "certificate \<Rightarrow> bytes \<Rightarrow> unit result" where
  "checkAAGUIDMatches leaf authData =
     (case findExtension (c_Extensions leaf) oidFidoGenCeAAGUID of
        None \<Rightarrow> Inr ()
      | Some ext \<Rightarrow>
          bindR (wrapErr (\<lambda>e. wrap ''%w: malformed AAGUID extension: %v'' (Sentinel ErrUntrustedAuthenticator))
                   (asn1OctetString ext)) (\<lambda>certAAGUID.
            if length authData < aaguidEnd then
              Inl (wrap ''%w: authenticator data too short to carry an AAGUID'' (Sentinel ErrUntrustedAuthenticator))
            else if certAAGUID \<noteq> take (aaguidEnd - aaguidStart) (drop aaguidStart authData) then
              Inl (wrap ''%w: certificate AAGUID does not match the credential'' (Sentinel ErrUntrustedAuthenticator))
            else Inr ()))"

section \<open>Genuine hardware\<close>

fun parseIntermediates :: "'z x509_scheme \<Rightarrow> bytes list \<Rightarrow> certificate list result" where
  "parseIntermediates x [] = Inr []"
| "parseIntermediates x (der # ders) =
     bindR (wrapErr (wrap ''touchvault: parsing attestation intermediate: %w'') (parseCertificate x der)) (\<lambda>c.
     bindR (parseIntermediates x ders) (\<lambda>cs. Inr (c # cs)))"

text \<open>The end of \<open>verifyGenuineHardware\<close>: the key type, the signature, then the AAGUID.\<close>

definition checkSignature :: "'z x509_scheme \<Rightarrow> certificate \<Rightarrow> EnrollResult \<Rightarrow> unit result" where
  "checkSignature x leaf r =
     (case c_PublicKey leaf of
        OtherKey \<Rightarrow> Inl (wrap ''%w: attestation certificate is not ECDSA'' (Sentinel ErrAttestationSignature))
      | ECDSAKey pub \<Rightarrow>
          let digest = sha256Sum x (er_AuthenticatorData r @ er_ClientDataHash r)
          in if \<not> ecdsaVerifyASN1 x pub digest (er_AttestationSignature r)
             then failWith ErrAttestationSignature
             else checkAAGUIDMatches leaf (er_AuthenticatorData r))"

definition verifyGenuineHardware ::
  "'z x509_scheme \<Rightarrow> EnrollResult \<Rightarrow> certPool option \<Rightarrow> unit result" where
  "verifyGenuineHardware x r rootsOpt =
     (let roots = (case rootsOpt of None \<Rightarrow> trustedFIDORoots x | Some pool \<Rightarrow> pool) in
      if er_AttestationFormat r \<noteq> packedFormat then
        Inl (wrap ''%w: %q'' (Sentinel ErrUnsupportedAttestationFormat))
      else case er_AttestationCerts r of
        [] \<Rightarrow> failWith ErrNoAttestation
      | leafDER # ders \<Rightarrow>
          if er_AttestationAlg r \<noteq> coseAlgES256 then
            Inl (wrap ''%w: unsupported attestation algorithm %d'' (Sentinel ErrAttestationSignature))
          else
            bindR (wrapErr (wrap ''touchvault: parsing attestation certificate: %w'')
                     (parseCertificate x leafDER)) (\<lambda>leaf.
            bindR (parseIntermediates x ders) (\<lambda>presented.
            bindR (wrapErr (\<lambda>e. wrap ''%w: %v %s'' (Sentinel ErrUntrustedAuthenticator))
                     (certVerify x leaf roots (fidoIntermediates x @ presented))) (\<lambda>_.
            checkSignature x leaf r))))"

section \<open>Facts\<close>

text \<open>The bundled intermediates parse to an end under \<open>pem_shrinks\<close>: the fuel is enough.\<close>

lemma parsePEMLoop_enough:
  "pem_shrinks x \<Longrightarrow> length rest < fuel \<Longrightarrow> \<exists>cs. parsePEMLoop x fuel rest = Some cs"
proof (induction fuel arbitrary: rest)
  case 0
  then show ?case by simp
next
  case (Suc fuel)
  show ?case
  proof (cases "pemDecode x rest")
    case None
    then show ?thesis by simp
  next
    case (Some br)
    obtain block rest' where br: "br = (block, rest')" by (cases br)
    with Some Suc.prems have "length rest' < fuel"
      by (fastforce simp: pem_shrinks_def)
    then obtain cs where "parsePEMLoop x fuel rest' = Some cs"
      using Suc.IH [OF Suc.prems(1)] by blast
    then show ?thesis by (auto simp: Some br split: sum.splits)
  qed
qed

lemma asn1LongLen_shrinks: "asn1LongLen n acc bs = Some (k, rest) \<Longrightarrow> length rest \<le> length bs"
  by (induction n acc bs rule: asn1LongLen.induct) (auto simp: Let_def split: if_splits)

text \<open>The definite short form, which every AAGUID of sixteen bytes uses.\<close>

lemma asn1OctetString_short:
  "length body < 128 \<Longrightarrow> asn1OctetString (4 # word_of_nat (length body) # body @ rest) = Inr body"
  by (simp add: unat_of_nat)

lemma parseIntermediates_ok:
  "parseIntermediates x ders = Inr cs \<longleftrightarrow> list_all2 (\<lambda>der c. parseCertificate x der = Inr c) ders cs"
  by (induction ders arbitrary: cs) (auto simp: results list_all2_Cons1)

lemma checkAAGUID_ok_iff:
  "checkAAGUIDMatches leaf authData = Inr () \<longleftrightarrow>
     (\<forall>ext. findExtension (c_Extensions leaf) oidFidoGenCeAAGUID = Some ext \<longrightarrow>
        53 \<le> length authData \<and> asn1OctetString ext = Inr (take 16 (drop 37 authData)))"
  by (auto simp: checkAAGUIDMatches_def results aaguidEnd_def aaguidStart_def split: option.splits if_splits)

lemma checkSignature_ok_iff:
  "checkSignature x leaf r = Inr () \<longleftrightarrow>
     (\<exists>pub. c_PublicKey leaf = ECDSAKey pub
        \<and> ecdsaVerifyASN1 x pub (sha256Sum x (er_AuthenticatorData r @ er_ClientDataHash r))
            (er_AttestationSignature r)
        \<and> checkAAGUIDMatches leaf (er_AuthenticatorData r) = Inr ())"
  by (auto simp: checkSignature_def Let_def split: publicKey.splits if_splits)

text \<open>The trust anchors a value of \<open>Options.Roots\<close> stands for.\<close>

definition anchors :: "'z x509_scheme \<Rightarrow> certPool option \<Rightarrow> certPool" where
  "anchors x roots = (case roots of None \<Rightarrow> trustedFIDORoots x | Some pool \<Rightarrow> pool)"

definition genuine :: "'z x509_scheme \<Rightarrow> EnrollResult \<Rightarrow> certPool option \<Rightarrow> bool" where
  "genuine x r roots \<longleftrightarrow>
     er_AttestationFormat r = ''packed'' \<and> er_AttestationAlg r = -7 \<and>
     (\<exists>leafDER ders leaf presented pub.
        er_AttestationCerts r = leafDER # ders
        \<and> parseCertificate x leafDER = Inr leaf
        \<and> list_all2 (\<lambda>der c. parseCertificate x der = Inr c) ders presented
        \<and> certVerify x leaf (anchors x roots) (fidoIntermediates x @ presented) = Inr ()
        \<and> c_PublicKey leaf = ECDSAKey pub
        \<and> ecdsaVerifyASN1 x pub (sha256Sum x (er_AuthenticatorData r @ er_ClientDataHash r))
            (er_AttestationSignature r)
        \<and> (\<forall>ext. findExtension (c_Extensions leaf) oidFidoGenCeAAGUID = Some ext \<longrightarrow>
             53 \<le> length (er_AuthenticatorData r)
             \<and> asn1OctetString ext = Inr (take 16 (drop 37 (er_AuthenticatorData r)))))"

lemma verifyGenuineHardware_ok: "verifyGenuineHardware x r roots = Inr () \<longleftrightarrow> genuine x r roots"
proof (cases "er_AttestationCerts r")
  case Nil
  then show ?thesis by (auto simp: verifyGenuineHardware_def genuine_def Let_def)
next
  case (Cons leafDER ders)
  then show ?thesis
    by (auto simp: verifyGenuineHardware_def genuine_def anchors_def Let_def results packedFormat_def
        coseAlgES256_def checkSignature_ok_iff checkAAGUID_ok_iff parseIntermediates_ok)
qed

lemma verifyGenuineHardware_empty_pool:
  "empty_pool_trusts_nobody x \<Longrightarrow> \<not> is_ok (verifyGenuineHardware x r (Some []))"
  by (auto simp: is_ok_iff verifyGenuineHardware_ok genuine_def anchors_def empty_pool_trusts_nobody_def)

end
