(* ===== verification/Vault.thy ===== *)
theory Vault
  imports Entropy Attestation
begin

text \<open>
  \<open>vault.go\<close>: the lifecycle. Creating a vault, opening and unlocking a sealed one, and the methods of
  an unlocked session. A method of \<open>session\<close> is an effect over the session and the world, so a change
  of the document may stand anywhere in its body, as in the code; that a failing method changes
  nothing is a theorem. A method is one step here; \<open>SessionCalls\<close> takes it apart.
\<close>

section \<open>Options\<close>

definition DefaultLabel :: string where
  "DefaultLabel = ''primary''"

definition userIDLen :: nat where
  "userIDLen = 16"

record Options =
  o_RPID :: string
  o_RPName :: string
  o_Roots :: "certPool option"
  o_Label :: string

definition Options_validate :: "Options \<Rightarrow> unit result" where
  "Options_validate opts =
     (if o_RPID opts = [] then Inl (errorsNew ''touchvault: Options.RPID is required'') else Inr ())"

definition rpName :: "Options \<Rightarrow> string" where
  "rpName opts = (if o_RPName opts = [] then o_RPID opts else o_RPName opts)"

definition optsLabel :: "Options \<Rightarrow> string" where
  "optsLabel opts = (if o_Label opts = [] then DefaultLabel else o_Label opts)"

definition firstSlot :: int where
  "firstSlot = 0"

section \<open>Enrolling a credential\<close>

definition enrollRequest :: "sealedVault \<Rightarrow> Options \<Rightarrow> UserVerification \<Rightarrow> bytes \<Rightarrow> EnrollRequest" where
  "enrollRequest doc opts uv userID =
     \<lparr>eq_RPID = v_RPID doc, eq_RPName = rpName opts, eq_UserID = userID, eq_UserName = v_RPID doc,
      eq_UV = uv, eq_Timeout = 0\<rparr>"

definition firstDerive :: "sealedVault \<Rightarrow> UserVerification \<Rightarrow> bytes \<Rightarrow> DeriveRequest" where
  "firstDerive doc uv credentialID =
     \<lparr>dq_RPID = v_RPID doc, dq_CredentialIDs = [credentialID], dq_Salt = v_Salt doc, dq_UV = uv,
      dq_Timeout = 0\<rparr>"

definition enrollAndDerive ::
  "'z x509_scheme \<Rightarrow> 'd Authenticator \<Rightarrow> sealedVault \<Rightarrow> Options \<Rightarrow> UserVerification
     \<Rightarrow> (goerror, EnrollResult \<times> DeriveResult, 'd world) effect" where
  "enrollAndDerive x auth doc opts uv =
     bindE (randomBytes userIDLen) (\<lambda>userID.
     bindE (callEnroll auth (enrollRequest doc opts uv userID)) (\<lambda>cred.
     if er_ResidentKey cred then throwE (Sentinel ErrResidentKey)
     else if length (er_CredentialID cred) = 0 then throwE (Sentinel ErrNoCredentialID)
     else
     bindE (liftE (verifyGenuineHardware x cred (o_Roots opts))) (\<lambda>_.
     bindE (callDerive auth (firstDerive doc uv (er_CredentialID cred))) (\<lambda>derived.
     if \<not> dr_UserPresent derived then throwE (Sentinel ErrNotPresent)
     else if length (dr_Secret derived) = 0 then throwE (Sentinel ErrNoPRF)
     else returnE (cred, derived)))))"

section \<open>Create, Open, Unlock\<close>

record session =
  ses_doc :: sealedVault
  ses_opts :: Options
  ses_dataKey :: "bytes option"

record vault =
  vt_doc :: sealedVault
  vt_opts :: Options

definition Create ::
  "'z x509_scheme \<Rightarrow> 'd Authenticator \<Rightarrow> Options \<Rightarrow> (goerror, session, 'd world) effect" where
  "Create x auth opts =
     bindE (liftE (Options_validate opts)) (\<lambda>_.
     bindE newSalt (\<lambda>salt.
     let doc = \<lparr>v_Format = formatVersion, v_RPID = o_RPID opts, v_Salt = salt,
                v_UserVerified = False, v_EntropyVerified = False, v_Keys = [], v_Secrets = []\<rparr> in
     bindE (enrollAndDerive x auth doc opts UVDiscouraged) (\<lambda>(cred, derived).
     let doc = doc\<lparr>v_UserVerified := dr_UserVerified derived\<rparr> in
     bindE (verifyDerivationDependsOnSalt auth (v_RPID doc) (er_CredentialID cred) salt
              (dr_Secret derived) UVDiscouraged (dr_UserVerified derived)) (\<lambda>_.
     let doc = doc\<lparr>v_EntropyVerified := True\<rparr> in
     bindE newDataKey (\<lambda>dataKey.
     bindE (wrapDataKey x doc dataKey (er_CredentialID cred) (dr_Secret derived) firstSlot
              (optsLabel opts)) (\<lambda>entry.
     let doc = doc\<lparr>v_Keys := [entry]\<rparr> in
     returnE \<lparr>ses_doc = doc, ses_opts = opts, ses_dataKey = Some dataKey\<rparr>))))))"

text \<open>\<open>OpenWith\<close> behind \<open>parseSealed\<close>: what it does with the parsed document.\<close>

definition openDoc :: "sealedVault \<Rightarrow> Options \<Rightarrow> vault result" where
  "openDoc doc opts =
     (if o_RPID opts \<noteq> [] \<and> o_RPID opts \<noteq> v_RPID doc then
        Inl (errorsNew ''touchvault: Options.RPID is %q but the sealed vault was created under %q; its enrolled keys would not answer for a different relying party'')
      else Inr \<lparr>vt_doc = doc, vt_opts = opts\<lparr>o_RPID := v_RPID doc\<rparr>\<rparr>)"

definition vault_Names :: "vault \<Rightarrow> string list" where
  "vault_Names v = names (vt_doc v)"

definition vault_Slots :: "vault \<Rightarrow> SlotInfo list" where
  "vault_Slots v = slots (vt_doc v)"

definition unlockRequest :: "sealedVault \<Rightarrow> DeriveRequest" where
  "unlockRequest doc =
     \<lparr>dq_RPID = v_RPID doc, dq_CredentialIDs = credentialIDs doc, dq_Salt = v_Salt doc,
      dq_UV = uvRequirement doc, dq_Timeout = 0\<rparr>"

text \<open>
  \<open>gcm.Open(nil, ...)\<close> returns a nil slice when the plaintext is empty, and a session whose data key
  is nil is a locked one.
\<close>

definition nilIfEmpty :: "bytes \<Rightarrow> bytes option" where
  "nilIfEmpty b = (if b = [] then None else Some b)"

definition unlock ::
  "'z x509_scheme \<Rightarrow> vault \<Rightarrow> 'd Authenticator \<Rightarrow> (goerror, session, 'd world) effect" where
  "unlock x v auth =
     (if length (v_Keys (vt_doc v)) = 0 then throwE (Sentinel ErrNoKeysEnrolled)
      else if \<not> v_EntropyVerified (vt_doc v) then throwE (Sentinel ErrNotEntropyVerified)
      else
      bindE (callDerive auth (unlockRequest (vt_doc v))) (\<lambda>derived.
      if \<not> dr_UserPresent derived then throwE (Sentinel ErrNotPresent)
      else if dr_UserVerified derived \<noteq> v_UserVerified (vt_doc v) then
        throwE (wrap ''%w: enrolled with user_verified=%v, this assertion reported %v. Setting or clearing the key's PIN changes the derived secret''
                  (Sentinel ErrUserVerificationMismatch))
      else case findKey (vt_doc v) (dr_CredentialID derived) of
        None \<Rightarrow> throwE (Sentinel ErrUnknownCredential)
      | Some entry \<Rightarrow>
          bindE (liftE (unwrapDataKey x (vt_doc v) entry (dr_Secret derived))) (\<lambda>dataKey.
          returnE \<lparr>ses_doc = vt_doc v, ses_opts = vt_opts v, ses_dataKey = nilIfEmpty dataKey\<rparr>)))"

definition Unlock where
  "Unlock = unlock"

definition Administer where
  "Administer = unlock"

section \<open>The methods of a session\<close>

type_synonym ('a, 'd) sessionM = "(goerror, 'a, session \<times> 'd world) effect"

text \<open>The pieces a method body is made of: the locked check, the document, a call that touches only
  the world, and an assignment to the document.\<close>

definition keyM :: "(bytes, 'd) sessionM" where
  "keyM = (\<lambda>(s, w). (case ses_dataKey s of None \<Rightarrow> failWith ErrLocked | Some dk \<Rightarrow> Inr dk, (s, w)))"

definition docM :: "(sealedVault, 'd) sessionM" where
  "docM = (\<lambda>(s, w). (Inr (ses_doc s), (s, w)))"

definition optsM :: "(Options, 'd) sessionM" where
  "optsM = (\<lambda>(s, w). (Inr (ses_opts s), (s, w)))"

definition onWorld :: "(goerror, 'a, 'd world) effect \<Rightarrow> ('a, 'd) sessionM" where
  "onWorld m = (\<lambda>(s, w). case m w of (r, w') \<Rightarrow> (r, (s, w')))"

definition setDocM :: "sealedVault \<Rightarrow> (unit, 'd) sessionM" where
  "setDocM doc = (\<lambda>(s, w). (Inr (), (s\<lparr>ses_doc := doc\<rparr>, w)))"

definition session_Names :: "session \<Rightarrow> string list" where
  "session_Names s = names (ses_doc s)"

definition session_Slots :: "session \<Rightarrow> SlotInfo list" where
  "session_Slots s = slots (ses_doc s)"

text \<open>\<open>Lock\<close>: the second component is what is left in the memory the key occupied.\<close>

definition Lock :: "session \<Rightarrow> session \<times> bytes option" where
  "Lock s = (s\<lparr>ses_dataKey := None\<rparr>, map_option zero (ses_dataKey s))"

text \<open>
  The stream \<open>Open\<close> returns. \<open>rd_buf\<close> is the plaintext buffer, which the \<open>bytes.Reader\<close> reads from at
  \<open>rd_pos\<close> until \<open>Close\<close> resets it; \<open>rd_once\<close> is the \<open>sync.Once\<close>.
\<close>

record secretReader =
  rd_buf :: bytes
  rd_src :: bool
  rd_pos :: nat
  rd_once :: bool

definition Open :: "'z x509_scheme \<Rightarrow> string \<Rightarrow> (secretReader, 'd) sessionM" where
  "Open x name =
     bindE keyM (\<lambda>dataKey.
     bindE docM (\<lambda>doc.
     case findSecret doc name of
       None \<Rightarrow> throwE (wrap ''%w: %q'' (Sentinel ErrNoSuchSecret))
     | Some entry \<Rightarrow>
         bindE (liftE (openSecret x doc dataKey entry)) (\<lambda>plaintext.
         returnE \<lparr>rd_buf = plaintext, rd_src = True, rd_pos = 0, rd_once = False\<rparr>)))"

text \<open>\<open>io.ReadAll\<close> on the stream, and \<open>Close\<close>.\<close>

definition readAll :: "secretReader \<Rightarrow> bytes \<times> secretReader" where
  "readAll r = (if rd_src r then (drop (rd_pos r) (rd_buf r), r\<lparr>rd_pos := length (rd_buf r)\<rparr>)
                else ([], r))"

definition Close :: "secretReader \<Rightarrow> secretReader" where
  "Close r = (if rd_once r then r
              else r\<lparr>rd_buf := zero (rd_buf r), rd_src := False, rd_pos := 0, rd_once := True\<rparr>)"

text \<open>\<open>ReadString\<close> copies the value into a string before the deferred calls wipe the buffers.\<close>

definition ReadString :: "'z x509_scheme \<Rightarrow> string \<Rightarrow> (string, 'd) sessionM" where
  "ReadString x name =
     bindE (Open x name) (\<lambda>r. returnE (string_of_bytes (fst (readAll r))))"

text \<open>A reader passed to \<open>Put\<close>: \<open>None\<close> is nil, otherwise what \<open>io.ReadAll\<close> returns for it.\<close>

type_synonym reader = "bytes result option"

text \<open>The loop of \<open>Put\<close> replaces the first entry of that name, or appends.\<close>

fun putSecretIn :: "sealedSecret list \<Rightarrow> string \<Rightarrow> sealedSecret \<Rightarrow> sealedSecret list" where
  "putSecretIn [] name entry = [entry]"
| "putSecretIn (s # ss) name entry =
     (if s_Name s = name then entry # ss else s # putSecretIn ss name entry)"

definition Put :: "'z x509_scheme \<Rightarrow> string \<Rightarrow> reader \<Rightarrow> (unit, 'd) sessionM" where
  "Put x name secret =
     bindE keyM (\<lambda>dataKey.
     if name = [] then throwE (errorsNew ''touchvault: a secret must have a name'')
     else case secret of
       None \<Rightarrow> throwE (errorsNew ''touchvault: a secret must have a value'')
     | Some rd \<Rightarrow>
         bindE (liftE (wrapErr (wrap ''touchvault: reading the secret %q: %w'') rd)) (\<lambda>plaintext.
         bindE docM (\<lambda>doc.
         bindE (onWorld (sealSecret x doc dataKey name plaintext)) (\<lambda>entry.
         setDocM (doc\<lparr>v_Secrets := putSecretIn (v_Secrets doc) name entry\<rparr>)))))"

text \<open>The loop of \<open>Delete\<close>: the list without the first entry of that name, or nothing.\<close>

fun deleteSecretIn :: "sealedSecret list \<Rightarrow> string \<Rightarrow> sealedSecret list option" where
  "deleteSecretIn [] name = None"
| "deleteSecretIn (s # ss) name =
     (if s_Name s = name then Some ss else map_option (\<lambda>ss'. s # ss') (deleteSecretIn ss name))"

definition Delete :: "string \<Rightarrow> (unit, 'd) sessionM" where
  "Delete name =
     bindE keyM (\<lambda>_.
     bindE docM (\<lambda>doc.
     case deleteSecretIn (v_Secrets doc) name of
       Some ss \<Rightarrow> setDocM (doc\<lparr>v_Secrets := ss\<rparr>)
     | None \<Rightarrow> throwE (wrap ''%w: %q'' (Sentinel ErrNoSuchSecret))))"

definition EnrollKey ::
  "'z x509_scheme \<Rightarrow> 'd Authenticator \<Rightarrow> int \<Rightarrow> string \<Rightarrow> (unit, 'd) sessionM" where
  "EnrollKey x auth slot label0 =
     bindE keyM (\<lambda>dataKey.
     bindE docM (\<lambda>doc.
     if slot < 0 then throwE (errorsNew ''touchvault: slot must not be negative, got %d'')
     else if slotOccupied doc slot then throwE (wrap ''%w: slot %d'' (Sentinel ErrSlotOccupied))
     else
     let label = (if label0 = [] then DefaultLabel else label0);
         uv = uvRequirement doc in
     bindE optsM (\<lambda>opts.
     bindE (onWorld (enrollAndDerive x auth doc opts uv)) (\<lambda>(cred, derived).
     if findKey doc (er_CredentialID cred) \<noteq> None then
       throwE (errorsNew ''touchvault: that security key is already enrolled in another slot'')
     else if dr_UserVerified derived \<noteq> v_UserVerified doc then
       throwE (wrap ''%w: this key reported user_verified=%v, the vault was enrolled with %v''
                 (Sentinel ErrUserVerificationMismatch))
     else
     bindE (onWorld (verifyDerivationDependsOnSalt auth (v_RPID doc) (er_CredentialID cred) (v_Salt doc)
              (dr_Secret derived) uv (dr_UserVerified derived))) (\<lambda>_.
     bindE (onWorld (wrapDataKey x doc dataKey (er_CredentialID cred) (dr_Secret derived) slot label))
       (\<lambda>entry.
     setDocM (doc\<lparr>v_Keys := v_Keys doc @ [entry]\<rparr>)))))))"

definition removeKey :: "int \<Rightarrow> (unit, 'd) sessionM" where
  "removeKey slot =
     bindE docM (\<lambda>doc. setDocM (doc\<lparr>v_Keys := filter (\<lambda>k. k_Slot k \<noteq> slot) (v_Keys doc)\<rparr>))"

definition RemoveKey :: "int \<Rightarrow> (unit, 'd) sessionM" where
  "RemoveKey slot =
     bindE keyM (\<lambda>_.
     bindE docM (\<lambda>doc.
     if \<not> slotOccupied doc slot then throwE (wrap ''%w: slot %d'' (Sentinel ErrNoSuchSlot))
     else if length (v_Keys doc) = 1 then throwE (Sentinel ErrLastKey)
     else removeKey slot))"

definition ForceRemoveKey :: "int \<Rightarrow> (unit, 'd) sessionM" where
  "ForceRemoveKey slot =
     bindE keyM (\<lambda>_.
     bindE docM (\<lambda>doc.
     if \<not> slotOccupied doc slot then throwE (wrap ''%w: slot %d'' (Sentinel ErrNoSuchSlot))
     else removeKey slot))"

end
