(* ===== verification/Session.thy ===== *)
theory Session
  imports Vault
begin

text \<open>
  What the methods of a session guarantee. The inversion rules of the pieces come first, then the
  success case of every operation in one equivalence or implication each, then the contract all
  mutating methods share, as a locale that is interpreted on each of them and on the sum of them.
\<close>

section \<open>Inversion of the pieces\<close>

lemma keyM_Inr_iff [results]: "keyM sw = (Inr dk, sw') \<longleftrightarrow> ses_dataKey (fst sw) = Some dk \<and> sw' = sw"
  by (auto simp: keyM_def split: prod.splits option.splits)

lemma keyM_Inl_iff [results]:
  "keyM sw = (Inl e, sw') \<longleftrightarrow> ses_dataKey (fst sw) = None \<and> e = Sentinel ErrLocked \<and> sw' = sw"
  by (auto simp: keyM_def split: prod.splits option.splits)

lemma docM_Inr_iff [results]: "docM sw = (Inr d, sw') \<longleftrightarrow> d = ses_doc (fst sw) \<and> sw' = sw"
  by (auto simp: docM_def split: prod.splits)

lemma docM_Inl_iff [results]: "docM sw = (Inl e, sw') \<longleftrightarrow> False"
  by (auto simp: docM_def split: prod.splits)

lemma optsM_Inr_iff [results]: "optsM sw = (Inr opt, sw') \<longleftrightarrow> opt = ses_opts (fst sw) \<and> sw' = sw"
  by (auto simp: optsM_def split: prod.splits)

lemma optsM_Inl_iff [results]: "optsM sw = (Inl e, sw') \<longleftrightarrow> False"
  by (auto simp: optsM_def split: prod.splits)

lemma onWorld_iff [results]:
  "onWorld m sw = (r, sw') \<longleftrightarrow> m (snd sw) = (r, snd sw') \<and> fst sw' = fst sw"
  by (cases sw') (auto simp: onWorld_def split: prod.splits)

lemma setDocM_Inr_iff [results]:
  "setDocM d sw = (Inr u, sw') \<longleftrightarrow> sw' = ((fst sw)\<lparr>ses_doc := d\<rparr>, snd sw)"
  by (auto simp: setDocM_def split: prod.splits)

lemma setDocM_Inl_iff [results]: "setDocM d sw = (Inl e, sw') \<longleftrightarrow> False"
  by (auto simp: setDocM_def split: prod.splits)

lemma removeKey_Inr_iff [results]:
  "removeKey slot sw = (Inr u, sw') \<longleftrightarrow>
     sw' = ((fst sw)\<lparr>ses_doc := (ses_doc (fst sw))
              \<lparr>v_Keys := filter (\<lambda>k. k_Slot k \<noteq> slot) (v_Keys (ses_doc (fst sw)))\<rparr>\<rparr>, snd sw)"
  by (auto simp: removeKey_def results)

lemma removeKey_Inl_iff [results]: "removeKey slot sw = (Inl e, sw') \<longleftrightarrow> False"
  by (auto simp: removeKey_def results)

section \<open>Success of each operation\<close>

lemma enrollAndDerive_ok:
  assumes "enrollAndDerive x auth doc opts uv w = (Inr (cred, derived), w')"
  shows "\<exists>userID w1 w2. randomBytes 16 w = (Inr userID, w1)
    \<and> callEnroll auth (enrollRequest doc opts uv userID) w1 = (Inr cred, w2)
    \<and> \<not> er_ResidentKey cred \<and> er_CredentialID cred \<noteq> []
    \<and> verifyGenuineHardware x cred (o_Roots opts) = Inr ()
    \<and> callDerive auth (firstDerive doc uv (er_CredentialID cred)) w2 = (Inr derived, w')
    \<and> dr_UserPresent derived \<and> dr_Secret derived \<noteq> []"
  using assms by (auto simp: enrollAndDerive_def results userIDLen_def split: if_splits)

lemma enrollAndDerive_gestures:
  assumes "enrollAndDerive x auth doc opts uv w = (r, w')"
  shows "\<exists>userID gs. w_gestures w' = w_gestures w @ gs
    \<and> (gs = [] \<or> gs = [GEnroll (enrollRequest doc opts uv userID)]
       \<or> (\<exists>cid. gs = [GEnroll (enrollRequest doc opts uv userID), GDerive (firstDerive doc uv cid)]))
    \<and> (is_ok r \<longrightarrow> length gs = 2)"
  using assms
  by (cases r)
     (force simp: enrollAndDerive_def results split: if_splits
       dest!: randomBytes_world callEnroll_world callDerive_world)+

text \<open>The document \<open>Create\<close> has built when it wraps the data key.\<close>

definition createdDoc :: "Options \<Rightarrow> bytes \<Rightarrow> bool \<Rightarrow> bool \<Rightarrow> sealedVault" where
  "createdDoc opts salt uv ev =
     \<lparr>v_Format = formatVersion, v_RPID = o_RPID opts, v_Salt = salt, v_UserVerified = uv,
      v_EntropyVerified = ev, v_Keys = [], v_Secrets = []\<rparr>"

lemma Create_unfold:
  "Create x auth opts =
     bindE (liftE (Options_validate opts)) (\<lambda>_.
     bindE newSalt (\<lambda>salt.
     bindE (enrollAndDerive x auth (createdDoc opts salt False False) opts UVDiscouraged) (\<lambda>(cred, derived).
     bindE (verifyDerivationDependsOnSalt auth (o_RPID opts) (er_CredentialID cred) salt
              (dr_Secret derived) UVDiscouraged (dr_UserVerified derived)) (\<lambda>_.
     bindE newDataKey (\<lambda>dataKey.
     bindE (wrapDataKey x (createdDoc opts salt (dr_UserVerified derived) True) dataKey
              (er_CredentialID cred) (dr_Secret derived) firstSlot (optsLabel opts)) (\<lambda>entry.
     returnE \<lparr>ses_doc = (createdDoc opts salt (dr_UserVerified derived) True)\<lparr>v_Keys := [entry]\<rparr>,
              ses_opts = opts, ses_dataKey = Some dataKey\<rparr>))))))"
  by (simp add: Create_def createdDoc_def Let_def)

lemma createdDoc_simps [simp]:
  "v_Format (createdDoc opts salt uv ev) = formatVersion"
  "v_RPID (createdDoc opts salt uv ev) = o_RPID opts"
  "v_Salt (createdDoc opts salt uv ev) = salt"
  "v_UserVerified (createdDoc opts salt uv ev) = uv"
  "v_EntropyVerified (createdDoc opts salt uv ev) = ev"
  "v_Keys (createdDoc opts salt uv ev) = []"
  "v_Secrets (createdDoc opts salt uv ev) = []"
  by (simp_all add: createdDoc_def)

lemma Options_validate_iff [results]: "Options_validate opts = Inr u \<longleftrightarrow> o_RPID opts \<noteq> []"
  by (auto simp: Options_validate_def)

lemma Create_ok:
  assumes "Create x auth opts w = (Inr s, w')"
  shows "\<exists>salt w1 cred derived w2 w3 dataKey w4 entry.
    o_RPID opts \<noteq> [] \<and> randomBytes 32 w = (Inr salt, w1)
    \<and> enrollAndDerive x auth (createdDoc opts salt False False) opts UVDiscouraged w1
        = (Inr (cred, derived), w2)
    \<and> verifyDerivationDependsOnSalt auth (o_RPID opts) (er_CredentialID cred) salt
        (dr_Secret derived) UVDiscouraged (dr_UserVerified derived) w2 = (Inr (), w3)
    \<and> randomBytes 32 w3 = (Inr dataKey, w4)
    \<and> wrapDataKey x (createdDoc opts salt (dr_UserVerified derived) True) dataKey
        (er_CredentialID cred) (dr_Secret derived) 0 (optsLabel opts) w4 = (Inr entry, w')
    \<and> s = \<lparr>ses_doc = (createdDoc opts salt (dr_UserVerified derived) True)\<lparr>v_Keys := [entry]\<rparr>,
           ses_opts = opts, ses_dataKey = Some dataKey\<rparr>"
  using assms unfolding Create_unfold newSalt_def newDataKey_def SaltLen_def dataKeyLen_def firstSlot_def
  by (auto simp: results)

lemma unlock_ok:
  assumes "unlock x v auth w = (Inr s, w')"
  shows "\<exists>derived entry dataKey.
    v_Keys (vt_doc v) \<noteq> [] \<and> v_EntropyVerified (vt_doc v)
    \<and> callDerive auth (unlockRequest (vt_doc v)) w = (Inr derived, w')
    \<and> dr_UserPresent derived \<and> dr_UserVerified derived = v_UserVerified (vt_doc v)
    \<and> findKey (vt_doc v) (dr_CredentialID derived) = Some entry
    \<and> unwrapDataKey x (vt_doc v) entry (dr_Secret derived) = Inr dataKey
    \<and> s = \<lparr>ses_doc = vt_doc v, ses_opts = vt_opts v, ses_dataKey = nilIfEmpty dataKey\<rparr>"
  using assms by (auto simp: unlock_def results split: if_splits option.splits)

lemma Open_ok_iff:
  "Open x name sw = (Inr r, sw') \<longleftrightarrow>
     (\<exists>dk e pt. ses_dataKey (fst sw) = Some dk \<and> findSecret (ses_doc (fst sw)) name = Some e
        \<and> openSecret x (ses_doc (fst sw)) dk e = Inr pt \<and> sw' = sw
        \<and> r = \<lparr>rd_buf = pt, rd_src = True, rd_pos = 0, rd_once = False\<rparr>)"
  by (auto simp: Open_def results split: option.splits)

lemma Put_ok_iff:
  "Put x name rd sw = (Inr u, sw') \<longleftrightarrow>
     (\<exists>dk pt entry w'. ses_dataKey (fst sw) = Some dk \<and> name \<noteq> [] \<and> rd = Some (Inr pt)
        \<and> sealSecret x (ses_doc (fst sw)) dk name pt (snd sw) = (Inr entry, w')
        \<and> sw' = ((fst sw)\<lparr>ses_doc := (ses_doc (fst sw))
                   \<lparr>v_Secrets := putSecretIn (v_Secrets (ses_doc (fst sw))) name entry\<rparr>\<rparr>, w'))"
  by (cases sw, cases sw') (auto simp: Put_def results split: option.splits if_splits)

lemma Delete_ok_iff:
  "Delete name sw = (Inr u, sw') \<longleftrightarrow>
     (\<exists>dk ss. ses_dataKey (fst sw) = Some dk
        \<and> deleteSecretIn (v_Secrets (ses_doc (fst sw))) name = Some ss
        \<and> sw' = ((fst sw)\<lparr>ses_doc := (ses_doc (fst sw))\<lparr>v_Secrets := ss\<rparr>\<rparr>, snd sw))"
  by (auto simp: Delete_def results split: option.splits)

definition enrollLabel :: "string \<Rightarrow> string" where
  "enrollLabel label0 = (if label0 = [] then DefaultLabel else label0)"

lemma EnrollKey_ok:
  assumes "EnrollKey x auth slot label0 sw = (Inr u, sw')"
  defines "doc \<equiv> ses_doc (fst sw)"
  shows "\<exists>dk cred derived w1 w2 entry.
    ses_dataKey (fst sw) = Some dk \<and> 0 \<le> slot \<and> \<not> slotOccupied doc slot
    \<and> enrollAndDerive x auth doc (ses_opts (fst sw)) (uvRequirement doc) (snd sw) = (Inr (cred, derived), w1)
    \<and> findKey doc (er_CredentialID cred) = None
    \<and> dr_UserVerified derived = v_UserVerified doc
    \<and> verifyDerivationDependsOnSalt auth (v_RPID doc) (er_CredentialID cred) (v_Salt doc)
        (dr_Secret derived) (uvRequirement doc) (dr_UserVerified derived) w1 = (Inr (), w2)
    \<and> wrapDataKey x doc dk (er_CredentialID cred) (dr_Secret derived) slot (enrollLabel label0) w2
        = (Inr entry, snd sw')
    \<and> fst sw' = (fst sw)\<lparr>ses_doc := doc\<lparr>v_Keys := v_Keys doc @ [entry]\<rparr>\<rparr>"
  using assms
  by (cases sw; cases sw')
     (auto simp: EnrollKey_def enrollLabel_def results Let_def split: if_splits)

lemma RemoveKey_ok_iff:
  "RemoveKey slot sw = (Inr u, sw') \<longleftrightarrow>
     ses_dataKey (fst sw) \<noteq> None \<and> slotOccupied (ses_doc (fst sw)) slot
     \<and> length (v_Keys (ses_doc (fst sw))) \<noteq> 1 \<and> removeKey slot sw = (Inr u, sw')"
  by (auto simp: RemoveKey_def results split: if_splits)

lemma ForceRemoveKey_ok_iff:
  "ForceRemoveKey slot sw = (Inr u, sw') \<longleftrightarrow>
     ses_dataKey (fst sw) \<noteq> None \<and> slotOccupied (ses_doc (fst sw)) slot
     \<and> removeKey slot sw = (Inr u, sw')"
  by (auto simp: ForceRemoveKey_def results split: if_splits)

section \<open>The contract of a mutating method\<close>

text \<open>The part of a document no method of a session changes.\<close>

definition sameFrame :: "sealedVault \<Rightarrow> sealedVault \<Rightarrow> bool" where
  "sameFrame d d' \<longleftrightarrow> v_Format d' = v_Format d \<and> v_RPID d' = v_RPID d \<and> v_Salt d' = v_Salt d
     \<and> v_UserVerified d' = v_UserVerified d \<and> v_EntropyVerified d' = v_EntropyVerified d"

lemma sameFrame_refl [simp, intro]: "sameFrame d d"
  by (simp add: sameFrame_def)

lemma sameFrame_trans [trans]: "sameFrame a b \<Longrightarrow> sameFrame b c \<Longrightarrow> sameFrame a c"
  by (simp add: sameFrame_def)

lemma sameFrame_header: "sameFrame d d' \<Longrightarrow> sameHeader d d'"
  by (simp add: sameFrame_def sameHeader_def)

lemma unwrapDataKey_frame: "sameFrame d d' \<Longrightarrow> unwrapDataKey x d' k secret = unwrapDataKey x d k secret"
  using keyAAD_cong [OF sameFrame_header, of d d']
  by (simp add: unwrapDataKey_def sameFrame_def)

lemma openSecret_frame: "sameFrame d d' \<Longrightarrow> openSecret x d' dk e = openSecret x d dk e"
  using secretAAD_cong [OF sameFrame_header, of d d']
  by (simp add: openSecret_def)

text \<open>A run of several operations stops at the first error.\<close>

fun runOps :: "('a \<Rightarrow> (unit, 'd) sessionM) \<Rightarrow> 'a list \<Rightarrow> (unit, 'd) sessionM" where
  "runOps run [] = returnE ()"
| "runOps run (a # as) = bindE (run a) (\<lambda>_. runOps run as)"

locale session_method =
  fixes run :: "'a \<Rightarrow> (unit, 'd) sessionM"
  assumes locked: "ses_dataKey s = None \<Longrightarrow> run a (s, w) = (failWith ErrLocked, (s, w))"
    and error_keeps: "run a (s, w) = (Inl e, (s', w')) \<Longrightarrow> s' = s"
    and frame: "run a (s, w) = (Inr (), (s', w')) \<Longrightarrow>
      ses_opts s' = ses_opts s \<and> ses_dataKey s' = ses_dataKey s \<and> sameFrame (ses_doc s) (ses_doc s')"
    and wf: "run a (s, w) = (Inr (), (s', w')) \<Longrightarrow> wfVault (ses_doc s) \<Longrightarrow> wfVault (ses_doc s')"
begin

lemma keeps_frame:
  assumes "run a (s, w) = (r, (s', w'))"
  shows "ses_opts s' = ses_opts s \<and> ses_dataKey s' = ses_dataKey s \<and> sameFrame (ses_doc s) (ses_doc s')"
  using assms frame [of a s w s' w'] error_keeps [of a s w _ s' w'] by (cases r) auto

lemma keeps_wf:
  assumes "run a (s, w) = (r, (s', w'))" and "wfVault (ses_doc s)"
  shows "wfVault (ses_doc s')"
  using assms wf [of a s w s' w'] error_keeps [of a s w _ s' w'] by (cases r) auto

lemma success_unlocked:
  assumes "run a (s, w) = (Inr (), (s', w'))"
  shows "ses_dataKey s \<noteq> None"
proof
  assume "ses_dataKey s = None"
  from locked [OF this, of a w] assms show False by simp
qed

text \<open>A property of sessions that every successful step keeps holds after any run, failed or not.\<close>

lemma runOps_invariant:
  assumes step: "\<And>a s w s' w'. run a (s, w) = (Inr (), (s', w')) \<Longrightarrow> P s \<Longrightarrow> P s'"
    and "runOps run as (s, w) = (r, (s', w'))" and "P s"
  shows "P s'"
  using assms(2,3)
proof (induction as arbitrary: s w)
  case Nil
  then show ?case by simp
next
  case (Cons a as)
  obtain r1 s1 w1 where first: "run a (s, w) = (r1, (s1, w1))" by (metis prod.collapse)
  show ?case
  proof (cases r1)
    case (Inl e)
    with Cons.prems(1) first have "s' = s1" by simp
    with error_keeps [of a s w e s1 w1] first Inl Cons.prems(2) show ?thesis by simp
  next
    case (Inr u)
    with Cons.prems(1) first have rest: "runOps run as (s1, w1) = (r, (s', w'))" by simp
    have "P s1" using step [of a s w s1 w1] first Inr Cons.prems(2) by simp
    with rest show ?thesis by (rule Cons.IH)
  qed
qed

lemma runOps_keeps_frame:
  "runOps run as (s, w) = (r, (s', w')) \<Longrightarrow> sameFrame (ses_doc s) (ses_doc s')"
  by (rule runOps_invariant [where P = "\<lambda>t. sameFrame (ses_doc s) (ses_doc t)"])
    (auto dest: frame sameFrame_trans)

lemma runOps_keeps_wf:
  "runOps run as (s, w) = (r, (s', w')) \<Longrightarrow> wfVault (ses_doc s) \<Longrightarrow> wfVault (ses_doc s')"
  by (rule runOps_invariant [where P = "\<lambda>s. wfVault (ses_doc s)"]) (auto intro: wf)

end

section \<open>Lists of keys and secrets under the operations\<close>

lemma putSecretIn_names:
  "s_Name ` set (putSecretIn ss name e) \<subseteq> insert (s_Name e) (s_Name ` set ss)"
  by (induction ss) auto

lemma putSecretIn_set: "set (putSecretIn ss name e) \<subseteq> insert e (set ss)"
  by (induction ss) auto

lemma putSecretIn_wf:
  assumes "s_Name e = name" "name \<noteq> []" "wfSecrets ss"
  shows "wfSecrets (putSecretIn ss name e)"
  using assms(3)
proof (induction ss)
  case Nil
  with assms show ?case by (simp add: wfSecrets_def)
next
  case (Cons s ss)
  then have "wfSecrets (putSecretIn ss name e)" by (simp add: wfSecrets_def)
  moreover have "s_Name s \<notin> s_Name ` set (putSecretIn ss name e)" if "s_Name s \<noteq> name"
    using putSecretIn_names [of ss name e] Cons.prems that assms(1) by (auto simp: wfSecrets_def)
  ultimately show ?case using Cons.prems assms by (auto simp: wfSecrets_def)
qed

lemma findSecretIn_put:
  "s_Name e = name \<Longrightarrow>
     findSecretIn (putSecretIn ss name e) n = (if n = name then Some e else findSecretIn ss n)"
  by (induction ss) auto

lemma deleteSecretIn_None: "deleteSecretIn ss name = None \<longleftrightarrow> name \<notin> s_Name ` set ss"
  by (induction ss) auto

lemma wfSecrets_filter: "wfSecrets ss \<Longrightarrow> wfSecrets (filter P ss)"
  by (simp add: wfSecrets_def distinct_map_filter)

lemma deleteSecretIn_eq_filter:
  "deleteSecretIn ss name = Some ss' \<Longrightarrow> wfSecrets ss \<Longrightarrow> ss' = filter (\<lambda>s. s_Name s \<noteq> name) ss"
proof (induction ss arbitrary: ss')
  case Nil
  then show ?case by simp
next
  case (Cons s ss)
  show ?case
  proof (cases "s_Name s = name")
    case True
    have "s_Name s \<notin> s_Name ` set ss" using Cons.prems(2) by (simp add: wfSecrets_def)
    then have same: "filter (\<lambda>s. s_Name s \<noteq> name) ss = ss"
      using True by (intro filter_True) (metis imageI)
    with True Cons.prems(1) show ?thesis by simp
  next
    case False
    with Cons.prems(1) obtain ss1 where one: "deleteSecretIn ss name = Some ss1" "ss' = s # ss1" by auto
    have "wfSecrets ss" using Cons.prems(2) by (simp add: wfSecrets_def)
    from Cons.IH [OF one(1) this] one(2) False show ?thesis by simp
  qed
qed

lemma deleteSecretIn_Some:
  "deleteSecretIn ss name = Some ss' \<Longrightarrow> wfSecrets ss \<Longrightarrow>
     wfSecrets ss' \<and> ss' = filter (\<lambda>s. s_Name s \<noteq> name) ss"
  using deleteSecretIn_eq_filter [of ss name ss'] wfSecrets_filter by metis

lemma findSecretIn_delete:
  assumes "deleteSecretIn ss name = Some ss'" "wfSecrets ss"
  shows "findSecretIn ss' n = (if n = name then None else findSecretIn ss n)"
proof -
  have "findSecretIn (filter (\<lambda>s. s_Name s \<noteq> name) ss) n = (if n = name then None else findSecretIn ss n)"
    by (induction ss) auto
  with deleteSecretIn_Some [OF assms] show ?thesis by simp
qed

lemma wfKeys_append:
  "wfKeys ks \<Longrightarrow> 0 \<le> k_Slot k \<Longrightarrow> k_CredentialID k \<noteq> [] \<Longrightarrow> k_Slot k \<notin> k_Slot ` set ks \<Longrightarrow>
     k_CredentialID k \<notin> k_CredentialID ` set ks \<Longrightarrow> wfKeys (ks @ [k])"
  by (auto simp: wfKeys_def)

lemma wfKeys_filter: "wfKeys ks \<Longrightarrow> wfKeys (filter P ks)"
  by (auto simp: wfKeys_def distinct_map_filter)

section \<open>The operations meet the contract\<close>

datatype operation =
    OpPut string reader
  | OpDelete string
  | OpEnroll int string
  | OpRemove int
  | OpForceRemove int

fun runOp :: "'z x509_scheme \<Rightarrow> 'd Authenticator \<Rightarrow> operation \<Rightarrow> (unit, 'd) sessionM" where
  "runOp x auth (OpPut name rd) = Put x name rd"
| "runOp x auth (OpDelete name) = Delete name"
| "runOp x auth (OpEnroll slot label) = EnrollKey x auth slot label"
| "runOp x auth (OpRemove slot) = RemoveKey slot"
| "runOp x auth (OpForceRemove slot) = ForceRemoveKey slot"

lemma keyM_locked [simp]: "ses_dataKey s = None \<Longrightarrow> keyM (s, w) = (failWith ErrLocked, (s, w))"
  by (simp add: keyM_def)

interpretation put: session_method
  "\<lambda>(x :: 'z x509_scheme, name, rd). Put x name rd :: (unit, 'd) sessionM"
proof unfold_locales
  fix s :: session and a :: "'z x509_scheme \<times> string \<times> reader" and w w' :: "'d world" and e s'
  obtain x name rd where a: "a = (x, name, rd)" by (cases a)
  show "(\<lambda>(x, name, rd). Put x name rd) a (s, w) = (failWith ErrLocked, s, w)"
    if "ses_dataKey s = None"
    using that by (simp add: a Put_def)
  show "s' = s" if "(\<lambda>(x, name, rd). Put x name rd) a (s, w) = (Inl e, s', w')"
    using that by (auto simp: a Put_def results split: if_splits option.splits)
  assume ok: "(\<lambda>(x, name, rd). Put x name rd) a (s, w) = (Inr (), s', w')"
  then show "ses_opts s' = ses_opts s \<and> ses_dataKey s' = ses_dataKey s \<and> sameFrame (ses_doc s) (ses_doc s')"
    by (auto simp: a Put_ok_iff sameFrame_def)
  show "wfVault (ses_doc s')" if "wfVault (ses_doc s)"
    using ok that by (auto simp: a Put_ok_iff sealSecret_ok wfVault_def putSecretIn_wf)
qed

interpretation delete: session_method Delete
proof unfold_locales
  fix s :: session and name and w w' :: "'a world" and e s'
  show "Delete name (s, w) = (failWith ErrLocked, s, w)" if "ses_dataKey s = None"
    using that by (simp add: Delete_def)
  show "s' = s" if "Delete name (s, w) = (Inl e, s', w')"
    using that by (auto simp: Delete_def results split: option.splits)
  assume ok: "Delete name (s, w) = (Inr (), s', w')"
  then show "ses_opts s' = ses_opts s \<and> ses_dataKey s' = ses_dataKey s \<and> sameFrame (ses_doc s) (ses_doc s')"
    by (auto simp: Delete_ok_iff sameFrame_def)
  show "wfVault (ses_doc s')" if "wfVault (ses_doc s)"
    using ok that by (auto simp: Delete_ok_iff wfVault_def dest: deleteSecretIn_Some)
qed

lemma EnrollKey_wf:
  assumes "EnrollKey x auth slot label (s, w) = (Inr (), s', w')" and wf: "wfVault (ses_doc s)"
  shows "wfVault (ses_doc s')"
proof -
  obtain dk cred derived w1 w2 entry where free: "0 \<le> slot" "\<not> slotOccupied (ses_doc s) slot"
    and enrolled: "enrollAndDerive x auth (ses_doc s) (ses_opts s) (uvRequirement (ses_doc s)) w
      = (Inr (cred, derived), w1)"
    and fresh: "findKey (ses_doc s) (er_CredentialID cred) = None"
    and wrapped: "wrapDataKey x (ses_doc s) dk (er_CredentialID cred) (dr_Secret derived) slot
      (enrollLabel label) w2 = (Inr entry, w')"
    and s': "s' = s\<lparr>ses_doc := (ses_doc s)\<lparr>v_Keys := v_Keys (ses_doc s) @ [entry]\<rparr>\<rparr>"
    using EnrollKey_ok [OF assms(1)] by auto
  have entry: "k_Slot entry = slot" "k_CredentialID entry = er_CredentialID cred"
    using wrapped by (auto simp: wrapDataKey_ok)
  have "wfKeys (v_Keys (ses_doc s) @ [entry])"
  proof (rule wfKeys_append)
    show "wfKeys (v_Keys (ses_doc s))" using wf by (simp add: wfVault_def)
    show "0 \<le> k_Slot entry" "k_Slot entry \<notin> k_Slot ` set (v_Keys (ses_doc s))"
      using free entry by (simp_all add: slotOccupied_iff)
    show "k_CredentialID entry \<noteq> []" using enrollAndDerive_ok [OF enrolled] entry by auto
    show "k_CredentialID entry \<notin> k_CredentialID ` set (v_Keys (ses_doc s))"
      using fresh entry by (simp add: findKey_def findKeyIn_None)
  qed
  with wf show ?thesis by (simp add: s' wfVault_def)
qed

interpretation enroll: session_method
  "\<lambda>(x :: 'z x509_scheme, auth :: 'd Authenticator, slot, label). EnrollKey x auth slot label"
proof unfold_locales
  fix s :: session and a :: "'z x509_scheme \<times> 'd Authenticator \<times> int \<times> string"
    and w w' :: "'d world" and e s'
  obtain x auth slot label where a: "a = (x, auth, slot, label)" by (cases a)
  show "(\<lambda>(x, auth, slot, label). EnrollKey x auth slot label) a (s, w) = (failWith ErrLocked, s, w)"
    if "ses_dataKey s = None"
    using that by (simp add: a EnrollKey_def)
  show "s' = s" if "(\<lambda>(x, auth, slot, label). EnrollKey x auth slot label) a (s, w) = (Inl e, s', w')"
    using that by (auto simp: a EnrollKey_def results Let_def split: if_splits)
  assume "(\<lambda>(x, auth, slot, label). EnrollKey x auth slot label) a (s, w) = (Inr (), s', w')"
  then have ok: "EnrollKey x auth slot label (s, w) = (Inr (), s', w')" by (simp add: a)
  from EnrollKey_ok [OF ok]
  show "ses_opts s' = ses_opts s \<and> ses_dataKey s' = ses_dataKey s \<and> sameFrame (ses_doc s) (ses_doc s')"
    by (auto simp: sameFrame_def)
  show "wfVault (ses_doc s')" if "wfVault (ses_doc s)"
    using EnrollKey_wf [OF ok] that by simp
qed

interpretation remove: session_method RemoveKey
proof unfold_locales
  fix s :: session and slot and w w' :: "'a world" and e s'
  show "RemoveKey slot (s, w) = (failWith ErrLocked, s, w)" if "ses_dataKey s = None"
    using that by (simp add: RemoveKey_def)
  show "s' = s" if "RemoveKey slot (s, w) = (Inl e, s', w')"
    using that by (auto simp: RemoveKey_def results split: if_splits)
  assume ok: "RemoveKey slot (s, w) = (Inr (), s', w')"
  then show "ses_opts s' = ses_opts s \<and> ses_dataKey s' = ses_dataKey s \<and> sameFrame (ses_doc s) (ses_doc s')"
    by (auto simp: RemoveKey_ok_iff removeKey_Inr_iff sameFrame_def)
  show "wfVault (ses_doc s')" if "wfVault (ses_doc s)"
    using ok that by (auto simp: RemoveKey_ok_iff removeKey_Inr_iff wfVault_def wfKeys_filter)
qed

interpretation force: session_method ForceRemoveKey
proof unfold_locales
  fix s :: session and slot and w w' :: "'a world" and e s'
  show "ForceRemoveKey slot (s, w) = (failWith ErrLocked, s, w)" if "ses_dataKey s = None"
    using that by (simp add: ForceRemoveKey_def)
  show "s' = s" if "ForceRemoveKey slot (s, w) = (Inl e, s', w')"
    using that by (auto simp: ForceRemoveKey_def results split: if_splits)
  assume ok: "ForceRemoveKey slot (s, w) = (Inr (), s', w')"
  then show "ses_opts s' = ses_opts s \<and> ses_dataKey s' = ses_dataKey s \<and> sameFrame (ses_doc s) (ses_doc s')"
    by (auto simp: ForceRemoveKey_ok_iff removeKey_Inr_iff sameFrame_def)
  show "wfVault (ses_doc s')" if "wfVault (ses_doc s)"
    using ok that by (auto simp: ForceRemoveKey_ok_iff removeKey_Inr_iff wfVault_def wfKeys_filter)
qed

text \<open>All five together: the modifying half of the \<open>Admin\<close> interface.\<close>

interpretation admin: session_method
  "\<lambda>(x :: 'z x509_scheme, auth :: 'd Authenticator, op). runOp x auth op"
proof unfold_locales
  fix s :: session and a :: "'z x509_scheme \<times> 'd Authenticator \<times> operation"
    and w w' :: "'d world" and e s'
  obtain x auth op where a: "a = (x, auth, op)" by (cases a)
  note locked = put.locked [of s "(x, _, _)"] delete.locked enroll.locked [of s "(x, auth, _, _)"]
    remove.locked force.locked
  note keeps = put.error_keeps [of "(x, _, _)"] delete.error_keeps
    enroll.error_keeps [of "(x, auth, _, _)"] remove.error_keeps force.error_keeps
  show "(\<lambda>(x, auth, op). runOp x auth op) a (s, w) = (failWith ErrLocked, s, w)"
    if "ses_dataKey s = None"
    using that locked by (cases op) (simp_all add: a)
  show "s' = s" if "(\<lambda>(x, auth, op). runOp x auth op) a (s, w) = (Inl e, s', w')"
    using that keeps by (cases op) (simp_all add: a)
  assume ok: "(\<lambda>(x, auth, op). runOp x auth op) a (s, w) = (Inr (), s', w')"
  show "ses_opts s' = ses_opts s \<and> ses_dataKey s' = ses_dataKey s \<and> sameFrame (ses_doc s) (ses_doc s')"
    using ok put.frame [of "(x, _, _)" s w s' w'] delete.frame [of _ s w s' w']
      enroll.frame [of "(x, auth, _, _)" s w s' w'] remove.frame [of _ s w s' w']
      force.frame [of _ s w s' w']
    by (cases op) (simp_all add: a)
  show "wfVault (ses_doc s')" if "wfVault (ses_doc s)"
    using ok that put.wf [of "(x, _, _)" s w s' w'] delete.wf [of _ s w s' w']
      enroll.wf [of "(x, auth, _, _)" s w s' w'] remove.wf [of _ s w s' w']
      force.wf [of _ s w s' w']
    by (cases op) (simp_all add: a)
qed

text \<open>With the library and the authenticator fixed, for runs over a list of operations.\<close>

interpretation run: session_method "runOp x auth"
  using admin.locked [of _ "(x, auth, _)"] admin.error_keeps [of "(x, auth, _)"]
    admin.frame [of "(x, auth, _)"] admin.wf [of "(x, auth, _)"]
  by unfold_locales simp_all

text \<open>What \<open>Create\<close> builds is a well-formed document.\<close>

lemma Create_wf:
  assumes "Create x auth opts w = (Inr s, w')"
  shows "wfVault (ses_doc s)"
proof -
  obtain salt w1 cred derived w2 w3 dk w4 entry where rp: "o_RPID opts \<noteq> []"
    and salt: "randomBytes 32 w = (Inr salt, w1)"
    and enrolled: "enrollAndDerive x auth (createdDoc opts salt False False) opts UVDiscouraged w1
        = (Inr (cred, derived), w2)"
    and wrapped: "wrapDataKey x (createdDoc opts salt (dr_UserVerified derived) True) dk
        (er_CredentialID cred) (dr_Secret derived) 0 (optsLabel opts) w4 = (Inr entry, w')"
    and s: "s = \<lparr>ses_doc = (createdDoc opts salt (dr_UserVerified derived) True)\<lparr>v_Keys := [entry]\<rparr>,
           ses_opts = opts, ses_dataKey = Some dk\<rparr>"
    using Create_ok [OF assms] by (elim exE conjE) (rule that)
  have "k_Slot entry = 0" "k_CredentialID entry = er_CredentialID cred"
    using wrapped by (auto simp: wrapDataKey_ok)
  moreover have "er_CredentialID cred \<noteq> []" using enrollAndDerive_ok [OF enrolled] by auto
  moreover have "length salt = 32" using randomBytes_length [OF salt] .
  ultimately show ?thesis
    using rp by (simp add: s wfVault_def wfKeys_def wfSecrets_def SaltLen_def)
qed

end
