(* ===== verification/Refine.thy ===== *)
theory Refine
  imports Session
begin

text \<open>
  The abstract vault and the proof that the code implements it. Abstractly a vault is a map from names
  to values, and every enrolled key gives the same access to it. The relation \<open>coherent\<close> ties a
  document to an abstract map and the data key: every wrapped copy unwraps, under what its credential
  derives, to the data key, and under the data key the document's secrets open to the map.
\<close>

section \<open>Abstraction\<close>

type_synonym store = "string \<Rightarrow> bytes option"

text \<open>What an operation means for the map.\<close>

fun absOp :: "operation \<Rightarrow> store \<Rightarrow> store" where
  "absOp (OpPut name (Some (Inr value))) A = A(name \<mapsto> value)"
| "absOp (OpDelete name) A = A(name := None)"
| "absOp op A = A"

definition absOps :: "operation list \<Rightarrow> store \<Rightarrow> store" where
  "absOps ops A = fold absOp ops A"

text \<open>A device whose secrets are a function \<open>pf\<close>, behind a correct AEAD.\<close>

definition honest :: "'z x509_scheme \<Rightarrow> (bytes \<Rightarrow> bytes \<Rightarrow> bool \<Rightarrow> bytes) \<Rightarrow> 'd Authenticator \<Rightarrow> bool" where
  "honest x pf auth \<longleftrightarrow> aead_roundtrip x \<and> derives_by pf auth \<and> answers_from_allow_list auth"

definition keysWrap ::
  "'z x509_scheme \<Rightarrow> (bytes \<Rightarrow> bytes \<Rightarrow> bool \<Rightarrow> bytes) \<Rightarrow> bytes \<Rightarrow> sealedVault \<Rightarrow> bool" where
  "keysWrap x pf dk d \<longleftrightarrow> (\<forall>k \<in> set (v_Keys d).
     unwrapDataKey x d k (pf (k_CredentialID k) (v_Salt d) (v_UserVerified d)) = Inr dk)"

definition secretsOpen :: "'z x509_scheme \<Rightarrow> bytes \<Rightarrow> store \<Rightarrow> sealedVault \<Rightarrow> bool" where
  "secretsOpen x dk A d \<longleftrightarrow>
     (\<forall>n. map_option (openSecret x d dk) (findSecret d n) = map_option Inr (A n))"

definition coherent ::
  "'z x509_scheme \<Rightarrow> (bytes \<Rightarrow> bytes \<Rightarrow> bool \<Rightarrow> bytes) \<Rightarrow> bytes \<Rightarrow> store \<Rightarrow> sealedVault \<Rightarrow> bool" where
  "coherent x pf dk A d \<longleftrightarrow> dk \<noteq> [] \<and> wfVault d \<and> v_EntropyVerified d
     \<and> keysWrap x pf dk d \<and> secretsOpen x dk A d"

lemma coherentD:
  assumes "coherent x pf dk A d"
  shows "dk \<noteq> []" "wfVault d" "v_EntropyVerified d" "keysWrap x pf dk d" "secretsOpen x dk A d"
  using assms by (simp_all add: coherent_def)

lemma keysWrap_frame:
  "sameFrame d d' \<Longrightarrow> set (v_Keys d') \<subseteq> set (v_Keys d) \<Longrightarrow> keysWrap x pf dk d \<Longrightarrow> keysWrap x pf dk d'"
  by (simp add: keysWrap_def unwrapDataKey_frame, simp add: sameFrame_def subset_iff)

lemma keysWrap_append:
  assumes "sameFrame d d'" "v_Keys d' = v_Keys d @ [k]" "keysWrap x pf dk d"
    and "unwrapDataKey x d k (pf (k_CredentialID k) (v_Salt d) (v_UserVerified d)) = Inr dk"
  shows "keysWrap x pf dk d'"
proof -
  have "keysWrap x pf dk (d'\<lparr>v_Keys := v_Keys d\<rparr>)"
    using assms(1,3) by (intro keysWrap_frame [of d "d'\<lparr>v_Keys := v_Keys d\<rparr>"]) (simp_all add: sameFrame_def)
  moreover have "unwrapDataKey x (d'\<lparr>v_Keys := v_Keys d\<rparr>) j = unwrapDataKey x d' j" for j
    by (rule ext, rule unwrapDataKey_frame) (simp add: sameFrame_def)
  moreover have "unwrapDataKey x d' k (pf (k_CredentialID k) (v_Salt d') (v_UserVerified d')) = Inr dk"
    using unwrapDataKey_frame [OF assms(1), of x] assms(1,4) by (simp add: sameFrame_def)
  ultimately show ?thesis using assms(2) by (simp add: keysWrap_def)
qed

lemma openSecret_sameFrame: "sameFrame d d' \<Longrightarrow> openSecret x d' dk = openSecret x d dk"
  by (rule ext) (rule openSecret_frame)

lemma secretsOpen_frame:
  "sameFrame d d' \<Longrightarrow> v_Secrets d' = v_Secrets d \<Longrightarrow> secretsOpen x dk A d \<Longrightarrow> secretsOpen x dk A d'"
  by (simp add: secretsOpen_def findSecret_def openSecret_sameFrame)

lemma secretsOpen_value:
  assumes "secretsOpen x dk A d"
  shows "A n = Some pt \<longleftrightarrow> (\<exists>e. findSecret d n = Some e \<and> openSecret x d dk e = Inr pt)"
    and "A n = None \<longleftrightarrow> findSecret d n = None"
  using assms [unfolded secretsOpen_def, rule_format, of n]
  by (cases "findSecret d n"; cases "A n"; auto)+

section \<open>Creating, unlocking, reading\<close>

lemma enrolled_secret:
  assumes "honest x pf auth"
    and "enrollAndDerive x auth doc opts uv w = (Inr (cred, derived), w')"
  shows "dr_Secret derived = pf (er_CredentialID cred) (v_Salt doc) (dr_UserVerified derived)"
    and "dr_Secret derived \<noteq> []" and "er_CredentialID cred \<noteq> []"
proof -
  obtain w2 where call: "callDerive auth (firstDerive doc uv (er_CredentialID cred)) w2 = (Inr derived, w')"
    and ne: "dr_Secret derived \<noteq> []" "er_CredentialID cred \<noteq> []"
    using enrollAndDerive_ok [OF assms(2)] by auto
  show "dr_Secret derived = pf (er_CredentialID cred) (v_Salt doc) (dr_UserVerified derived)"
    using derives_singleton [OF _ _ call, of pf "er_CredentialID cred"] assms(1)
    by (simp add: honest_def firstDerive_def)
  show "dr_Secret derived \<noteq> []" "er_CredentialID cred \<noteq> []" using ne by auto
qed

lemma Create_coherent:
  assumes "honest x pf auth" and "Create x auth opts w = (Inr s, w')"
  shows "\<exists>dk. ses_dataKey s = Some dk \<and> length dk = 32 \<and> coherent x pf dk (\<lambda>_. None) (ses_doc s)"
proof -
  obtain salt w1 cred derived w2 w3 dk w4 entry where rp: "o_RPID opts \<noteq> []"
    and salt: "randomBytes 32 w = (Inr salt, w1)"
    and enrolled: "enrollAndDerive x auth (createdDoc opts salt False False) opts UVDiscouraged w1
        = (Inr (cred, derived), w2)"
    and dk: "randomBytes 32 w3 = (Inr dk, w4)"
    and wrapped: "wrapDataKey x (createdDoc opts salt (dr_UserVerified derived) True) dk
        (er_CredentialID cred) (dr_Secret derived) 0 (optsLabel opts) w4 = (Inr entry, w')"
    and s: "s = \<lparr>ses_doc = (createdDoc opts salt (dr_UserVerified derived) True)\<lparr>v_Keys := [entry]\<rparr>,
           ses_opts = opts, ses_dataKey = Some dk\<rparr>"
    using Create_ok [OF assms(2)] by (elim exE conjE) (rule that)
  let ?d0 = "createdDoc opts salt (dr_UserVerified derived) True"
  have entry: "k_Slot entry = 0" "k_CredentialID entry = er_CredentialID cred"
    using wrapped by (auto simp: wrapDataKey_ok)
  have len: "length salt = 32" "length dk = 32"
    using randomBytes_length salt dk by blast+
  have secret: "dr_Secret derived = pf (er_CredentialID cred) salt (dr_UserVerified derived)"
    and cred: "er_CredentialID cred \<noteq> []"
    using enrolled_secret [OF assms(1) enrolled] by simp_all
  have "unwrapDataKey x ?d0 entry (dr_Secret derived) = Inr dk"
    using assms(1) wrapped by (intro unwrap_wrapped) (simp_all add: honest_def)
  then have opens: "unwrapDataKey x ?d0 entry (pf (k_CredentialID entry) (v_Salt ?d0) (v_UserVerified ?d0)) = Inr dk"
    using secret entry by simp
  have none: "keysWrap x pf dk ?d0" by (simp add: keysWrap_def)
  have frame: "sameFrame ?d0 (?d0\<lparr>v_Keys := [entry]\<rparr>)" by (simp add: sameFrame_def)
  have "keysWrap x pf dk (?d0\<lparr>v_Keys := [entry]\<rparr>)"
    by (rule keysWrap_append [OF frame _ none opens]) simp
  moreover have "wfVault (?d0\<lparr>v_Keys := [entry]\<rparr>)"
    using rp len entry cred by (simp add: wfVault_def wfKeys_def wfSecrets_def SaltLen_def)
  ultimately show ?thesis
    using len by (auto simp: s coherent_def secretsOpen_def findSecret_def)
qed

lemma unlock_coherent:
  assumes "honest x pf auth" "coherent x pf dk A (vt_doc v)" and "unlock x v auth w = (Inr s, w')"
  shows "ses_dataKey s = Some dk \<and> ses_doc s = vt_doc v"
proof -
  let ?d = "vt_doc v"
  obtain derived entry dk' where
      call: "callDerive auth (unlockRequest ?d) w = (Inr derived, w')"
    and uv: "dr_UserVerified derived = v_UserVerified ?d"
    and found: "findKey ?d (dr_CredentialID derived) = Some entry"
    and opened: "unwrapDataKey x ?d entry (dr_Secret derived) = Inr dk'"
    and s: "s = \<lparr>ses_doc = ?d, ses_opts = vt_opts v, ses_dataKey = nilIfEmpty dk'\<rparr>"
    using unlock_ok [OF assms(3)] by (elim exE conjE) (rule that)
  have "dr_Secret derived = pf (dr_CredentialID derived) (v_Salt ?d) (v_UserVerified ?d)"
    using assms(1) callDerive_result [OF call] uv
    by (force simp: honest_def derives_by_def unlockRequest_def)
  moreover have "entry \<in> set (v_Keys ?d)" "k_CredentialID entry = dr_CredentialID derived"
    using findKeyIn_Some found by (auto simp: findKey_def)
  ultimately have "unwrapDataKey x ?d entry (dr_Secret derived) = Inr dk"
    using coherentD(4) [OF assms(2)] by (auto simp: keysWrap_def)
  with opened have "dk' = dk" by simp
  then show ?thesis using coherentD(1) [OF assms(2)] by (simp add: s nilIfEmpty_def)
qed

text \<open>Every enrolled key unlocks: an answer with a touch, the recorded user verification and the
  credential of some entry is enough.\<close>

lemma unlock_live:
  assumes "honest x pf auth" "coherent x pf dk A (vt_doc v)"
    and "callDerive auth (unlockRequest (vt_doc v)) w = (Inr derived, w')"
    and "dr_UserPresent derived" "dr_UserVerified derived = v_UserVerified (vt_doc v)"
  shows "\<exists>s. unlock x v auth w = (Inr s, w') \<and> ses_dataKey s = Some dk \<and> ses_doc s = vt_doc v
    \<and> ses_opts s = vt_opts v"
proof -
  let ?d = "vt_doc v"
  have answer: "dr_CredentialID derived \<in> set (credentialIDs ?d)"
      "dr_Secret derived = pf (dr_CredentialID derived) (v_Salt ?d) (v_UserVerified ?d)"
    using assms(1,5) callDerive_result [OF assms(3)]
    by (force simp: honest_def answers_from_allow_list_def derives_by_def unlockRequest_def)+
  then obtain k where k: "k \<in> set (v_Keys ?d)" "k_CredentialID k = dr_CredentialID derived"
    by (auto simp: credentialIDs_def)
  then have "findKey ?d (dr_CredentialID derived) = Some k"
    using wfVault_findKey [OF coherentD(2) [OF assms(2)], of k] by simp
  moreover have "unwrapDataKey x ?d k (dr_Secret derived) = Inr dk"
    using coherentD(4) [OF assms(2)] answer k by (auto simp: keysWrap_def)
  moreover have "v_Keys ?d \<noteq> []" using k by auto
  ultimately have "unlock x v auth w =
      (Inr \<lparr>ses_doc = ?d, ses_opts = vt_opts v, ses_dataKey = nilIfEmpty dk\<rparr>, w')"
    using assms(3-5) coherentD(3) [OF assms(2)] by (simp add: unlock_def)
  then show ?thesis using coherentD(1) [OF assms(2)] by (simp add: nilIfEmpty_def)
qed

lemma ReadString_coherent:
  assumes "secretsOpen x dk A (ses_doc s)" "ses_dataKey s = Some dk"
  shows "ReadString x n (s, w) =
    (case A n of Some pt \<Rightarrow> Inr (string_of_bytes pt)
     | None \<Rightarrow> Inl (wrap ''%w: %q'' (Sentinel ErrNoSuchSecret)), (s, w))"
proof (cases "A n")
  case None
  then have "findSecret (ses_doc s) n = None"
    using secretsOpen_value(2) [OF assms(1)] by simp
  then have "Open x n (s, w) = (Inl (wrap ''%w: %q'' (Sentinel ErrNoSuchSecret)), (s, w))"
    using assms(2) by (simp add: Open_def keyM_def docM_def bindE_def)
  with None show ?thesis by (simp add: ReadString_def)
next
  case (Some pt)
  then obtain e where "findSecret (ses_doc s) n = Some e" "openSecret x (ses_doc s) dk e = Inr pt"
    using secretsOpen_value(1) [OF assms(1)] by blast
  then have "Open x n (s, w) = (Inr \<lparr>rd_buf = pt, rd_src = True, rd_pos = 0, rd_once = False\<rparr>, (s, w))"
    using assms(2) by (simp add: Open_ok_iff)
  with Some show ?thesis by (simp add: ReadString_def readAll_def)
qed

section \<open>The operations refine the abstract ones\<close>

lemma Put_coherent:
  assumes "aead_roundtrip x" "coherent x pf dk A (ses_doc s)" "ses_dataKey s = Some dk"
    and "Put x name (Some (Inr pt)) (s, w) = (Inr (), (s', w'))"
  shows "coherent x pf dk (A(name \<mapsto> pt)) (ses_doc s')"
proof -
  let ?d = "ses_doc s"
  obtain e where sealed: "sealSecret x ?d dk name pt w = (Inr e, w')" and ne: "name \<noteq> []"
    and s': "ses_doc s' = ?d\<lparr>v_Secrets := putSecretIn (v_Secrets ?d) name e\<rparr>"
    using assms(3,4) by (auto simp: Put_ok_iff)
  have name: "s_Name e = name" using sealed by (simp add: sealSecret_ok)
  have frame: "sameFrame ?d (ses_doc s')" by (simp add: s' sameFrame_def)
  have opens: "openSecret x ?d dk e = Inr pt"
    using assms(1) sealed by (rule open_sealed_secret)
  have "findSecret (ses_doc s') n = (if n = name then Some e else findSecret ?d n)" for n
    using name by (simp add: s' findSecret_def findSecretIn_put)
  then have "secretsOpen x dk (A(name \<mapsto> pt)) (ses_doc s')"
    using coherentD(5) [OF assms(2)] opens openSecret_sameFrame [OF frame, of x dk]
    by (simp add: secretsOpen_def)
  moreover have "keysWrap x pf dk (ses_doc s')"
    using coherentD(4) [OF assms(2)] by (rule keysWrap_frame [OF frame, rotated]) (simp add: s')
  moreover have "wfVault (ses_doc s')"
    using coherentD(2) [OF assms(2)] put.wf [of "(x, name, Some (Inr pt))"] assms(4) by simp
  ultimately show ?thesis
    using coherentD(1,3) [OF assms(2)] frame by (simp add: coherent_def sameFrame_def)
qed

lemma Delete_coherent:
  assumes "coherent x pf dk A (ses_doc s)" and "Delete name (s, w) = (Inr (), (s', w'))"
  shows "coherent x pf dk (A(name := None)) (ses_doc s')"
proof -
  let ?d = "ses_doc s"
  obtain ss where del: "deleteSecretIn (v_Secrets ?d) name = Some ss"
    and s': "ses_doc s' = ?d\<lparr>v_Secrets := ss\<rparr>"
    using assms(2) by (auto simp: Delete_ok_iff)
  have frame: "sameFrame ?d (ses_doc s')" by (simp add: s' sameFrame_def)
  have "wfSecrets (v_Secrets ?d)" using coherentD(2) [OF assms(1)] by (simp add: wfVault_def)
  then have "findSecret (ses_doc s') n = (if n = name then None else findSecret ?d n)" for n
    using findSecretIn_delete [OF del] by (simp add: s' findSecret_def)
  then have "secretsOpen x dk (A(name := None)) (ses_doc s')"
    using coherentD(5) [OF assms(1)] openSecret_sameFrame [OF frame, of x dk]
    by (simp add: secretsOpen_def)
  moreover have "keysWrap x pf dk (ses_doc s')"
    using coherentD(4) [OF assms(1)] by (rule keysWrap_frame [OF frame, rotated]) (simp add: s')
  moreover have "wfVault (ses_doc s')"
    using delete.wf [OF assms(2)] coherentD(2) [OF assms(1)] by simp
  ultimately show ?thesis
    using coherentD(1,3) [OF assms(1)] frame by (simp add: coherent_def sameFrame_def)
qed

lemma EnrollKey_coherent:
  assumes "honest x pf auth" "coherent x pf dk A (ses_doc s)" "ses_dataKey s = Some dk"
    and "EnrollKey x auth slot label (s, w) = (Inr (), (s', w'))"
  shows "coherent x pf dk A (ses_doc s')"
proof -
  let ?d = "ses_doc s"
  obtain cred derived w1 w2 entry where
      enrolled: "enrollAndDerive x auth ?d (ses_opts s) (uvRequirement ?d) w = (Inr (cred, derived), w1)"
    and uv: "dr_UserVerified derived = v_UserVerified ?d"
    and wrapped: "wrapDataKey x ?d dk (er_CredentialID cred) (dr_Secret derived) slot (enrollLabel label) w2
        = (Inr entry, w')"
    and s': "ses_doc s' = ?d\<lparr>v_Keys := v_Keys ?d @ [entry]\<rparr>"
    using EnrollKey_ok [OF assms(4)] assms(3) by auto
  have frame: "sameFrame ?d (ses_doc s')" by (simp add: s' sameFrame_def)
  have "unwrapDataKey x ?d entry (dr_Secret derived) = Inr dk"
    using assms(1) wrapped by (intro unwrap_wrapped) (simp_all add: honest_def)
  moreover have "k_CredentialID entry = er_CredentialID cred" using wrapped by (auto simp: wrapDataKey_ok)
  ultimately have opens: "unwrapDataKey x ?d entry (pf (k_CredentialID entry) (v_Salt ?d) (v_UserVerified ?d)) = Inr dk"
    using enrolled_secret(1) [OF assms(1) enrolled] uv by simp
  have "keysWrap x pf dk (ses_doc s')"
    by (rule keysWrap_append [OF frame _ coherentD(4) [OF assms(2)] opens]) (simp add: s')
  moreover have "secretsOpen x dk A (ses_doc s')"
    using coherentD(5) [OF assms(2)] by (rule secretsOpen_frame [OF frame, rotated]) (simp add: s')
  ultimately show ?thesis
    using coherentD(1-3) [OF assms(2)] frame EnrollKey_wf [OF assms(4)]
    by (simp add: coherent_def sameFrame_def)
qed

lemma removeKey_coherent:
  assumes "coherent x pf dk A (ses_doc s)" and "removeKey slot (s, w) = (Inr (), (s', w'))"
  shows "coherent x pf dk A (ses_doc s')"
proof -
  let ?d = "ses_doc s"
  have s': "ses_doc s' = ?d\<lparr>v_Keys := filter (\<lambda>k. k_Slot k \<noteq> slot) (v_Keys ?d)\<rparr>"
    using assms(2) by (auto simp: removeKey_Inr_iff)
  have frame: "sameFrame ?d (ses_doc s')" by (simp add: s' sameFrame_def)
  have "keysWrap x pf dk (ses_doc s')"
    using coherentD(4) [OF assms(1)] by (rule keysWrap_frame [OF frame, rotated]) (auto simp: s')
  moreover have "secretsOpen x dk A (ses_doc s')"
    using coherentD(5) [OF assms(1)] by (rule secretsOpen_frame [OF frame, rotated]) (simp add: s')
  moreover have "wfVault (ses_doc s')"
    using coherentD(2) [OF assms(1)] by (simp add: s' wfVault_def wfKeys_filter)
  ultimately show ?thesis
    using coherentD(1,3) [OF assms(1)] frame by (simp add: coherent_def sameFrame_def)
qed

lemma runOp_coherent:
  assumes "honest x pf auth" "coherent x pf dk A (ses_doc s)" "ses_dataKey s = Some dk"
    and "runOp x auth op (s, w) = (Inr (), (s', w'))"
  shows "coherent x pf dk (absOp op A) (ses_doc s')"
proof (cases op)
  case (OpPut name rd)
  with assms(4) obtain pt where "rd = Some (Inr pt)" by (auto simp: Put_ok_iff)
  with OpPut assms show ?thesis by (auto simp: honest_def intro: Put_coherent)
next
  case (OpDelete name)
  with assms show ?thesis by (auto intro: Delete_coherent)
next
  case (OpEnroll slot label)
  with assms show ?thesis by (auto intro: EnrollKey_coherent)
next
  case (OpRemove slot)
  with assms show ?thesis by (auto simp: RemoveKey_ok_iff intro: removeKey_coherent)
next
  case (OpForceRemove slot)
  with assms show ?thesis by (auto simp: ForceRemoveKey_ok_iff intro: removeKey_coherent)
qed

lemma runOps_coherent:
  assumes "honest x pf auth" and "runOps (runOp x auth) ops (s, w) = (Inr (), (s', w'))"
    and "coherent x pf dk A (ses_doc s)" "ses_dataKey s = Some dk"
  shows "coherent x pf dk (absOps ops A) (ses_doc s') \<and> ses_dataKey s' = Some dk"
  using assms(2-)
proof (induction ops arbitrary: s w A)
  case Nil
  then show ?case by (simp add: absOps_def)
next
  case (Cons op ops)
  then obtain s1 w1 where first: "runOp x auth op (s, w) = (Inr (), (s1, w1))"
    and rest: "runOps (runOp x auth) ops (s1, w1) = (Inr (), (s', w'))"
    by (auto simp: results)
  have "ses_dataKey s1 = Some dk"
    using admin.frame [of "(x, auth, op)" s w s1 w1] first Cons.prems(3) by simp
  with Cons.IH [OF rest runOp_coherent [OF assms(1) Cons.prems(2,3) first]]
  show ?case by (simp add: absOps_def)
qed

end
