(* ===== verification/Samples.thy ===== *)
theory Samples
  imports Refine
begin

text \<open>
  One concrete instance of everything that is a parameter elsewhere, on which the theorems with
  hypotheses are applied: an AEAD that writes key, nonce and additional data in front of the plaintext
  in a self-delimiting code, a derivation that pads, a certificate library with one root and one leaf,
  and a security key whose secrets are a function of credential, salt and user verification. None of
  it is secure and none of it is a model of the standard library; it shows that the hypotheses can
  hold together.
\<close>

section \<open>A self-delimiting AEAD\<close>

definition unary :: "bytes \<Rightarrow> bytes" where
  "unary b = replicate (length b) 1 @ [0] @ b"

lemma replicate_delimited:
  "replicate n (1 :: byte) @ 0 # r = replicate m 1 @ 0 # s \<longleftrightarrow> n = m \<and> r = s"
proof (induction n arbitrary: m)
  case 0
  then show ?case by (cases m) auto
next
  case (Suc n)
  then show ?case by (cases m) auto
qed

interpretation un: prefix_code unary "\<lambda>_. True"
  by unfold_locales (auto simp: unary_def replicate_delimited)

definition toyHeader :: "bytes \<Rightarrow> bytes \<Rightarrow> bytes \<Rightarrow> bytes" where
  "toyHeader k n ad = unary k @ unary n @ unary ad"

definition toySeal :: "bytes \<Rightarrow> bytes \<Rightarrow> bytes \<Rightarrow> bytes \<Rightarrow> bytes" where
  "toySeal k n pt ad = toyHeader k n ad @ pt"

definition toyOpen :: "bytes \<Rightarrow> bytes \<Rightarrow> bytes \<Rightarrow> bytes \<Rightarrow> bytes option" where
  "toyOpen k n c ad =
     (if take (length (toyHeader k n ad)) c = toyHeader k n ad
      then Some (drop (length (toyHeader k n ad)) c) else None)"

lemma toyOpen_Some: "toyOpen k n c ad = Some pt \<longleftrightarrow> c = toySeal k n pt ad"
  by (auto simp: toyOpen_def toySeal_def) (metis append_take_drop_id)

lemma toyHeader_split:
  "toyHeader k n ad @ r = toyHeader k' n' ad' @ s \<longleftrightarrow> k = k' \<and> n = n' \<and> ad = ad' \<and> r = s"
  by (simp add: toyHeader_def un.append_eq_iff)

definition toyHKDF :: "bytes \<Rightarrow> bytes \<Rightarrow> string \<Rightarrow> nat \<Rightarrow> bytes result" where
  "toyHKDF secret salt info n = Inr (take n (secret @ replicate n 0))"

section \<open>A certificate library with one root\<close>

definition toyRoot :: certificate where
  "toyRoot = \<lparr>c_Raw = [9], c_PublicKey = OtherKey, c_Extensions = [], c_SubjectCN = ''root'',
     c_IssuerCN = ''root'', c_NotAfter = (2050, 1, 2)\<rparr>"

definition toyLeaf :: certificate where
  "toyLeaf = \<lparr>c_Raw = [1], c_PublicKey = ECDSAKey [7], c_Extensions = [], c_SubjectCN = ''key'',
     c_IssuerCN = ''root'', c_NotAfter = (2050, 1, 2)\<rparr>"

definition toyParse :: "bytes \<Rightarrow> certificate result" where
  "toyParse der = (if der = [9] then Inr toyRoot else if der = [1] then Inr toyLeaf
     else Inl (errorsNew ''x509''))"

definition toyVerify :: "certificate \<Rightarrow> certPool \<Rightarrow> certPool \<Rightarrow> unit result" where
  "toyVerify leaf roots ints =
     (if list_ex (\<lambda>c. c_SubjectCN c = c_IssuerCN leaf) roots then Inr () else Inl (errorsNew ''x509''))"

definition toyPEM :: "bytes \<Rightarrow> (pemBlock \<times> bytes) option" where
  "toyPEM b = (case b of [] \<Rightarrow> None
     | c # rest \<Rightarrow> Some (\<lparr>pb_Type = ''CERTIFICATE'', pb_Headers = [], pb_Bytes = [c]\<rparr>, rest))"

definition toyX :: x509 where
  "toyX = \<lparr>gcmSeal = toySeal, gcmOpen = toyOpen, hkdfKey = toyHKDF, sha256Sum = (\<lambda>b. b),
     parseCertificate = toyParse, certVerify = toyVerify, ecdsaVerifyASN1 = (\<lambda>pub digest sig. sig = pub @ digest),
     pemDecode = toyPEM, trustedAttestationRootsPEM = [9], attestationIntermediatesPEM = []\<rparr>"

lemma toyX_simps [simp]:
  "gcmSeal toyX = toySeal" "gcmOpen toyX = toyOpen" "hkdfKey toyX = toyHKDF" "sha256Sum toyX b = b"
  "parseCertificate toyX = toyParse" "certVerify toyX = toyVerify"
  "pemDecode toyX = toyPEM"
  by (simp_all add: toyX_def)

lemma toyX_roundtrip [simp]: "aead_roundtrip toyX"
  by (simp add: aead_roundtrip_def toyOpen_Some)

lemma toyX_authentic [simp]: "aead_authentic toyX"
  by (simp add: aead_authentic_def toyOpen_Some)

lemma toyX_binding [simp]: "aead_binding toyX"
  by (auto simp: aead_binding_def toyOpen_Some toySeal_def toyHeader_split)

lemma toyX_empty_pool [simp]: "empty_pool_trusts_nobody toyX"
  by (simp add: empty_pool_trusts_nobody_def toyVerify_def)

lemma toyX_pem [simp]: "pem_shrinks toyX"
  by (auto simp: pem_shrinks_def toyPEM_def split: list.splits)

section \<open>A security key\<close>

text \<open>The secret of the key with identifier \<open>i\<close>, over a salt, for both user verifications.\<close>

definition toyPRF :: "bytes \<Rightarrow> bytes \<Rightarrow> bool \<Rightarrow> bytes" where
  "toyPRF c salt u = boolByte u # c @ salt"

definition toyEnroll :: "byte \<Rightarrow> EnrollRequest \<Rightarrow> EnrollResult result" where
  "toyEnroll i req = Inr \<lparr>er_CredentialID = [i], er_PRFEnabled = True, er_ResidentKey = False,
     er_AttestationFormat = ''packed'', er_AttestationAlg = -7, er_AttestationSignature = [7, i, 5],
     er_AuthenticatorData = [i], er_ClientDataHash = [5], er_AttestationCerts = [[1]]\<rparr>"

definition toyDerive :: "byte \<Rightarrow> DeriveRequest \<Rightarrow> DeriveResult result" where
  "toyDerive i req =
     (if [i] \<in> set (dq_CredentialIDs req) then
        Inr \<lparr>dr_Secret = toyPRF [i] (dq_Salt req) (dq_UV req = UVRequired), dr_CredentialID = [i],
             dr_UserPresent = True, dr_UserVerified = (dq_UV req = UVRequired)\<rparr>
      else Inl (errorsNew ''NTE_NOT_FOUND''))"

definition toyKey :: "byte \<Rightarrow> unit Authenticator" where
  "toyKey i = \<lparr>auth_Enroll = (\<lambda>req d. (toyEnroll i req, d)), auth_Derive = (\<lambda>req d. (toyDerive i req, d))\<rparr>"

text \<open>A key whose provider reads only the first \<open>n\<close> bytes of the salt.\<close>

definition truncatingKey :: "nat \<Rightarrow> byte \<Rightarrow> unit Authenticator" where
  "truncatingKey n i = \<lparr>auth_Enroll = (\<lambda>req d. (toyEnroll i req, d)),
     auth_Derive = (\<lambda>req d. (toyDerive i (req\<lparr>dq_Salt := take n (dq_Salt req)\<rparr>), d))\<rparr>"

lemma toyKey_answers [simp]: "answers_from_allow_list (toyKey i)" "answers_from_allow_list (truncatingKey n i)"
  by (auto simp: answers_from_allow_list_def toyKey_def truncatingKey_def toyDerive_def split: if_splits)

lemma toyKey_derives [simp]: "derives_by toyPRF (toyKey i)"
  by (auto simp: derives_by_def toyKey_def toyDerive_def split: if_splits)

lemma truncatingKey_derives [simp]: "derives_by (\<lambda>c s. toyPRF c (take n s)) (truncatingKey n i)"
  by (auto simp: derives_by_def truncatingKey_def toyDerive_def split: if_splits)

lemma toyKey_honest [simp]: "honest toyX toyPRF (toyKey i)"
  by (simp add: honest_def)

section \<open>A world and a vault\<close>

text \<open>The entropy source counts its draws; it fails from draw \<open>limit\<close> on.\<close>

definition toyWorldTo :: "nat \<Rightarrow> unit world" where
  "toyWorldTo limit = \<lparr>w_device = (), w_entropy = (\<lambda>d. if d < limit then Some (\<lambda>i. of_nat d) else None),
     w_draws = 0, w_gestures = []\<rparr>"

definition toyWorld :: "unit world" where
  "toyWorld = toyWorldTo 100"

definition toyOpts :: Options where
  "toyOpts = \<lparr>o_RPID = ''v.invalid'', o_RPName = '''', o_Roots = None, o_Label = ''''\<rparr>"

section \<open>Runs on it\<close>

lemma bindE_apply:
  "bindE m f w = (case m w of (Inl e, w') \<Rightarrow> (Inl e, w') | (Inr x, w') \<Rightarrow> f x w')"
  by (simp add: bindE_def)

lemma wrapE_apply: "wrapE g m w = (case m w of (r, w') \<Rightarrow> (wrapErr g r, w'))"
  by (simp add: wrapE_def)

lemma randomBytes_apply:
  "randomBytes n w =
     (case w_entropy w (w_draws w) of
        None \<Rightarrow> (Inl (wrap ''touchvault: reading random bytes: %w'' (errorsNew ''crypto/rand'')),
                 w\<lparr>w_draws := Suc (w_draws w)\<rparr>)
      | Some g \<Rightarrow> (Inr (map g [0..<n]), w\<lparr>w_draws := Suc (w_draws w)\<rparr>))"
  by (simp add: randomBytes_def Let_def)

lemma callEnroll_toy:
  "callEnroll (toyKey i) req w =
     (toyEnroll i req, w\<lparr>w_device := (), w_gestures := w_gestures w @ [GEnroll req]\<rparr>)"
  "callEnroll (truncatingKey n i) req w =
     (toyEnroll i req, w\<lparr>w_device := (), w_gestures := w_gestures w @ [GEnroll req]\<rparr>)"
  by (simp_all add: callEnroll_def toyKey_def truncatingKey_def)

lemma callDerive_toy:
  "callDerive (toyKey i) req w =
     (toyDerive i req, w\<lparr>w_device := (), w_gestures := w_gestures w @ [GDerive req]\<rparr>)"
  "callDerive (truncatingKey n i) req w =
     (toyDerive i (req\<lparr>dq_Salt := take n (dq_Salt req)\<rparr>),
      w\<lparr>w_device := (), w_gestures := w_gestures w @ [GDerive req]\<rparr>)"
  by (simp_all add: callDerive_def toyKey_def truncatingKey_def)

lemma flipLast_same [simp]: "salt \<noteq> [] \<Longrightarrow> (flipLast salt = salt) = False"
  using flipLast_neq by auto

lemma toy_genuine:
  "verifyGenuineHardware toyX \<lparr>er_CredentialID = [i], er_PRFEnabled = True, er_ResidentKey = False,
     er_AttestationFormat = ''packed'', er_AttestationAlg = -7, er_AttestationSignature = [7, i, 5],
     er_AuthenticatorData = [i], er_ClientDataHash = [5], er_AttestationCerts = [[1]]\<rparr> None = Inr ()"
  unfolding verifyGenuineHardware_ok genuine_def
  by (intro conjI exI [of _ "[1]"] exI [of _ "[]"] exI [of _ toyLeaf] exI [of _ "[7]"])
     (simp_all add: toyParse_def toyX_def toyVerify_def anchors_def trustedFIDORoots_def toyPEM_def
        toyLeaf_def toyRoot_def)

lemmas toyRun = bindE_apply wrapE_apply randomBytes_apply callEnroll_toy callDerive_toy
  Options_validate_def newSalt_def newDataKey_def enrollAndDerive_def toyEnroll_def toyDerive_def
  firstDerive_def verifyDerivationDependsOnSalt_def probeRequest_def wrapDataKey_def deriveKEK_def
  seal_def toyHKDF_def toyWorldTo_def toyPRF_def SaltLen_def dataKeyLen_def gcmNonceSize_def
  userIDLen_def map_replicate_const toy_genuine

text \<open>What \<open>Create\<close> returns on key \<open>i\<close>: the salt is draw 0, the user handle draw 1, the data key
  draw 2 and the nonce of the wrapped copy draw 3.\<close>

definition toyDoc0 :: sealedVault where
  "toyDoc0 = createdDoc toyOpts (replicate 32 0) False True"

definition toyDataKey :: bytes where
  "toyDataKey = replicate 32 2"

definition toyEntry :: "byte \<Rightarrow> sealedKey" where
  "toyEntry i = \<lparr>k_Slot = 0, k_Label = ''primary'', k_CredentialID = [i], k_Nonce = replicate 12 3,
     k_Wrapped = toySeal (take 32 (toyPRF [i] (replicate 32 0) False @ replicate 32 0)) (replicate 12 3)
       toyDataKey (keyAAD toyDoc0 0 [i])\<rparr>"

definition toySession :: "byte \<Rightarrow> session" where
  "toySession i = \<lparr>ses_doc = toyDoc0\<lparr>v_Keys := [toyEntry i]\<rparr>, ses_opts = toyOpts,
     ses_dataKey = Some toyDataKey\<rparr>"

lemma toy_create:
  "\<exists>gs. Create toyX (toyKey i) toyOpts (toyWorldTo 100) =
     (Inr (toySession i), \<lparr>w_device = (), w_entropy = w_entropy (toyWorldTo 100), w_draws = 4, w_gestures = gs\<rparr>)"
  by (simp add: Create_unfold toyOpts_def toyRun toySession_def toyDoc0_def toyEntry_def toyDataKey_def
        optsLabel_def DefaultLabel_def firstSlot_def)

end
