(* ===== verification/Json.thy ===== *)
theory Json
  imports Errors
begin

text \<open>
  What the program uses of \<open>encoding/json\<close> and \<open>encoding/base64\<close>: writing a value compactly, with the
  escaping \<open>json.Marshal\<close> applies to strings, and reading a text back into a value tree. A text is a
  list of bytes. Strings are encoded as \<open>json.Marshal\<close> does: HTML characters and line separators are
  escaped, and a byte that is not part of valid UTF-8 becomes U+FFFD.
\<close>

section \<open>UTF-8\<close>

definition code :: "char \<Rightarrow> nat" where
  "code c = of_char c"

definition within :: "nat \<Rightarrow> nat \<Rightarrow> char \<Rightarrow> bool" where
  "within lo hi c \<longleftrightarrow> lo \<le> code c \<and> code c \<le> hi"

text \<open>The length of the valid encoding a string starts with, 0 if it starts with none
  (\<open>utf8.DecodeRuneInString\<close>).\<close>

fun utf8Len :: "string \<Rightarrow> nat" where
  "utf8Len [] = 0"
| "utf8Len (c # cs) =
     (if code c < 128 then 1
      else if within 194 223 c then
        (case cs of c1 # r \<Rightarrow> if within 128 191 c1 then 2 else 0 | [] \<Rightarrow> 0)
      else if within 224 239 c then
        (case cs of c1 # c2 # r \<Rightarrow>
           if within (if code c = 224 then 160 else 128) (if code c = 237 then 159 else 191) c1
              \<and> within 128 191 c2 then 3 else 0
         | _ \<Rightarrow> 0)
      else if within 240 244 c then
        (case cs of c1 # c2 # c3 # r \<Rightarrow>
           if within (if code c = 240 then 144 else 128) (if code c = 244 then 143 else 191) c1
              \<and> within 128 191 c2 \<and> within 128 191 c3 then 4 else 0
         | _ \<Rightarrow> 0)
      else 0)"

lemma upTo3:
  assumes "cs = [] \<Longrightarrow> P" "\<And>a. cs = [a] \<Longrightarrow> P" "\<And>a b. cs = [a, b] \<Longrightarrow> P"
    "\<And>a b c r. cs = a # b # c # r \<Longrightarrow> P"
  shows P
  using assms by (metis neq_Nil_conv)

lemma utf8Len_le: "utf8Len s \<le> length s"
  by (cases s) (auto split: list.splits)

lemma utf8Len_zero_or: "utf8Len (c # cs) = 0 \<or> (\<exists>m. utf8Len (c # cs) = Suc m)"
  by (cases "utf8Len (c # cs)") auto

lemma utf8_shrinks:
  "0 < utf8Len (c # cs) \<Longrightarrow> Suc (length cs) - utf8Len (c # cs) < Suc (length cs)"
  by linarith

text \<open>The length depends only on the encoding itself, not on what follows it.\<close>

lemma utf8Len_append:
  assumes "utf8Len s \<noteq> 0"
  shows "utf8Len (s @ t) = utf8Len s"
proof (cases s)
  case Nil
  then show ?thesis using assms by simp
next
  case (Cons c cs)
  then show ?thesis using assms
    by (cases cs rule: upTo3) (simp_all split: if_splits)
qed

lemma utf8Len_take:
  assumes "utf8Len s \<noteq> 0"
  shows "utf8Len (take (utf8Len s) s @ t) = utf8Len s"
proof (cases s)
  case Nil
  then show ?thesis using assms by simp
next
  case (Cons c cs)
  then show ?thesis using assms
    by (cases cs rule: upTo3) (simp_all split: if_splits)
qed

declare utf8Len.simps(2) [simp del]

definition replacement :: string where
  "replacement = [CHR 0xEF, CHR 0xBF, CHR 0xBD]"

text \<open>What a string becomes when each invalid byte is replaced, and the strings that stay.\<close>

function sanitize :: "string \<Rightarrow> string" where
  "sanitize [] = []"
| "sanitize (c # cs) =
     (if utf8Len (c # cs) = 0 then replacement @ sanitize cs
      else take (utf8Len (c # cs)) (c # cs) @ sanitize (drop (utf8Len (c # cs)) (c # cs)))"
  by pat_completeness auto
termination
  by (relation "measure length") (auto simp: utf8_shrinks)

function validUTF8 :: "string \<Rightarrow> bool" where
  "validUTF8 [] = True"
| "validUTF8 (c # cs) =
     (if utf8Len (c # cs) = 0 then False else validUTF8 (drop (utf8Len (c # cs)) (c # cs)))"
  by pat_completeness auto
termination
  by (relation "measure length") (auto simp: utf8_shrinks)

declare sanitize.simps(2) [simp del] validUTF8.simps(2) [simp del]

lemma sanitize_valid: "validUTF8 s \<Longrightarrow> sanitize s = s"
proof (induction s rule: validUTF8.induct)
  case 1
  then show ?case by simp
next
  case (2 c cs)
  then show ?case by (auto simp: validUTF8.simps(2) sanitize.simps(2) split: if_splits)
qed

text \<open>The UTF-8 encoding of a code point (\<open>utf8.AppendRune\<close>).\<close>

definition utf8Encode :: "nat \<Rightarrow> string" where
  "utf8Encode n =
     (if n < 128 then [char_of n]
      else if n < 2048 then [char_of (192 + n div 64), char_of (128 + n mod 64)]
      else if n < 65536 then
        [char_of (224 + n div 4096), char_of (128 + n div 64 mod 64), char_of (128 + n mod 64)]
      else [char_of (240 + n div 262144), char_of (128 + n div 4096 mod 64),
            char_of (128 + n div 64 mod 64), char_of (128 + n mod 64)])"

section \<open>Writing strings\<close>

definition quote :: char where
  "quote = CHR 0x22"

definition backslash :: char where
  "backslash = CHR 0x5C"

text \<open>One ASCII character of \<open>appendString\<close> with HTML escaping.\<close>

definition escapeASCII :: "char \<Rightarrow> string" where
  "escapeASCII c =
     (if c = quote \<or> c = backslash then [backslash, c]
      else if c = CHR 0x08 then [backslash, CHR ''b'']
      else if c = CHR 0x0C then [backslash, CHR ''f'']
      else if c = CHR 0x0A then [backslash, CHR ''n'']
      else if c = CHR 0x0D then [backslash, CHR ''r'']
      else if c = CHR 0x09 then [backslash, CHR ''t'']
      else if code c < 32 \<or> c \<in> {CHR ''<'', CHR ''>'', CHR ''&''} then
        [backslash, CHR ''u'', CHR ''0'', CHR ''0'', hexDigit (code c div 16), hexDigit (code c mod 16)]
      else [c])"

definition lineSeparator :: string where
  "lineSeparator = [CHR 0xE2, CHR 0x80, CHR 0xA8]"

definition paragraphSeparator :: string where
  "paragraphSeparator = [CHR 0xE2, CHR 0x80, CHR 0xA9]"

text \<open>One character of valid UTF-8, as it is written.\<close>

definition escapeRune :: "string \<Rightarrow> string" where
  "escapeRune u =
     (if length u = 1 then escapeASCII (hd u)
      else if u = lineSeparator then backslash # ''u2028''
      else if u = paragraphSeparator then backslash # ''u2029''
      else u)"

function escapeString :: "string \<Rightarrow> string" where
  "escapeString [] = []"
| "escapeString (c # cs) =
     (if utf8Len (c # cs) = 0 then backslash # ''ufffd'' @ escapeString cs
      else escapeRune (take (utf8Len (c # cs)) (c # cs)) @ escapeString (drop (utf8Len (c # cs)) (c # cs)))"
  by pat_completeness auto
termination
  by (relation "measure length") (auto simp: utf8_shrinks)

declare escapeString.simps(2) [simp del]

section \<open>Reading strings\<close>

definition hexVal :: "char \<Rightarrow> nat option" where
  "hexVal c =
     (if within 48 57 c then Some (code c - 48)
      else if within 97 102 c then Some (code c - 87)
      else if within 65 70 c then Some (code c - 55)
      else None)"

text \<open>Four hexadecimal digits (\<open>getu4\<close>).\<close>

fun hex4 :: "string \<Rightarrow> (nat \<times> string) option" where
  "hex4 (a # b # c # d # r) =
     (case (hexVal a, hexVal b, hexVal c, hexVal d) of
        (Some a', Some b', Some c', Some d') \<Rightarrow> Some (4096 * a' + 256 * b' + 16 * c' + d', r)
      | _ \<Rightarrow> None)"
| "hex4 _ = None"

text \<open>A high surrogate takes the low one escaped behind it; a lone surrogate reads as U+FFFD.\<close>

definition surrogate :: "nat \<Rightarrow> string \<Rightarrow> nat \<times> string" where
  "surrogate n r =
     (if n < 55296 \<or> 57343 < n then (n, r)
      else case r of
        b # u # r1 \<Rightarrow>
          (if b = backslash \<and> u = CHR ''u'' then
             case hex4 r1 of
               None \<Rightarrow> (65533, r)
             | Some (m, r2) \<Rightarrow>
                 if n < 56320 \<and> 56320 \<le> m \<and> m \<le> 57343
                 then (65536 + (n - 55296) * 1024 + (m - 56320), r2) else (65533, r)
           else (65533, r))
      | _ \<Rightarrow> (65533, r))"

definition simpleEscape :: "char \<Rightarrow> char option" where
  "simpleEscape e =
     (if e = quote \<or> e = backslash \<or> e = CHR ''/'' then Some e
      else if e = CHR ''b'' then Some (CHR 0x08)
      else if e = CHR ''f'' then Some (CHR 0x0C)
      else if e = CHR ''n'' then Some (CHR 0x0A)
      else if e = CHR ''r'' then Some (CHR 0x0D)
      else if e = CHR ''t'' then Some (CHR 0x09)
      else None)"

definition prepend :: "string \<Rightarrow> (string \<times> 'a) option \<Rightarrow> (string \<times> 'a) option" where
  "prepend u r = map_option (\<lambda>(s, rest). (u @ s, rest)) r"

lemma prepend_simps [simp]:
  "prepend u None = None"
  "prepend u (Some (s, rest)) = Some (u @ s, rest)"
  by (simp_all add: prepend_def)

lemma hex4_shrinks: "hex4 r = Some (n, r1) \<Longrightarrow> length r1 < length r"
  by (induction r rule: hex4.induct) (auto split: option.splits prod.splits)

lemma surrogate_shrinks: "surrogate n r = (u, r2) \<Longrightarrow> length r2 \<le> length r"
  by (auto simp: surrogate_def split: if_splits list.splits option.splits dest!: hex4_shrinks)

text \<open>
  The body of a string and its closing quote: the value, with invalid UTF-8 replaced, and what
  follows. \<open>None\<close> is a syntax error.
\<close>

function unquote :: "string \<Rightarrow> (string \<times> string) option" where
  "unquote [] = None"
| "unquote (c # cs) =
     (if c = quote then Some ([], cs)
      else if c = backslash then
        (case cs of
           [] \<Rightarrow> None
         | e # r \<Rightarrow>
             if e = CHR ''u'' then
               (case hex4 r of
                  None \<Rightarrow> None
                | Some (n, r1) \<Rightarrow>
                    (case surrogate n r1 of (u, r2) \<Rightarrow> prepend (utf8Encode u) (unquote r2)))
             else (case simpleEscape e of None \<Rightarrow> None | Some x \<Rightarrow> prepend [x] (unquote r)))
      else if code c < 32 then None
      else if utf8Len (c # cs) = 0 then prepend replacement (unquote cs)
      else prepend (take (utf8Len (c # cs)) (c # cs)) (unquote (drop (utf8Len (c # cs)) (c # cs))))"
  by pat_completeness auto
termination
  by (relation "measure length")
    (auto simp: utf8_shrinks dest!: hex4_shrinks surrogate_shrinks [OF sym])

declare unquote.simps(2) [simp del]

section \<open>Strings round trip\<close>

lemma hexVal_hexDigit: "n < 16 \<Longrightarrow> hexVal (hexDigit n) = Some n"
proof -
  have "list_all (\<lambda>n. hexVal (hexDigit n) = Some n) [0..<16]"
    by (simp add: upt_rec hexVal_def hexDigit_def within_def code_def)
  then show "n < 16 \<Longrightarrow> hexVal (hexDigit n) = Some n" by (simp add: list_all_iff)
qed

lemma hexVal_zero: "hexVal (CHR ''0'') = Some 0"
  by (simp add: hexVal_def within_def code_def)

lemma utf8Len_ascii: "utf8Len (c # cs) = 1 \<longleftrightarrow> code c < 128"
  by (auto simp: utf8Len.simps(2) split: list.splits)

lemma utf8Encode_ascii: "n < 128 \<Longrightarrow> utf8Encode n = [char_of n]"
  by (simp add: utf8Encode_def)

text \<open>What a single ASCII character is written as reads back as that character.\<close>

lemma unquote_plain:
  "code c < 128 \<Longrightarrow> 32 \<le> code c \<Longrightarrow> c \<noteq> quote \<Longrightarrow> c \<noteq> backslash
   \<Longrightarrow> unquote (c # r) = prepend [c] (unquote r)"
  using utf8Len_ascii [of c r] by (simp add: unquote.simps(2))

lemma unquote_simple:
  "simpleEscape e = Some x \<Longrightarrow> unquote (backslash # e # r) = prepend [x] (unquote r)"
  by (auto simp: unquote.simps(2) quote_def backslash_def simpleEscape_def split: if_splits)

lemma unquote_u:
  assumes "hex4 (h @ r) = Some (n, r)" and "n < 55296 \<or> 57343 < n"
  shows "unquote (backslash # CHR ''u'' # h @ r) = prepend (utf8Encode n) (unquote r)"
  using assms by (auto simp: unquote.simps(2) quote_def backslash_def surrogate_def)

lemma unquote_escapeASCII:
  assumes "code c < 128"
  shows "unquote (escapeASCII c @ r) = prepend [c] (unquote r)"
proof -
  have u: "unquote (backslash # CHR ''u'' # [CHR ''0'', CHR ''0'', hexDigit (code c div 16), hexDigit (code c mod 16)] @ r)
        = prepend (utf8Encode (code c)) (unquote r)"
    using assms by (intro unquote_u) (simp_all add: hexVal_zero hexVal_hexDigit)
  have c: "utf8Encode (code c) = [c]"
    using assms by (simp add: utf8Encode_ascii) (simp add: code_def)
  consider "c = quote \<or> c = backslash"
    | "c \<in> {CHR 0x08, CHR 0x0C, CHR 0x0A, CHR 0x0D, CHR 0x09}"
    | "c \<notin> {quote, backslash, CHR 0x08, CHR 0x0C, CHR 0x0A, CHR 0x0D, CHR 0x09}"
        "code c < 32 \<or> c \<in> {CHR ''<'', CHR ''>'', CHR ''&''}"
    | "c \<notin> {quote, backslash, CHR 0x08, CHR 0x0C, CHR 0x0A, CHR 0x0D, CHR 0x09}"
        "\<not> (code c < 32 \<or> c \<in> {CHR ''<'', CHR ''>'', CHR ''&''})"
    by blast
  then show ?thesis
  proof cases
    case 1
    then have "escapeASCII c = [backslash, c]" "simpleEscape c = Some c"
      by (auto simp: escapeASCII_def simpleEscape_def)
    then show ?thesis by (simp add: unquote_simple)
  next
    case 2
    then have "\<exists>e. escapeASCII c = [backslash, e] \<and> simpleEscape e = Some c"
      by (elim insertE emptyE) (simp_all add: escapeASCII_def simpleEscape_def quote_def backslash_def)
    then show ?thesis by (auto simp: unquote_simple)
  next
    case 3
    then have "escapeASCII c = backslash # CHR ''u'' # [CHR ''0'', CHR ''0'', hexDigit (code c div 16), hexDigit (code c mod 16)]"
      by (simp add: escapeASCII_def)
    then show ?thesis using u c by simp
  next
    case 4
    then have "escapeASCII c = [c]"
      by (simp add: escapeASCII_def)
    then show ?thesis using 4 assms by (simp add: unquote_plain)
  qed
qed

lemma unquote_escapeRune:
  assumes "utf8Len (c # cs) \<noteq> 0"
  shows "unquote (escapeRune (take (utf8Len (c # cs)) (c # cs)) @ r)
    = prepend (take (utf8Len (c # cs)) (c # cs)) (unquote r)"
proof -
  define u where "u = take (utf8Len (c # cs)) (c # cs)"
  have len: "length u = utf8Len (c # cs)"
    using utf8Len_le [of "c # cs"] by (simp add: u_def)
  have again: "utf8Len (u @ r) = length u"
    unfolding len unfolding u_def by (rule utf8Len_take [OF assms])
  obtain u' where u: "u = c # u'"
    using assms unfolding u_def by (cases "utf8Len (c # cs)") auto
  have "unquote (escapeRune u @ r) = prepend u (unquote r)"
  proof (cases "length u = 1")
    case True
    then have "u = [c]" "code c < 128"
      using utf8Len_ascii [of c cs] u len by auto
    then show ?thesis by (simp add: escapeRune_def unquote_escapeASCII)
  next
    case False
    then have big: "\<not> code c < 128"
      using utf8Len_ascii [of c cs] len by simp
    then have c: "c \<noteq> quote" "c \<noteq> backslash" "\<not> code c < 32"
      by (auto simp: quote_def backslash_def code_def)
    have plain: "unquote (u @ r) = prepend u (unquote r)"
      using again c by (simp add: u unquote.simps(2))
    have line: "unquote (backslash # CHR ''u'' # ''2028'' @ r) = prepend (utf8Encode 8232) (unquote r)"
      by (rule unquote_u) (simp_all add: hexVal_def within_def code_def)
    have para: "unquote (backslash # CHR ''u'' # ''2029'' @ r) = prepend (utf8Encode 8233) (unquote r)"
      by (rule unquote_u) (simp_all add: hexVal_def within_def code_def)
    have e: "utf8Encode 8232 = lineSeparator" "utf8Encode 8233 = paragraphSeparator"
      by (simp_all add: utf8Encode_def lineSeparator_def paragraphSeparator_def char_of_def bit_Suc_0_iff)
    show ?thesis
      using plain line para False by (simp add: escapeRune_def e)
  qed
  then show ?thesis unfolding u_def .
qed

lemma unquote_replacement:
  "unquote (backslash # ''ufffd'' @ r) = prepend replacement (unquote r)"
proof -
  have "unquote (backslash # CHR ''u'' # ''fffd'' @ r) = prepend (utf8Encode 65533) (unquote r)"
    by (rule unquote_u) (simp_all add: hexVal_def within_def code_def)
  moreover have "utf8Encode 65533 = replacement"
    by (simp add: utf8Encode_def replacement_def char_of_def bit_Suc_0_iff)
  ultimately show ?thesis by simp
qed

theorem unquote_escapeString: "unquote (escapeString s @ quote # r) = Some (sanitize s, r)"
proof (induction s rule: escapeString.induct)
  case 1
  then show ?case by (simp add: unquote.simps(2))
next
  case (2 c cs)
  show ?case
  proof (cases "utf8Len (c # cs) = 0")
    case True
    then show ?thesis
      using 2(1) unquote_replacement [of "escapeString cs @ quote # r"]
      by (simp add: escapeString.simps(2) sanitize.simps(2))
  next
    case False
    then show ?thesis
      using 2(2) unquote_escapeRune [OF False] by (simp add: escapeString.simps(2) sanitize.simps(2))
  qed
qed

lemma unquote_shrinks: "unquote s = Some (x, r) \<Longrightarrow> length r < length s"
proof (induction s arbitrary: x rule: unquote.induct)
  case 1
  then show ?case by simp
next
  case (2 c cs)
  have dr: "0 < utf8Len (c # cs) \<Longrightarrow> length (drop (utf8Len (c # cs)) (c # cs)) \<le> length cs"
    by simp
  consider "c = quote" | "c \<noteq> quote" "c = backslash" | "c \<noteq> quote" "c \<noteq> backslash" by blast
  then show ?case
  proof cases
    case 1
    then show ?thesis using 2(5) by (simp add: unquote.simps(2))
  next
    case 2
    then obtain e r' where cs: "cs = e # r'"
      using "2.prems" by (cases cs) (auto simp: unquote.simps(2))
    show ?thesis
    proof (cases "e = CHR ''u''")
      case True
      then obtain n r1 u r2 y where "hex4 r' = Some (n, r1)" "surrogate n r1 = (u, r2)" "unquote r2 = Some (y, r)"
        using 2 "2.prems" cs by (auto simp: unquote.simps(2) prepend_def split: option.splits prod.splits)
      then show ?thesis
        using "2.IH"(1) [OF 2 cs True] hex4_shrinks surrogate_shrinks cs by fastforce
    next
      case False
      then obtain z y where "simpleEscape e = Some z" "unquote r' = Some (y, r)"
        using 2 "2.prems" cs by (auto simp: unquote.simps(2) prepend_def split: option.splits prod.splits)
      then show ?thesis
        using "2.IH"(2) [OF 2 cs False] cs by fastforce
    qed
  next
    case 3
    then have "\<not> code c < 32"
      using "2.prems" by (auto simp: unquote.simps(2))
    then show ?thesis
      using 3 "2.IH"(3) [OF 3] "2.IH"(4) [OF 3] "2.prems" dr
      by (cases "utf8Len (c # cs) = 0") (fastforce simp: unquote.simps(2) prepend_def)+
  qed
qed

text \<open>ASCII text is valid, and most of it is written as it is.\<close>

lemma validUTF8_ascii: "\<forall>c \<in> set s. code c < 128 \<Longrightarrow> validUTF8 s"
proof (induction s)
  case (Cons c s)
  then have "utf8Len (c # s) = 1" by (simp only: utf8Len_ascii) simp
  then show ?case using Cons by (simp add: validUTF8.simps(2))
qed simp

lemma escapeString_plain:
  "\<forall>c \<in> set s. code c < 128 \<and> escapeASCII c = [c] \<Longrightarrow> escapeString s = s"
proof (induction s)
  case (Cons c s)
  then have "utf8Len (c # s) = 1" by (simp only: utf8Len_ascii) simp
  then show ?case using Cons by (simp add: escapeString.simps(2) escapeRune_def)
qed simp

section \<open>What is read is valid UTF-8\<close>

lemma validUTF8_append: "validUTF8 a \<Longrightarrow> validUTF8 b \<Longrightarrow> validUTF8 (a @ b)"
proof (induction a rule: validUTF8.induct)
  case 1
  then show ?case by simp
next
  case (2 c cs)
  have ne: "utf8Len (c # cs) \<noteq> 0" and rest: "validUTF8 (drop (utf8Len (c # cs)) (c # cs))"
    using 2(2) by (auto simp: validUTF8.simps(2) split: if_splits)
  have len: "utf8Len (c # cs @ b) = utf8Len (c # cs)"
    using utf8Len_append [OF ne, of b] by simp
  have "drop (utf8Len (c # cs)) (c # cs @ b) = drop (utf8Len (c # cs)) (c # cs) @ b"
    using utf8Len_le [of "c # cs"] by (simp flip: append_Cons)
  then show ?case
    using 2(1) [OF _ rest 2(3)] ne by (simp add: validUTF8.simps(2) [of c "cs @ b"] len)
qed

lemma validUTF8_one: "utf8Len u = length u \<Longrightarrow> u \<noteq> [] \<Longrightarrow> validUTF8 u"
  by (cases u) (auto simp: validUTF8.simps(2))

lemma validUTF8_take: "utf8Len s \<noteq> 0 \<Longrightarrow> validUTF8 (take (utf8Len s) s)"
  using utf8Len_take [of s "[]"] utf8Len_le [of s] by (intro validUTF8_one) auto

lemma code_char_of: "n < 256 \<Longrightarrow> code (char_of n) = n"
  by (simp add: code_def)

lemma utf8Encode_valid:
  assumes "n < 1114112" and "n < 55296 \<or> 57343 < n"
  shows "validUTF8 (utf8Encode n)"
proof -
  have m: "k mod 64 \<le> 63" for k :: nat
    using mod_less_divisor [of 64 k] by linarith
  consider "n < 128" | "128 \<le> n" "n < 2048" | "2048 \<le> n" "n < 65536" | "65536 \<le> n" by linarith
  then have "utf8Len (utf8Encode n) = length (utf8Encode n)"
  proof cases
    case 1
    then show ?thesis by (simp add: utf8Encode_def utf8Len.simps(2) code_char_of)
  next
    case 2
    then have "2 \<le> n div 64" "n div 64 < 32" by auto
    with 2 show ?thesis by (simp add: utf8Encode_def utf8Len.simps(2) within_def code_char_of)
  next
    case 3
    then have d: "n div 4096 < 16" "n div 64 mod 64 < 64" by auto
    have low: "n div 4096 = 0 \<Longrightarrow> 32 \<le> n div 64 \<and> n div 64 \<le> 63"
      using 3 by (auto simp: div_eq_0_iff)
    have high: "n div 64 mod 64 \<le> 31" if "n div 4096 = 13"
    proof -
      have "n div 64 div 64 = 13" using that by (simp flip: div_mult2_eq)
      moreover have "n < 55296" using assms(2) that by auto
      then have "n div 64 < 864" by auto
      ultimately show ?thesis by (simp add: modulo_nat_def)
    qed
    show ?thesis
      using 3 d low high m [of n] m [of "n div 64"] by (simp add: utf8Encode_def utf8Len.simps(2) within_def code_char_of)
  next
    case 4
    then have d: "n div 262144 < 5" "n div 4096 mod 64 < 64"
      using assms(1) by auto
    have low: "n div 262144 = 0 \<Longrightarrow> 16 \<le> n div 4096 \<and> n div 4096 \<le> 63"
      using 4 by (auto simp: div_eq_0_iff)
    have high: "n div 4096 mod 64 \<le> 15" if "n div 262144 = 4"
    proof -
      have "n div 4096 div 64 = 4" using that by (simp flip: div_mult2_eq)
      moreover have "n div 4096 < 272" using assms(1) by auto
      ultimately show ?thesis by (simp add: modulo_nat_def)
    qed
    show ?thesis
      using 4 d low high m [of n] m [of "n div 64"] m [of "n div 4096"] by (simp add: utf8Encode_def utf8Len.simps(2) within_def code_char_of)
  qed
  moreover have "utf8Encode n \<noteq> []" by (simp add: utf8Encode_def)
  ultimately show ?thesis by (rule validUTF8_one)
qed

lemma hexVal_less: "hexVal c = Some v \<Longrightarrow> v < 16"
  by (auto simp: hexVal_def within_def split: if_splits)

lemma hex4_less: "hex4 s = Some (n, r) \<Longrightarrow> n < 65536"
  by (induction s rule: hex4.induct) (auto split: option.splits dest!: hexVal_less)

lemma surrogate_scalar:
  assumes "surrogate n r = (u, r2)" and "n < 65536"
  shows "u < 1114112 \<and> (u < 55296 \<or> 57343 < u)"
  using assms by (auto simp: surrogate_def split: if_splits list.splits option.splits)

lemma simpleEscape_ascii: "simpleEscape e = Some x \<Longrightarrow> code x < 128"
  by (auto simp: simpleEscape_def quote_def backslash_def code_def split: if_splits)

lemma replacement_valid: "validUTF8 replacement"
  by (rule validUTF8_one) (simp_all add: replacement_def utf8Len.simps(2) within_def code_def)

lemma prepend_valid:
  "prepend u m = Some (x, r) \<Longrightarrow> validUTF8 u \<Longrightarrow> (\<And>y. m = Some (y, r) \<Longrightarrow> validUTF8 y) \<Longrightarrow> validUTF8 x"
  by (auto simp: prepend_def intro: validUTF8_append)

theorem unquote_valid: "unquote s = Some (x, r) \<Longrightarrow> validUTF8 x"
proof (induction s arbitrary: x rule: unquote.induct)
  case 1
  then show ?case by simp
next
  case (2 c cs)
  consider "c = quote" | "c \<noteq> quote" "c = backslash" | "c \<noteq> quote" "c \<noteq> backslash" by blast
  then show ?case
  proof cases
    case 1
    then show ?thesis using 2(5) by (simp add: unquote.simps(2))
  next
    case 2
    then obtain e r' where cs: "cs = e # r'"
      using "2.prems" by (cases cs) (auto simp: unquote.simps(2))
    show ?thesis
    proof (cases "e = CHR ''u''")
      case True
      then obtain n r1 u r2 where h: "hex4 r' = Some (n, r1)" "surrogate n r1 = (u, r2)"
        and p: "prepend (utf8Encode u) (unquote r2) = Some (x, r)"
        using 2 "2.prems" cs by (auto simp: unquote.simps(2) split: option.splits prod.splits)
      then have "validUTF8 (utf8Encode u)"
        using surrogate_scalar hex4_less utf8Encode_valid by blast
      with p show ?thesis
        by (rule prepend_valid) (use "2.IH"(1) [OF 2 cs True h(1) refl h(2) [symmetric]] in blast)
    next
      case False
      then obtain z where z: "simpleEscape e = Some z" and p: "prepend [z] (unquote r') = Some (x, r)"
        using 2 "2.prems" cs by (auto simp: unquote.simps(2) split: option.splits)
      have "validUTF8 [z]"
        using simpleEscape_ascii [OF z] by (intro validUTF8_ascii) simp
      with p show ?thesis
        by (rule prepend_valid) (use "2.IH"(2) [OF 2 cs False z] in blast)
    qed
  next
    case 3
    then have c: "\<not> code c < 32"
      using "2.prems" by (auto simp: unquote.simps(2))
    show ?thesis
    proof (cases "utf8Len (c # cs) = 0")
      case True
      then have "prepend replacement (unquote cs) = Some (x, r)"
        using 3 c "2.prems" by (simp add: unquote.simps(2))
      then show ?thesis
        by (rule prepend_valid [OF _ replacement_valid]) (use "2.IH"(3) [OF 3 c True] in blast)
    next
      case False
      then have "prepend (take (utf8Len (c # cs)) (c # cs)) (unquote (drop (utf8Len (c # cs)) (c # cs))) = Some (x, r)"
        using 3 c "2.prems" by (simp add: unquote.simps(2))
      then show ?thesis
        by (rule prepend_valid [OF _ validUTF8_take [OF False]]) (use "2.IH"(4) [OF 3 c False] in blast)
    qed
  qed
qed

lemma sanitize_is_valid: "validUTF8 (sanitize s)"
  using unquote_escapeString [of s "[]"] by (rule unquote_valid)

lemma sanitize_Nil_iff [simp]: "sanitize s = [] \<longleftrightarrow> s = []"
proof (cases s)
  case (Cons c cs)
  then show ?thesis using Cons by (auto simp: sanitize.simps(2) replacement_def)
qed simp

end
