(* ===== verification/Diagnostics.thy ===== *)
theory Diagnostics
  imports Attestation Json
begin

text \<open>
  The diagnostic of a chain that does not verify: \<open>describeAttestation\<close> and \<open>commonNames\<close> of
  \<open>attestation.go\<close>, with the quoting \<open>fmt\<close> applies for \<open>%q\<close>. The names in it come from certificates a
  device presents, so they are foreign text that is shown to the operator. The text of an error and the
  Unicode table of printable characters are arguments.
\<close>

section \<open>Quoting\<close>

text \<open>The code point of a valid encoding.\<close>

fun runeOf :: "string \<Rightarrow> nat" where
  "runeOf [a] = code a"
| "runeOf [a, b] = (code a - 192) * 64 + (code b - 128)"
| "runeOf [a, b, c] = (code a - 224) * 4096 + (code b - 128) * 64 + (code c - 128)"
| "runeOf [a, b, c, d] =
     (code a - 240) * 262144 + (code b - 128) * 4096 + (code c - 128) * 64 + (code d - 128)"
| "runeOf _ = 0"

text \<open>\<open>strconv.IsPrint\<close>: Latin-1 by comparison, the rest from the table.\<close>

definition isPrint :: "(nat \<Rightarrow> bool) \<Rightarrow> nat \<Rightarrow> bool" where
  "isPrint table r =
     (if r \<le> 255 then 32 \<le> r \<and> r < 127 \<or> 161 \<le> r \<and> r \<noteq> 173 else table r)"

text \<open>The \<open>n\<close> lowest hexadecimal digits of a number.\<close>

fun hexDigits :: "nat \<Rightarrow> nat \<Rightarrow> string" where
  "hexDigits 0 r = []"
| "hexDigits (Suc n) r = hexDigits n (r div 16) @ [hexDigit r]"

text \<open>\<open>appendEscapedRune\<close> of \<open>strconv\<close>, on the encoding of one character.\<close>

definition quoteRune :: "(nat \<Rightarrow> bool) \<Rightarrow> string \<Rightarrow> string" where
  "quoteRune table enc =
     (let r = runeOf enc in
      if r = code quote \<or> r = code backslash then backslash # enc
      else if isPrint table r then enc
      else if r = 7 then [backslash, CHR ''a'']
      else if r = 8 then [backslash, CHR ''b'']
      else if r = 12 then [backslash, CHR ''f'']
      else if r = 10 then [backslash, CHR ''n'']
      else if r = 13 then [backslash, CHR ''r'']
      else if r = 9 then [backslash, CHR ''t'']
      else if r = 11 then [backslash, CHR ''v'']
      else if r < 32 \<or> r = 127 then [backslash, CHR ''x''] @ hexDigits 2 r
      else if r < 65536 then [backslash, CHR ''u''] @ hexDigits 4 r
      else [backslash, CHR ''U''] @ hexDigits 8 r)"

text \<open>The loop of \<open>strconv.Quote\<close>: a byte that is not part of a valid encoding is shown in hexadecimal.\<close>

function quoteBody :: "(nat \<Rightarrow> bool) \<Rightarrow> string \<Rightarrow> string" where
  "quoteBody table [] = []"
| "quoteBody table (c # cs) =
     (if utf8Len (c # cs) = 0 then [backslash, CHR ''x''] @ hexDigits 2 (code c) @ quoteBody table cs
      else quoteRune table (take (utf8Len (c # cs)) (c # cs))
        @ quoteBody table (drop (utf8Len (c # cs)) (c # cs)))"
  by pat_completeness auto
termination
  by (relation "measure (\<lambda>(t, s). length s)") (auto simp: utf8_shrinks)

declare quoteBody.simps(2) [simp del]

definition quoted :: "(nat \<Rightarrow> bool) \<Rightarrow> string \<Rightarrow> string" where
  "quoted table s = [quote] @ quoteBody table s @ [quote]"

section \<open>The description\<close>

text \<open>\<open>Format("2006-01-02")\<close>: the year in at least four digits, month and day in two.\<close>

definition padded :: "nat \<Rightarrow> int \<Rightarrow> string" where
  "padded width n =
     (let digits = decDigits (nat \<bar>n\<bar>)
      in (if n < 0 then ''-'' else []) @ replicate (width - length digits) (CHR ''0'') @ digits)"

fun formatDate :: "int \<times> nat \<times> nat \<Rightarrow> string" where
  "formatDate (year, month, day) = padded 4 year @ ''-'' @ padded 2 (int month) @ ''-'' @ padded 2 (int day)"

fun joined :: "string \<Rightarrow> string list \<Rightarrow> string" where
  "joined sep [] = []"
| "joined sep [s] = s"
| "joined sep (s # ss) = s @ sep @ joined sep ss"

definition commonNames :: "(nat \<Rightarrow> bool) \<Rightarrow> certificate list \<Rightarrow> string list" where
  "commonNames table certs = map (\<lambda>c. quoted table (c_SubjectCN c)) certs"

definition newline :: char where
  "newline = CHR 0x0A"

definition describeCert ::
  "'z x509_scheme \<Rightarrow> (goerror \<Rightarrow> string) \<Rightarrow> (nat \<Rightarrow> bool) \<Rightarrow> nat \<times> bytes \<Rightarrow> string" where
  "describeCert x errText table = (\<lambda>(i, der).
     case parseCertificate x der of
       Inl err \<Rightarrow> ''    ['' @ decInt (int i) @ ''] unparseable: '' @ errText err @ [newline]
     | Inr c \<Rightarrow> ''    ['' @ decInt (int i) @ ''] subject='' @ quoted table (c_SubjectCN c)
         @ '' issuer='' @ quoted table (c_IssuerCN c) @ '' notAfter='' @ formatDate (c_NotAfter c) @ [newline])"

definition describeAttestation ::
  "'z x509_scheme \<Rightarrow> (goerror \<Rightarrow> string) \<Rightarrow> (nat \<Rightarrow> bool) \<Rightarrow> bytes list \<Rightarrow> string" where
  "describeAttestation x errText table certs =
     ''  attestation chain presented by the key:'' @ [newline]
     @ concat (map (describeCert x errText table) (enumerate 0 certs))
     @ ''  trusted roots: ''
     @ joined '', '' (commonNames table (parsePEMCertificates x (trustedAttestationRootsPEM x)))
     @ [newline] @ ''  bundled intermediates: ''
     @ joined '', '' (commonNames table (fidoIntermediates x))"

section \<open>Foreign names stay inside their quotes\<close>

text \<open>No byte that a terminal would act on.\<close>

definition plain :: "char \<Rightarrow> bool" where
  "plain c \<longleftrightarrow> 32 \<le> code c \<and> code c \<noteq> 127"

lemma plain_hexDigit: "plain (hexDigit n)"
proof -
  have "list_all plain (map hexDigit [0..<16])"
    by (simp add: upt_rec hexDigit_def plain_def code_def)
  then have "plain (hexDigit (n mod 16))" by (simp add: list_all_iff)
  then show ?thesis by (simp add: hexDigit_def)
qed

lemma plain_hexDigits: "list_all plain (hexDigits n r)"
  by (induction n arbitrary: r) (simp_all add: plain_hexDigit)

lemma plain_decDigits: "list_all plain (decDigits n)"
  by (induction n rule: decDigits.induct) (subst decDigits.simps, simp add: plain_hexDigit)

lemma plain_consts [simp]:
  "plain backslash" "plain quote" "plain CHR ''a''" "plain CHR ''b''" "plain CHR ''f''" "plain CHR ''n''"
  "plain CHR ''r''" "plain CHR ''t''" "plain CHR ''v''" "plain CHR ''x''" "plain CHR ''u''" "plain CHR ''U''"
  "plain CHR ''-''" "plain CHR ''0''"
  by (simp_all add: plain_def code_def backslash_def quote_def)

text \<open>A valid encoding is one ASCII character or has no ASCII character in it.\<close>

lemma utf8_encoding:
  assumes "utf8Len (c # cs) \<noteq> 0"
  shows "code c < 128 \<and> take (utf8Len (c # cs)) (c # cs) = [c]
    \<or> list_all (\<lambda>d. 128 \<le> code d) (take (utf8Len (c # cs)) (c # cs))"
proof (cases "code c < 128")
  case True
  then show ?thesis by (simp add: utf8Len.simps(2))
next
  case False
  with assms show ?thesis
    by (cases cs rule: upTo3) (auto simp: utf8Len.simps(2) within_def split: if_splits)
qed

lemma plain_quoteRune:
  assumes "code c < 128 \<and> enc = [c] \<or> list_all (\<lambda>d. 128 \<le> code d) enc"
  shows "list_all plain (quoteRune table enc)"
proof -
  have "list_all plain enc" if "isPrint table (runeOf enc)"
    using assms that by (auto simp: isPrint_def plain_def list_all_iff)
  moreover have "list_all plain enc" if "runeOf enc = code quote \<or> runeOf enc = code backslash"
    using assms that by (auto simp: plain_def list_all_iff quote_def backslash_def code_def)
  ultimately show ?thesis by (auto simp: quoteRune_def Let_def plain_hexDigits)
qed

lemma plain_quoteBody: "list_all plain (quoteBody table s)"
proof (induction table s rule: quoteBody.induct)
  case (2 table c cs)
  then show ?case
    using plain_quoteRune [OF utf8_encoding] by (auto simp: quoteBody.simps(2) plain_hexDigits)
qed simp

lemma plain_quoted: "list_all plain (quoted table s)"
  by (simp add: quoted_def plain_quoteBody)

lemma filter_plain: "list_all plain s \<Longrightarrow> filter (\<lambda>c. \<not> plain c) s = []"
  by (simp add: filter_empty_conv list_all_iff)

lemma plain_decInt: "list_all plain (decInt i)"
  by (simp add: decInt_def plain_decDigits)

lemma plain_padded: "list_all plain (padded w n)"
  using plain_decDigits [of "nat \<bar>n\<bar>"] by (auto simp: padded_def Let_def list_all_iff)

lemma plain_formatDate: "list_all plain (formatDate d)"
  by (cases d) (simp add: plain_padded)

lemma plain_joined: "list_all plain sep \<Longrightarrow> list_all (list_all plain) ss \<Longrightarrow> list_all plain (joined sep ss)"
  by (induction sep ss rule: joined.induct) auto

lemma plain_commonNames: "list_all plain (joined '', '' (commonNames table cs))"
proof (rule plain_joined)
  show "list_all plain '', ''" by (simp add: plain_def code_def)
  show "list_all (list_all plain) (commonNames table cs)"
    using plain_quoted by (auto simp: commonNames_def list_all_iff)
qed

lemmas plainness = filter_plain plain_decInt plain_quoted plain_formatDate plain_commonNames

lemma newline_not_plain [simp]: "\<not> plain newline"
  by (simp add: plain_def newline_def code_def)

lemma plain_words:
  "list_all plain ''    [''" "list_all plain ''] unparseable: ''" "list_all plain ''] subject=''"
  "list_all plain '' issuer=''" "list_all plain '' notAfter=''"
  "list_all plain ''  attestation chain presented by the key:''" "list_all plain ''  trusted roots: ''"
  "list_all plain ''  bundled intermediates: ''"
  by (simp_all add: plain_def code_def)

text \<open>
  The bytes of a line that are not plain, per certificate presented: the end of the line, and before it those
  of the text of the error where the certificate does not parse. That text is the library's.
\<close>

definition lineControl :: "'z x509_scheme \<Rightarrow> (goerror \<Rightarrow> string) \<Rightarrow> bytes \<Rightarrow> string" where
  "lineControl x errText der =
     (case parseCertificate x der of
        Inl err \<Rightarrow> filter (\<lambda>c. \<not> plain c) (errText err) @ [newline]
      | Inr c \<Rightarrow> [newline])"

lemma describeCert_control:
  "filter (\<lambda>c. \<not> plain c) (describeCert x errText table d) = lineControl x errText (snd d)"
proof -
  note quiet = plainness plain_words [THEN filter_plain]
  show ?thesis
    by (cases d; cases "parseCertificate x (snd d)")
      (simp_all only: describeCert_def lineControl_def prod.case snd_conv sum.case filter_append quiet, simp_all)
qed

lemma describe_control:
  "filter (\<lambda>c. \<not> plain c) (describeAttestation x errText table certs) =
     [newline] @ concat (map (lineControl x errText) certs) @ [newline]"
proof -
  have "filter (\<lambda>c. \<not> plain c) (concat (map (describeCert x errText table) ds)) =
      concat (map (lineControl x errText) (map snd ds))" for ds
    by (induction ds) (simp_all add: describeCert_control)
  then have lines: "filter (\<lambda>c. \<not> plain c) (concat (map (describeCert x errText table) (enumerate 0 certs))) =
      concat (map (lineControl x errText) certs)"
    by (simp only: map_snd_enumerate)
  show ?thesis
    by (simp only: describeAttestation_def filter_append plainness plain_words [THEN filter_plain] lines)
      simp
qed

end
