(* ===== verification/SealGuarantees.thy ===== *)
theory SealGuarantees
  imports Samples Diagnostics
begin

text \<open>
  What sealing, the authenticated header, validation and attestation guarantee, each with an instance
  on the concrete parameters of \<open>Samples\<close> where it has hypotheses.
\<close>

section \<open>Sealed boxes\<close>

definition sampleVault :: sealedVault where
  "sampleVault = toyDoc0\<lparr>v_Keys := [toyEntry 1]\<rparr>"

definition sampleKek :: bytes where
  "sampleKek = toyPRF [1] (replicate 32 0) False"

lemma sample_wrap:
  "wrapDataKey toyX sampleVault toyDataKey [1] sampleKek 0 ''primary'' ((toyWorldTo 100)\<lparr>w_draws := 3\<rparr>)
     = (Inr (toyEntry 1), (toyWorldTo 100)\<lparr>w_draws := 4\<rparr>)"
proof -
  have "keyAAD (toyDoc0\<lparr>v_Keys := ks\<rparr>) s c = keyAAD toyDoc0 s c" for ks s c
    by (rule keyAAD_cong) (simp add: sameHeader_def)
  then show ?thesis
    by (simp add: toyRun toyEntry_def sampleVault_def sampleKek_def)
qed

lemma sample_fits [simp]: "fits sampleVault" "fits (sampleVault\<lparr>v_UserVerified := u\<rparr>)"
  by (simp_all add: fits_def short_def sampleVault_def toyDoc0_def toyOpts_def)

text \<open>C34: what was wrapped for a credential unwraps to the data key, and what was sealed under a name
  opens to the value, each in the document it was made for and under the key it was made with.\<close>

theorem boxes_roundtrip:
  assumes "aead_roundtrip p"
  shows "(wrapDataKey p v dk cred secret slot label w = (Inr k, w') \<longrightarrow>
            unwrapDataKey p v k secret = Inr dk \<and> k_Slot k = slot \<and> k_Label k = label \<and> k_CredentialID k = cred)
    \<and> (sealSecret p v dk name pt w = (Inr s, w') \<longrightarrow>
            openSecret p v dk s = Inr pt \<and> s_Name s = name)"
proof (intro conjI impI)
  assume wrapped: "wrapDataKey p v dk cred secret slot label w = (Inr k, w')"
  show "unwrapDataKey p v k secret = Inr dk" by (rule unwrap_wrapped [OF assms wrapped])
  show "k_Slot k = slot" "k_Label k = label" "k_CredentialID k = cred"
    using wrapped by (auto simp: wrapDataKey_ok)
next
  assume sealed: "sealSecret p v dk name pt w = (Inr s, w')"
  show "openSecret p v dk s = Inr pt" by (rule open_sealed_secret [OF assms sealed])
  show "s_Name s = name" using sealed by (simp add: sealSecret_ok)
qed

theorem boxes_roundtrip_witness: "unwrapDataKey toyX sampleVault (toyEntry 1) sampleKek = Inr toyDataKey"
  using boxes_roundtrip [OF toyX_roundtrip] sample_wrap by blast

lemma sameHeader_sym: "sameHeader v v' \<Longrightarrow> sameHeader v' v"
  by (simp add: sameHeader_def)

text \<open>C18: the authenticated data names its context. Two of a key are equal only for the same header,
  the same slot number modulo \<open>2 ^ 32\<close> and the same credential; two of a secret only for the same
  header and the same name; and one of a key is never one of a secret, whatever bytes a name or a
  credential holds.\<close>

theorem aad_unambiguous:
  assumes "fits v" "fits v'" "short c" "short c'" "length n < 2 ^ 32" "length n' < 2 ^ 32"
  shows "(keyAAD v slot c = keyAAD v' slot' c' \<longleftrightarrow>
            sameHeader v v' \<and> slot mod 2 ^ 32 = slot' mod 2 ^ 32 \<and> c = c')
    \<and> (secretAAD v n = secretAAD v' n' \<longleftrightarrow> sameHeader v v' \<and> n = n')
    \<and> keyAAD v slot c \<noteq> secretAAD v' n'"
  using assms keyAAD_eq_iff [of v v' c c' slot slot'] secretAAD_eq_iff [of v v' n n']
    keyAAD_neq_secretAAD [of v v' slot c n'] uint32_eq_iff [of slot slot']
  by (simp add: short_def)

theorem aad_unambiguous_witness:
  "keyAAD sampleVault 1 [1] \<noteq> secretAAD sampleVault ''a'' \<and> secretAAD sampleVault ''a'' \<noteq> secretAAD sampleVault ''b''"
  using aad_unambiguous [OF sample_fits(1) sample_fits(1), of "[1]" "[1]" "''a''" "''b''" 1 1]
    aad_unambiguous [OF sample_fits(1) sample_fits(1), of "[1]" "[1]" "''a''" "''a''" 1 1]
  by (simp add: short_def)

text \<open>C15: a wrapped data key is bound to its place. If the RP ID, the salt, a header flag, the slot
  (modulo \<open>2 ^ 32\<close>), the credential ID or the nonce of a stored entry is changed, the key it was wrapped
  under does not open it: unwrapping fails for every secret from which that key is derived again.\<close>

theorem tampered_key_rejected:
  assumes "aead_binding p" and "wrapDataKey p v dk cred secret slot label w = (Inr k, w')"
    and "fits v" "fits v'" "short cred" "short (k_CredentialID k')"
    and "k_Wrapped k' = k_Wrapped k" "deriveKEK p secret' (v_Salt v') = deriveKEK p secret (v_Salt v)"
    and "\<not> sameHeader v v' \<or> k_Slot k' mod 2 ^ 32 \<noteq> slot mod 2 ^ 32 \<or> k_CredentialID k' \<noteq> cred
      \<or> k_Nonce k' \<noteq> k_Nonce k"
  shows "\<exists>e. unwrapDataKey p v' k' secret' = Inl e"
proof (rule ccontr)
  assume "\<not> ?thesis"
  then obtain q where q: "unwrapDataKey p v' k' secret' = Inr q" by (metis sum.exhaust)
  obtain kek where kek: "deriveKEK p secret (v_Salt v) = Inr kek"
    and "seal p kek dk (keyAAD v slot cred) w = (Inr (k_Nonce k, k_Wrapped k), w')"
    using assms(2) by (auto simp: wrapDataKey_ok)
  moreover have opened: "openAEAD p kek (k_Nonce k') (k_Wrapped k) (keyAAD v' (k_Slot k') (k_CredentialID k')) = Inr q"
    using q assms(7,8) kek by (auto simp: unwrapDataKey_Inr_iff)
  ultimately have "k_Nonce k' = k_Nonce k \<and> keyAAD v' (k_Slot k') (k_CredentialID k') = keyAAD v slot cred"
    using seal_bound [OF assms(1)] by blast
  with assms(3-6,9) show False
    by (auto simp: keyAAD_eq_iff uint32_eq_iff dest: sameHeader_sym)
qed

theorem tampered_key_rejected_witness:
  "\<exists>e. unwrapDataKey toyX (sampleVault\<lparr>v_UserVerified := True\<rparr>) (toyEntry 1) sampleKek = Inl e"
  by (rule tampered_key_rejected [OF toyX_binding sample_wrap sample_fits])
     (simp_all add: short_def toyEntry_def sameHeader_def sampleVault_def toyDoc0_def)

text \<open>C16: a secret is bound to its name and its vault. A stored ciphertext put under another name, or
  into a document with another RP ID, salt or header flag, or given another nonce, is not opened by the
  data key it was sealed under.\<close>

theorem tampered_secret_rejected:
  assumes "aead_binding p" and "sealSecret p v dk name pt w = (Inr s, w')"
    and "fits v" "fits v'" "length name < 2 ^ 32" "length (s_Name s') < 2 ^ 32"
    and "s_Ciphertext s' = s_Ciphertext s"
    and "\<not> sameHeader v v' \<or> s_Name s' \<noteq> name \<or> s_Nonce s' \<noteq> s_Nonce s"
  shows "\<exists>e. openSecret p v' dk s' = Inl e"
proof (rule ccontr)
  assume "\<not> ?thesis"
  then obtain q where "openSecret p v' dk s' = Inr q" by (metis sum.exhaust)
  then have opened: "openAEAD p dk (s_Nonce s') (s_Ciphertext s) (secretAAD v' (s_Name s')) = Inr q"
    using assms(7) by (simp add: openSecret_Inr_iff)
  have "seal p dk pt (secretAAD v name) w = (Inr (s_Nonce s, s_Ciphertext s), w')"
    using assms(2) by (simp add: sealSecret_ok)
  with seal_bound [OF assms(1) this opened] assms(3-6,8) show False
    by (auto simp: secretAAD_eq_iff short_def dest: sameHeader_sym)
qed

lemma sample_secret:
  "sealSecret toyX sampleVault toyDataKey ''a'' [1, 2] (toyWorldTo 100) =
     (Inr \<lparr>s_Name = ''a'', s_Nonce = replicate 12 0,
           s_Ciphertext = toySeal toyDataKey (replicate 12 0) [1, 2] (secretAAD sampleVault ''a'')\<rparr>,
      (toyWorldTo 100)\<lparr>w_draws := 1\<rparr>)"
  by (simp add: sealSecret_def toyRun toyDataKey_def)

theorem tampered_secret_rejected_witness:
  "\<exists>e. openSecret toyX sampleVault toyDataKey
     \<lparr>s_Name = ''b'', s_Nonce = replicate 12 0,
      s_Ciphertext = toySeal toyDataKey (replicate 12 0) [1, 2] (secretAAD sampleVault ''a'')\<rparr> = Inl e"
  by (rule tampered_secret_rejected [OF toyX_binding sample_secret sample_fits(1) sample_fits(1)]) simp_all

text \<open>C39: what of an entry is not authenticated: its label, and its slot beyond the low 32 bits. A stored
  entry given any other label and moved up by \<open>2 ^ 32\<close> slots, when that slot is free, still passes
  validation and unwraps to the same data key.\<close>

theorem entry_rewrite_undetected:
  assumes "wfVault v" "v_Keys v = before @ k # after"
    and "k_Slot k + 2 ^ 32 \<notin> k_Slot ` set (v_Keys v)" "unwrapDataKey p v k secret = Inr dk"
    and k'_def: "k' = k\<lparr>k_Slot := k_Slot k + 2 ^ 32, k_Label := label\<rparr>"
  shows "validateSealed (v\<lparr>v_Keys := before @ k' # after\<rparr>) = Inr (v\<lparr>v_Keys := before @ k' # after\<rparr>)
    \<and> unwrapDataKey p (v\<lparr>v_Keys := before @ k' # after\<rparr>) k' secret = Inr dk"
proof
  show "validateSealed (v\<lparr>v_Keys := before @ k' # after\<rparr>) = Inr (v\<lparr>v_Keys := before @ k' # after\<rparr>)"
    using assms(1-3) by (auto simp: validateSealed_Inr_iff wfVault_def wfKeys_def k'_def)
  have "uint32 (k_Slot k') = uint32 (k_Slot k)" by (simp add: k'_def uint32_eq_iff)
  moreover have "aad (v\<lparr>v_Keys := before @ k' # after\<rparr>) = aad v" by (rule aad_cong) (simp add: sameHeader_def)
  ultimately show "unwrapDataKey p (v\<lparr>v_Keys := before @ k' # after\<rparr>) k' secret = Inr dk"
    using assms(4) by (simp add: unwrapDataKey_Inr_iff keyAAD_unfold) (simp add: k'_def)
qed

lemma sample_wf [simp]: "wfVault sampleVault"
  by (simp add: wfVault_def sampleVault_def toyDoc0_def toyOpts_def toyEntry_def wfKeys_def wfSecrets_def SaltLen_def)

theorem entry_rewrite_undetected_witness:
  "unwrapDataKey toyX (sampleVault\<lparr>v_Keys := [(toyEntry 1)\<lparr>k_Slot := 2 ^ 32, k_Label := ''backup''\<rparr>]\<rparr>)
     ((toyEntry 1)\<lparr>k_Slot := 2 ^ 32, k_Label := ''backup''\<rparr>) sampleKek = Inr toyDataKey"
  using entry_rewrite_undetected [OF sample_wf _ _ _ refl, of "[]" "toyEntry 1" "[]" toyX sampleKek toyDataKey "''backup''"]
    unwrap_wrapped [OF toyX_roundtrip sample_wrap]
  by (simp add: sampleVault_def toyEntry_def)

text \<open>Opening tells its failures apart, in this order: a key that is not 32 bytes, a nonce that is not
  12 bytes (\<open>ErrWrongFormat\<close>), and a ciphertext that does not authenticate.\<close>

lemma openAEAD_cases:
  "openAEAD p key nonce ciphertext ad =
     (if length key \<noteq> 32 then Inl (errorsNew ''touchvault: key must be 32 bytes'')
      else if length nonce \<noteq> 12 then Inl (wrap ''%w: nonce is %d bytes, want %d'' (Sentinel ErrWrongFormat))
      else case gcmOpen p key nonce ciphertext ad of
             Some plaintext \<Rightarrow> Inr plaintext
           | None \<Rightarrow> Inl (wrap ''touchvault: authenticating: %w''
                        (errorsNew ''cipher: message authentication failed'')))"
  by (auto simp: openAEAD_def newGCM_def dataKeyLen_def gcmNonceSize_def aesNewCipher_def split: option.splits)

section \<open>Validation\<close>

text \<open>C33: a parsed document is accepted exactly when it is well formed: the known format, a salt of 32
  bytes, an RP ID, non-negative and distinct slots, non-empty and distinct credential IDs, non-empty
  and distinct names. It is then returned unchanged, and everything else is \<open>ErrWrongFormat\<close>.\<close>

theorem validation_exact:
  "(if v_Format v = 1 \<and> length (v_Salt v) = 32 \<and> v_RPID v \<noteq> []
       \<and> (\<forall>k \<in> set (v_Keys v). 0 \<le> k_Slot k \<and> k_CredentialID k \<noteq> [])
       \<and> distinct (map k_Slot (v_Keys v)) \<and> distinct (map k_CredentialID (v_Keys v))
       \<and> (\<forall>s \<in> set (v_Secrets v). s_Name s \<noteq> []) \<and> distinct (map s_Name (v_Secrets v))
    then validateSealed v = Inr v else failsWith (validateSealed v) ErrWrongFormat)"
proof (cases "wfVault v")
  case True
  then show ?thesis
    by (simp add: validateSealed_Inr_iff) (simp add: wfVault_def wfKeys_def wfSecrets_def formatVersion_def SaltLen_def)
next
  case False
  then obtain e where "validateSealed v = Inl e"
    by (cases "validateSealed v") (auto simp: validateSealed_Inr_iff)
  with validateSealed_error [OF this] False show ?thesis
    by (auto simp: wfVault_def wfKeys_def wfSecrets_def formatVersion_def SaltLen_def)
qed

theorem validation_exact_witness:
  "validateSealed sampleVault = Inr sampleVault \<and> failsWith (validateSealed (sampleVault\<lparr>v_RPID := []\<rparr>)) ErrWrongFormat"
  using validation_exact [of sampleVault] validation_exact [of "sampleVault\<lparr>v_RPID := []\<rparr>"]
  by (simp add: sampleVault_def toyDoc0_def toyOpts_def formatVersion_def toyEntry_def)

section \<open>Attestation\<close>

definition sampleCred :: EnrollResult where
  "sampleCred = \<lparr>er_CredentialID = [1], er_PRFEnabled = True, er_ResidentKey = False,
     er_AttestationFormat = ''packed'', er_AttestationAlg = -7, er_AttestationSignature = [7, 1, 5],
     er_AuthenticatorData = [1], er_ClientDataHash = [5], er_AttestationCerts = [[1]]\<rparr>"

lemma sampleCred_accepted: "is_ok (verifyGenuineHardware toyX sampleCred None)"
  unfolding sampleCred_def by (simp only: toy_genuine is_ok.simps)

text \<open>C10: enrollment trusts exactly genuine hardware: a packed ES256 attestation whose leaf and
  intermediates parse, whose chain verifies against the chosen anchors (the bundled ones when none
  are given) with the bundled and the presented intermediates, whose leaf key is ECDSA and signed the
  authenticator data and client-data hash, and whose AAGUID extension, where the leaf has one, is the
  AAGUID in the authenticator data.\<close>

theorem genuine_exactly:
  "is_ok (verifyGenuineHardware x r roots) \<longleftrightarrow>
     er_AttestationFormat r = ''packed'' \<and> er_AttestationAlg r = -7 \<and>
     (\<exists>leafDER ders leaf presented pub.
        er_AttestationCerts r = leafDER # ders
        \<and> parseCertificate x leafDER = Inr leaf
        \<and> list_all2 (\<lambda>der c. parseCertificate x der = Inr c) ders presented
        \<and> certVerify x leaf (case roots of None \<Rightarrow> BundledRoots x | Some pool \<Rightarrow> pool)
            (fidoIntermediates x @ presented) = Inr ()
        \<and> c_PublicKey leaf = ECDSAKey pub
        \<and> ecdsaVerifyASN1 x pub (sha256Sum x (er_AuthenticatorData r @ er_ClientDataHash r))
            (er_AttestationSignature r)
        \<and> (\<forall>ext. findExtension (c_Extensions leaf) oidFidoGenCeAAGUID = Some ext \<longrightarrow>
             53 \<le> length (er_AuthenticatorData r)
             \<and> asn1OctetString ext = Inr (take 16 (drop 37 (er_AuthenticatorData r)))))"
proof -
  have "is_ok (verifyGenuineHardware x r roots) \<longleftrightarrow> genuine x r roots"
    unfolding verifyGenuineHardware_ok [symmetric] is_ok_iff by simp
  then show ?thesis unfolding genuine_def anchors_def BundledRoots_def .
qed

theorem genuine_exactly_witness:
  "\<exists>leafDER ders leaf pub. er_AttestationCerts sampleCred = leafDER # ders \<and> parseCertificate toyX leafDER = Inr leaf
     \<and> c_PublicKey leaf = ECDSAKey pub"
  using genuine_exactly [of toyX sampleCred None] sampleCred_accepted by blast

text \<open>No value of the roots option turns the check off: an empty pool trusts nobody, and no pool is the
  bundled one.\<close>

lemma no_roots_no_trust:
  assumes "empty_pool_trusts_nobody x"
  shows "\<not> is_ok (verifyGenuineHardware x r (Some []))
    \<and> verifyGenuineHardware x r None = verifyGenuineHardware x r (Some (BundledRoots x))"
  using verifyGenuineHardware_empty_pool [OF assms, of r]
  by (simp add: verifyGenuineHardware_def BundledRoots_def)

text \<open>The attestation check does not look at the credential ID. A genuine attestation is accepted
  with any other credential ID in its place.\<close>

lemma attestation_ignores_credential:
  "verifyGenuineHardware x (r\<lparr>er_CredentialID := c\<rparr>) roots = verifyGenuineHardware x r roots"
proof -
  have "checkSignature x leaf (r\<lparr>er_CredentialID := c\<rparr>) = checkSignature x leaf r" for leaf
    by (simp add: checkSignature_def split: publicKey.split)
  then show ?thesis by (simp add: verifyGenuineHardware_def split: list.split)
qed

text \<open>C35: foreign names cannot forge the diagnostic. Whatever names the presented certificates and the
  bundled ones carry, and whatever the errors say, the bytes of the description a terminal would act on are
  exactly these, in this order: the end of the heading's line; for each presented certificate the end of its
  line, and before it, where the certificate does not parse, the bytes of the text of that error; and the end
  of the line of the trusted roots. A name adds none: it cannot end a line, start an escape sequence or erase text.\<close>

theorem diagnostic_not_forged:
  "filter (\<lambda>c. \<not> plain c) (describeAttestation x errText table certs) =
     [newline]
     @ concat (map (\<lambda>der. (case parseCertificate x der of
          Inl err \<Rightarrow> filter (\<lambda>c. \<not> plain c) (errText err) | Inr c \<Rightarrow> []) @ [newline]) certs)
     @ [newline]"
proof -
  have "lineControl x errText = (\<lambda>der. (case parseCertificate x der of
          Inl err \<Rightarrow> filter (\<lambda>c. \<not> plain c) (errText err) | Inr c \<Rightarrow> []) @ [newline])"
    by (rule ext) (simp add: lineControl_def split: sum.split)
  then show ?thesis using describe_control [of x errText table certs] by simp
qed

text \<open>A device that names itself with line ends and an escape sequence.\<close>

definition hostileX :: x509 where
  "hostileX = toyX\<lparr>parseCertificate :=
     (\<lambda>der. Inr (toyLeaf\<lparr>c_SubjectCN := ''key'' @ [newline] @ ''  trusted roots: ok'' @ [newline, CHR 0x1B] @ ''[2J''\<rparr>))\<rparr>"

theorem diagnostic_not_forged_witness:
  "filter (\<lambda>c. \<not> plain c) (describeAttestation hostileX (\<lambda>_. ''x509'') (\<lambda>_. True) [[1], [2]])
     = [newline, newline, newline, newline]"
  using diagnostic_not_forged [of hostileX "\<lambda>_. ''x509''" "\<lambda>_. True" "[[1], [2]]"]
  by (simp add: hostileX_def)

section \<open>The entropy gate on a concrete device\<close>

lemma gate_catches_truncation_witness:
  "verifyDerivationDependsOnSalt (truncatingKey 31 1) ''r'' [1] (replicate 32 0)
     (toyPRF [1] (take 31 (replicate 32 0)) False) UVDiscouraged False (toyWorldTo 100) =
   (failWith ErrDerivationIgnoresSalt,
    (toyWorldTo 100)\<lparr>w_gestures := [GDerive (probeRequest ''r'' [1] (replicate 32 0) UVDiscouraged)]\<rparr>)"
proof -
  let ?w = "(toyWorldTo 100)\<lparr>w_gestures := [GDerive (probeRequest ''r'' [1] (replicate 32 0) UVDiscouraged)]\<rparr>"
  obtain got where got: "callDerive (truncatingKey 31 1) (probeRequest ''r'' [1] (replicate 32 0) UVDiscouraged)
      (toyWorldTo 100) = (Inr got, ?w)" "dr_UserPresent got" "dr_UserVerified got = False"
    by (simp add: callDerive_toy probeRequest_def toyDerive_def toyWorldTo_def)
  have ne: "toyPRF [1] (take 31 (replicate 32 0)) False \<noteq> []" by (simp add: toyPRF_def)
  show ?thesis
    using gate_catches_truncation [of "\<lambda>c s. toyPRF c s" 31 "truncatingKey 31 1" "replicate 32 0",
        OF truncatingKey_derives toyKey_answers(2) _ _ refl ne] got by simp
qed

lemma gate_passes_honest_device_witness:
  "fst (verifyDerivationDependsOnSalt (toyKey 1) ''r'' [1] (replicate 32 0)
     (toyPRF [1] (replicate 32 0) False) UVDiscouraged False (toyWorldTo 100)) = Inr ()"
proof -
  obtain got w' where got: "callDerive (toyKey 1) (probeRequest ''r'' [1] (replicate 32 0) UVDiscouraged)
      (toyWorldTo 100) = (Inr got, w')" "dr_UserPresent got" "dr_UserVerified got = False"
    by (simp add: callDerive_toy probeRequest_def toyDerive_def)
  have "toyPRF [1] (flipLast (replicate 32 0)) False \<noteq> toyPRF [1] (replicate 32 0) False"
    by (simp add: toyPRF_def)
  with gate_passes_honest_device [OF toyKey_derives toyKey_answers(1) got] show ?thesis
    by (simp add: toyPRF_def)
qed

end
