(* ===== verification/Liveness.thy ===== *)
theory Liveness
  imports Session
begin

text \<open>
  When the operations succeed. A device that conforms to the port, an entropy source that does not
  fail and a total key derivation are enough for \<open>Create\<close> and \<open>EnrollKey\<close> to return: each of their
  steps is shown to succeed in turn. The converse, what success means, is in \<open>Session\<close>.
\<close>

section \<open>What is assumed to work\<close>

definition entropyLasts :: "'d world \<Rightarrow> bool" where
  "entropyLasts w \<longleftrightarrow> (\<forall>i. w_entropy w i \<noteq> None)"

definition hkdf_total :: "'z prims_scheme \<Rightarrow> bool" where
  "hkdf_total p \<longleftrightarrow> (\<forall>secret salt info. \<exists>k. hkdfKey p secret salt info 32 = Inr k \<and> length k = 32)"

text \<open>A string that can be handed to a C interface: no \<open>NUL\<close> in it.\<close>

definition noNUL :: "string \<Rightarrow> bool" where
  "noNUL s \<longleftrightarrow> CHR 0x00 \<notin> set s"

text \<open>
  A key whose credential is \<open>c\<close>, for requests whose strings hold no \<open>NUL\<close>: it enrolls it, not resident and with an attestation that chains to
  the anchors, and answers every well-formed request that lists it, with a touch, with a non-empty
  output that depends on the last byte of the salt, and verifying the operator as \<open>obs\<close> says.
\<close>

definition conforms ::
  "'z x509_scheme \<Rightarrow> (bytes \<Rightarrow> bool \<Rightarrow> bytes) \<Rightarrow> (UserVerification \<Rightarrow> bool) \<Rightarrow> bytes \<Rightarrow> certPool option
     \<Rightarrow> 'd Authenticator \<Rightarrow> bool" where
  "conforms x out obs c roots auth \<longleftrightarrow> c \<noteq> []
     \<and> (\<forall>req d. noNUL (eq_RPID req) \<longrightarrow> noNUL (eq_RPName req) \<longrightarrow> noNUL (eq_UserName req) \<longrightarrow>
          (\<exists>cred. fst (auth_Enroll auth req d) = Inr cred \<and> er_CredentialID cred = c
          \<and> \<not> er_ResidentKey cred \<and> genuine x cred roots))
     \<and> (\<forall>req d. noNUL (dq_RPID req) \<longrightarrow> Validate req = Inr () \<longrightarrow> c \<in> set (dq_CredentialIDs req) \<longrightarrow>
          (\<exists>r. fst (auth_Derive auth req d) = Inr r \<and> dr_CredentialID r = c \<and> dr_UserPresent r
             \<and> dr_UserVerified r = obs (dq_UV req) \<and> dr_Secret r = out (dq_Salt req) (obs (dq_UV req))))
     \<and> (\<forall>salt u. out salt u \<noteq> [] \<and> (length salt = 32 \<longrightarrow> out (flipLast salt) u \<noteq> out salt u))"

lemma conformsD:
  assumes "conforms x out obs c roots auth"
  shows "c \<noteq> []" "out salt u \<noteq> []" "length salt = 32 \<Longrightarrow> out (flipLast salt) u \<noteq> out salt u"
  using assms by (simp_all add: conforms_def)

section \<open>The steps succeed\<close>

lemma randomBytes_live:
  assumes "entropyLasts w"
  obtains b w' where "randomBytes n w = (Inr b, w')" "length b = n" "entropyLasts w'"
proof -
  obtain g where g: "w_entropy w (w_draws w) = Some g"
    using assms by (auto simp: entropyLasts_def)
  have "randomBytes n w = (Inr (map g [0..<n]), w\<lparr>w_draws := Suc (w_draws w)\<rparr>)"
    by (simp add: randomBytes_ok g)
  then show thesis by (rule that) (use assms in \<open>simp_all add: entropyLasts_def\<close>)
qed

lemma callEnroll_live:
  assumes "conforms x out obs c roots auth" "entropyLasts w"
    and "noNUL (eq_RPID req)" "noNUL (eq_RPName req)" "noNUL (eq_UserName req)"
  obtains cred w' where "callEnroll auth req w = (Inr cred, w')" "er_CredentialID cred = c"
    "\<not> er_ResidentKey cred" "verifyGenuineHardware x cred roots = Inr ()" "entropyLasts w'"
proof -
  obtain cred where cred: "fst (auth_Enroll auth req (w_device w)) = Inr cred" "er_CredentialID cred = c"
    "\<not> er_ResidentKey cred" "genuine x cred roots"
    using assms(1,3-5) unfolding conforms_def by blast
  obtain w' where call: "callEnroll auth req w = (Inr cred, w')"
    using cred(1) by (cases "auth_Enroll auth req (w_device w)") (auto simp: callEnroll_def)
  have "entropyLasts w'"
    using callEnroll_world [OF call] assms(2) by (simp add: entropyLasts_def)
  with call cred show thesis by (intro that) (simp_all add: verifyGenuineHardware_ok)
qed

lemma callDerive_live:
  assumes "conforms x out obs c roots auth" "entropyLasts w"
    and "noNUL (dq_RPID req)" "Validate req = Inr ()" "c \<in> set (dq_CredentialIDs req)"
  obtains r w' where "callDerive auth req w = (Inr r, w')" "dr_CredentialID r = c" "dr_UserPresent r"
    "dr_UserVerified r = obs (dq_UV req)" "dr_Secret r = out (dq_Salt req) (obs (dq_UV req))" "entropyLasts w'"
proof -
  obtain r where r: "fst (auth_Derive auth req (w_device w)) = Inr r" "dr_CredentialID r = c" "dr_UserPresent r"
    "dr_UserVerified r = obs (dq_UV req)" "dr_Secret r = out (dq_Salt req) (obs (dq_UV req))"
    using assms(1,3-5) unfolding conforms_def by blast
  obtain w' where call: "callDerive auth req w = (Inr r, w')"
    using r(1) by (cases "auth_Derive auth req (w_device w)") (auto simp: callDerive_def)
  have "entropyLasts w'"
    using callDerive_world [OF call] assms(2) by (simp add: entropyLasts_def)
  with call r show thesis by (intro that)
qed

lemma enrollAndDerive_live:
  assumes "conforms x out obs c (o_Roots opts) auth" "entropyLasts w" "length (v_Salt doc) = 32"
    and names: "noNUL (v_RPID doc)" "noNUL (rpName opts)"
  obtains cred derived w' where "enrollAndDerive x auth doc opts uv w = (Inr (cred, derived), w')"
    "er_CredentialID cred = c" "dr_UserVerified derived = obs uv" "dr_Secret derived = out (v_Salt doc) (obs uv)"
    "entropyLasts w'"
proof -
  obtain userID w1 where u: "randomBytes userIDLen w = (Inr userID, w1)" "entropyLasts w1"
    using randomBytes_live [OF assms(2)] by metis
  obtain cred w2 where e: "callEnroll auth (enrollRequest doc opts uv userID) w1 = (Inr cred, w2)"
    "er_CredentialID cred = c" "\<not> er_ResidentKey cred" "verifyGenuineHardware x cred (o_Roots opts) = Inr ()"
    "entropyLasts w2"
    using callEnroll_live [OF assms(1) u(2), of "enrollRequest doc opts uv userID"] names
    by (auto simp: enrollRequest_def)
  let ?q = "firstDerive doc uv c"
  have q: "dq_Salt ?q = v_Salt doc" "dq_UV ?q = uv" and rp: "noNUL (dq_RPID ?q)" and listed: "c \<in> set (dq_CredentialIDs ?q)"
    and valid: "Validate ?q = Inr ()"
    using assms(3) names conformsD(1) [OF assms(1)] by (simp_all add: Validate_ok_iff firstDerive_def SaltLen_def)
  obtain r w3 where r: "callDerive auth (firstDerive doc uv c) w2 = (Inr r, w3)" "dr_UserPresent r"
    "dr_UserVerified r = obs uv" "dr_Secret r = out (v_Salt doc) (obs uv)" "entropyLasts w3"
    using callDerive_live [OF assms(1) e(5) rp valid listed] q by metis
  have "enrollAndDerive x auth doc opts uv w = (Inr (cred, r), w3)"
    using u e r conformsD(1,2) [OF assms(1)] by (simp add: enrollAndDerive_def bindE_def)
  then show thesis using e(2) r(3-5) by (rule that)
qed

lemma gate_live:
  assumes "conforms x out obs c roots auth" "entropyLasts w" "length salt = 32" "noNUL rpID"
  obtains w' where "verifyDerivationDependsOnSalt auth rpID c salt (out salt (obs uv)) uv (obs uv) w = (Inr (), w')"
    "entropyLasts w'"
proof -
  let ?q = "probeRequest rpID c salt uv"
  have q: "dq_Salt ?q = flipLast salt" "dq_UV ?q = uv" and rp: "noNUL (dq_RPID ?q)" and listed: "c \<in> set (dq_CredentialIDs ?q)"
    and valid: "Validate ?q = Inr ()"
    using assms(3,4) conformsD(1) [OF assms(1)] by (simp_all add: Validate_ok_iff probeRequest_def SaltLen_def)
  obtain r w' where r: "callDerive auth (probeRequest rpID c salt uv) w = (Inr r, w')" "dr_UserPresent r"
    "dr_UserVerified r = obs uv" "dr_Secret r = out (flipLast salt) (obs uv)" "entropyLasts w'"
    using callDerive_live [OF assms(1,2) rp valid listed] q by metis
  have "verifyDerivationDependsOnSalt auth rpID c salt (out salt (obs uv)) uv (obs uv) w = (Inr (), w')"
    using r assms(3) conformsD(2,3) [OF assms(1)]
    by (simp add: verifyDerivationDependsOnSalt_def bindE_def wrapE_def SaltLen_def)
  then show thesis using r(5) by (rule that)
qed

lemma wrapDataKey_live:
  assumes "hkdf_total x" "entropyLasts w" "prf \<noteq> []"
  obtains entry w' where "wrapDataKey x doc dk c prf slot label w = (Inr entry, w')" "entropyLasts w'"
proof -
  obtain kek where kek: "hkdfKey x prf (v_Salt doc) kekInfo 32 = Inr kek" "length kek = 32"
    using assms(1) unfolding hkdf_total_def by blast
  obtain n w' where n: "randomBytes 12 w = (Inr n, w')" "entropyLasts w'"
    using randomBytes_live [OF assms(2)] by metis
  have "deriveKEK x prf (v_Salt doc) = Inr kek"
    using kek(1) assms(3) by (simp add: deriveKEK_def dataKeyLen_def)
  moreover have "seal x kek dk (keyAAD doc slot c) w = (Inr (n, gcmSeal x kek n dk (keyAAD doc slot c)), w')"
    using kek(2) n(1) by (simp add: seal_ok)
  ultimately have "wrapDataKey x doc dk c prf slot label w = (Inr \<lparr>k_Slot = slot, k_Label = label,
      k_CredentialID = c, k_Nonce = n, k_Wrapped = gcmSeal x kek n dk (keyAAD doc slot c)\<rparr>, w')"
    by (simp add: wrapDataKey_def bindE_def)
  then show thesis using n(2) by (rule that)
qed

section \<open>The operations succeed\<close>

lemma Create_live:
  assumes "conforms x out obs c (o_Roots opts) auth" "hkdf_total x" "entropyLasts w" "o_RPID opts \<noteq> []"
    and names: "noNUL (o_RPID opts)" "noNUL (o_RPName opts)"
  obtains s dk w' where "Create x auth opts w = (Inr s, w')" "entropyLasts w'"
    "ses_dataKey s = Some dk" "ses_opts s = opts" "length (v_Salt (ses_doc s)) = 32"
    "v_UserVerified (ses_doc s) = obs UVDiscouraged" "map k_CredentialID (v_Keys (ses_doc s)) = [c]"
    "v_RPID (ses_doc s) = o_RPID opts"
proof -
  have rpName: "noNUL (rpName opts)" using names by (simp add: rpName_def)
  obtain salt w1 where salt: "newSalt w = (Inr salt, w1)" "length salt = 32" "entropyLasts w1"
    using randomBytes_live [OF assms(3)] unfolding newSalt_def SaltLen_def by metis
  obtain cred derived w2 where e: "enrollAndDerive x auth (createdDoc opts salt False False) opts UVDiscouraged w1
      = (Inr (cred, derived), w2)" "er_CredentialID cred = c" "dr_UserVerified derived = obs UVDiscouraged"
      "dr_Secret derived = out salt (obs UVDiscouraged)" "entropyLasts w2"
    using enrollAndDerive_live [OF assms(1) salt(3), of "createdDoc opts salt False False" UVDiscouraged] salt(2) names rpName
    by auto
  obtain w3 where g: "verifyDerivationDependsOnSalt auth (o_RPID opts) c salt (out salt (obs UVDiscouraged))
      UVDiscouraged (obs UVDiscouraged) w2 = (Inr (), w3)" "entropyLasts w3"
    using gate_live [OF assms(1) e(5) salt(2) names(1), of UVDiscouraged] by metis
  obtain dk w4 where dk: "newDataKey w3 = (Inr dk, w4)" "entropyLasts w4"
    using randomBytes_live [OF g(2)] unfolding newDataKey_def by metis
  obtain entry w5 where k: "wrapDataKey x (createdDoc opts salt (obs UVDiscouraged) True) dk c
      (out salt (obs UVDiscouraged)) firstSlot (optsLabel opts) w4 = (Inr entry, w5)" "entropyLasts w5"
    using wrapDataKey_live [OF assms(2) dk(2) conformsD(2) [OF assms(1)]] by metis
  have "Create x auth opts w = (Inr \<lparr>ses_doc = (createdDoc opts salt (obs UVDiscouraged) True)\<lparr>v_Keys := [entry]\<rparr>,
      ses_opts = opts, ses_dataKey = Some dk\<rparr>, w5)"
    using salt(1) e(1-4) g(1) dk(1) k(1) assms(4) by (simp add: Create_unfold Options_validate_def bindE_def)
  then show thesis
    by (rule that) (use k salt(2) in \<open>auto simp: wrapDataKey_ok\<close>)
qed

lemma EnrollKey_live:
  assumes "conforms x out obs c (o_Roots (ses_opts s)) auth" "hkdf_total x" "entropyLasts w"
    and "ses_dataKey s = Some dk" "length (v_Salt (ses_doc s)) = 32"
    and "0 \<le> slot" "\<not> slotOccupied (ses_doc s) slot" "findKey (ses_doc s) c = None"
    and "obs (uvRequirement (ses_doc s)) = v_UserVerified (ses_doc s)"
    and names: "noNUL (v_RPID (ses_doc s))" "noNUL (rpName (ses_opts s))"
  obtains s' w' where "EnrollKey x auth slot label (s, w) = (Inr (), (s', w'))" "entropyLasts w'"
    "map k_CredentialID (v_Keys (ses_doc s')) = map k_CredentialID (v_Keys (ses_doc s)) @ [c]"
proof -
  let ?d = "ses_doc s" and ?uv = "uvRequirement (ses_doc s)"
  obtain cred derived w2 where e: "enrollAndDerive x auth ?d (ses_opts s) ?uv w = (Inr (cred, derived), w2)"
      "er_CredentialID cred = c" "dr_UserVerified derived = obs ?uv"
      "dr_Secret derived = out (v_Salt ?d) (obs ?uv)" "entropyLasts w2"
    using enrollAndDerive_live [OF assms(1,3,5) names, of ?uv] by metis
  obtain w3 where g: "verifyDerivationDependsOnSalt auth (v_RPID ?d) c (v_Salt ?d) (out (v_Salt ?d) (obs ?uv))
      ?uv (obs ?uv) w2 = (Inr (), w3)" "entropyLasts w3"
    using gate_live [OF assms(1) e(5) assms(5) names(1), of ?uv] by metis
  obtain entry w4 where k: "wrapDataKey x ?d dk c (out (v_Salt ?d) (obs ?uv)) slot (enrollLabel label) w3
      = (Inr entry, w4)" "entropyLasts w4"
    using wrapDataKey_live [OF assms(2) g(2) conformsD(2) [OF assms(1)]] by metis
  have "EnrollKey x auth slot label (s, w) = (Inr (), (s\<lparr>ses_doc := ?d\<lparr>v_Keys := v_Keys ?d @ [entry]\<rparr>\<rparr>, w4))"
    using e(1-4) g(1) k(1) assms(4,6-9)
    by (simp add: EnrollKey_def keyM_def docM_def optsM_def onWorld_def setDocM_def bindE_def Let_def
        enrollLabel_def split del: if_split)
  then show thesis by (rule that) (use k in \<open>auto simp: wrapDataKey_ok\<close>)
qed

text \<open>The slot \<open>FreeSlot\<close> picks from the listing of a session is one \<open>EnrollKey\<close> accepts.\<close>

lemma FreeSlot_accepted:
  "FreeSlot (session_Slots s) = Some n \<Longrightarrow> 0 \<le> n \<and> \<not> slotOccupied (ses_doc s) n"
  by (rule FreeSlot_not_occupied) (simp add: session_Slots_def)

end
