(* ===== verification/Freshness.thy ===== *)
theory Freshness
  imports Session
begin

text \<open>
  Where the nonces of a document come from. Every call consumes the entropy source from where the last
  one stopped, errors included, so the draws of a run are numbered once and for all; each nonce of a
  document is the first twelve bytes of a draw of its own.
\<close>

section \<open>The entropy source only advances\<close>

definition advances :: "'d world \<Rightarrow> 'd world \<Rightarrow> bool" where
  "advances w w' \<longleftrightarrow> w_entropy w' = w_entropy w \<and> w_draws w \<le> w_draws w'"

lemma advances_refl [simp, intro]: "advances w w"
  by (simp add: advances_def)

lemma advances_trans [trans]: "advances a b \<Longrightarrow> advances b c \<Longrightarrow> advances a c"
  by (simp add: advances_def)

text \<open>An effect whose state contains the world (as \<open>view\<close> sees it) and that only advances it.\<close>

named_theorems advance "effects that only advance the entropy source"

definition advancing :: "('w \<Rightarrow> 'd world) \<Rightarrow> ('e, 'a, 'w) effect \<Rightarrow> bool" where
  "advancing view m \<longleftrightarrow> (\<forall>w. advances (view w) (view (snd (m w))))"

lemma advancingD: "advancing view m \<Longrightarrow> m w = (r, w') \<Longrightarrow> advances (view w) (view w')"
  unfolding advancing_def by (metis snd_conv)

lemma advancingI: "(\<And>w r w'. m w = (r, w') \<Longrightarrow> advances (view w) (view w')) \<Longrightarrow> advancing view m"
  unfolding advancing_def by (metis prod.collapse)

lemma advancing_bind [advance]:
  assumes "advancing view m" "\<And>a. advancing view (f a)"
  shows "advancing view (bindE m f)"
proof (rule advancingI)
  fix w r w'
  assume run: "bindE m f w = (r, w')"
  obtain r1 w1 where first: "m w = (r1, w1)" by (metis prod.collapse)
  show "advances (view w) (view w')"
  proof (cases r1)
    case (Inl e)
    with run first advancingD [OF assms(1) first] show ?thesis by (simp add: bindE_def)
  next
    case (Inr a)
    with run first have "f a w1 = (r, w')" by (simp add: bindE_def)
    with advancingD [OF assms(1) first] advancingD [OF assms(2)] show ?thesis
      by (blast intro: advances_trans)
  qed
qed

lemma advancing_pure [advance]:
  "advancing view (returnE a)" "advancing view (throwE e)" "advancing view (liftE r)"
  by (simp_all add: advancing_def returnE_def throwE_def liftE_def)

lemma advancing_cases [advance]:
  "advancing v a \<Longrightarrow> advancing v b \<Longrightarrow> advancing v (if c then a else b)"
  "(\<And>p q. advancing v (g p q)) \<Longrightarrow> advancing v (case z of (p, q) \<Rightarrow> g p q)"
  "advancing v n \<Longrightarrow> (\<And>y. advancing v (h y)) \<Longrightarrow> advancing v (case o1 of None \<Rightarrow> n | Some y \<Rightarrow> h y)"
  by (simp_all split: prod.split option.split)

lemma advancing_wrap [advance]: "advancing view m \<Longrightarrow> advancing view (wrapE g m)"
  by (rule advancingI) (auto simp: wrapE_def dest: advancingD split: prod.splits)

lemma advancing_calls [advance]:
  "advancing id (randomBytes n)" "advancing id (callEnroll auth req1)" "advancing id (callDerive auth req2)"
  by (auto intro!: advancingI simp: advances_def dest!: randomBytes_world callEnroll_world callDerive_world)

lemma advancing_session [advance]:
  "advancing snd keyM" "advancing snd docM" "advancing snd optsM" "advancing snd (setDocM d)"
  by (auto simp: advancing_def keyM_def docM_def optsM_def setDocM_def)

lemma advancing_onWorld [advance]: "advancing id m \<Longrightarrow> advancing snd (onWorld m)"
  by (rule advancingI) (auto simp: onWorld_def dest: advancingD split: prod.splits)

lemma advancing_seal [advance]: "advancing id (seal p key pt ad)"
  unfolding seal_def by (intro advance)

lemma advancing_boxes [advance]:
  "advancing id (wrapDataKey p v dk c prf slot label)" "advancing id (sealSecret p v dk name pt)"
  unfolding wrapDataKey_def sealSecret_def by (intro advance)+

lemma advancing_enroll [advance]:
  "advancing id (enrollAndDerive x auth doc opts uv)"
  "advancing id (verifyDerivationDependsOnSalt auth rp c salt out uv obs)"
  unfolding enrollAndDerive_def verifyDerivationDependsOnSalt_def by (intro advance)+

lemma advancing_runOp [advance]: "advancing snd (runOp x auth a)"
  by (cases a)
    (simp_all only: runOp.simps Put_def Delete_def EnrollKey_def RemoveKey_def ForceRemoveKey_def removeKey_def Let_def,
      (intro advance)+)

section \<open>Nonces\<close>

text \<open>The nonces drawn from draw \<open>i\<close> up to before draw \<open>j\<close>, and those in a document.\<close>

definition drawn :: "'d world \<Rightarrow> nat \<Rightarrow> nat \<Rightarrow> bytes set" where
  "drawn w i j = {n. \<exists>k g. i \<le> k \<and> k < j \<and> w_entropy w k = Some g \<and> n = map g [0..<12]}"

definition nonces :: "sealedVault \<Rightarrow> bytes list" where
  "nonces d = map k_Nonce (v_Keys d) @ map s_Nonce (v_Secrets d)"

text \<open>What is asked of the source: no two draws agree in their first twelve bytes.\<close>

definition never_repeats :: "'d world \<Rightarrow> bool" where
  "never_repeats w \<longleftrightarrow> (\<forall>i j g h. i \<noteq> j \<longrightarrow> w_entropy w i = Some g \<longrightarrow> w_entropy w j = Some h \<longrightarrow>
     map g [0..<12] \<noteq> map h [0..<12])"

lemma drawn_disjoint: "never_repeats w \<Longrightarrow> j \<le> k \<Longrightarrow> drawn w i j \<inter> drawn w k l = {}"
  unfolding drawn_def never_repeats_def by (auto, metis not_le order_less_le_trans)

lemma drawn_mono: "i \<le> i' \<Longrightarrow> j' \<le> j \<Longrightarrow> drawn w i' j' \<subseteq> drawn w i j"
  unfolding drawn_def by (blast intro: order_trans order_less_le_trans)

lemma drawn_advances: "advances w w' \<Longrightarrow> drawn w' = drawn w"
  by (intro ext) (simp add: drawn_def advances_def)

text \<open>One call, or a run of them: what is new in the document was drawn meanwhile, and if the nonces
  before were different draws of the past, so are the nonces after.\<close>

definition drawsBetween :: "session \<times> 'd world \<Rightarrow> session \<times> 'd world \<Rightarrow> bool" where
  "drawsBetween = (\<lambda>(s, w) (s', w'). advances w w'
     \<and> (\<forall>k \<in> set (v_Keys (ses_doc s')). k \<in> set (v_Keys (ses_doc s)) \<or> k_Nonce k \<in> drawn w (w_draws w) (w_draws w'))
     \<and> (\<forall>e \<in> set (v_Secrets (ses_doc s')). e \<in> set (v_Secrets (ses_doc s)) \<or> s_Nonce e \<in> drawn w (w_draws w) (w_draws w')))"

definition noncesFresh :: "session \<times> 'd world \<Rightarrow> bool" where
  "noncesFresh = (\<lambda>(s, w). distinct (nonces (ses_doc s)) \<and> set (nonces (ses_doc s)) \<subseteq> drawn w 0 (w_draws w))"

lemma drawsBetween_refl: "advances w w' \<Longrightarrow> drawsBetween (s, w) (s, w')"
  by (simp add: drawsBetween_def)

lemma drawsBetween_trans:
  assumes "drawsBetween a b" "drawsBetween b c"
  shows "drawsBetween a c"
proof -
  obtain s w s1 w1 s2 w2 where abc: "a = (s, w)" "b = (s1, w1)" "c = (s2, w2)" by (metis prod.collapse)
  have adv: "advances w w1" "advances w1 w2" using assms by (simp_all add: abc drawsBetween_def)
  have "drawn w (w_draws w) (w_draws w1) \<subseteq> drawn w (w_draws w) (w_draws w2)"
    "drawn w1 (w_draws w1) (w_draws w2) \<subseteq> drawn w (w_draws w) (w_draws w2)"
    unfolding drawn_advances [OF adv(1)] by (rule drawn_mono; use adv in \<open>simp add: advances_def\<close>)+
  with assms advances_trans [OF adv] show ?thesis by (auto simp: abc drawsBetween_def) blast+
qed

lemma seal_drawn: "seal p key pt ad w = (Inr (n, c), w') \<Longrightarrow> n \<in> drawn w (w_draws w) (w_draws w')"
  by (auto simp: seal_ok randomBytes_ok drawn_def)

lemma past_not_drawn:
  "noncesFresh (s, w) \<Longrightarrow> never_repeats w \<Longrightarrow> n \<in> drawn w (w_draws w) j \<Longrightarrow> n \<notin> set (nonces (ses_doc s))"
  using drawn_disjoint [of w "w_draws w" "w_draws w" 0 j] by (auto simp: noncesFresh_def)

text \<open>A document whose nonces are those of before, with at most one more, drawn meanwhile.\<close>

lemma noncesFresh_step:
  assumes "noncesFresh (s, w)" "advances w w'" "distinct (nonces (ses_doc s'))"
    and "set (nonces (ses_doc s')) \<subseteq> set (nonces (ses_doc s)) \<union> drawn w (w_draws w) (w_draws w')"
  shows "noncesFresh (s', w')"
proof -
  have "drawn w 0 (w_draws w) \<subseteq> drawn w 0 (w_draws w')"
    "drawn w (w_draws w) (w_draws w') \<subseteq> drawn w 0 (w_draws w')"
    using assms(2) by (simp_all add: drawn_mono advances_def)
  then show ?thesis using assms drawn_advances [OF assms(2)] by (auto simp: noncesFresh_def)
qed

lemma putSecretIn_distinct:
  "distinct (map s_Nonce ss) \<Longrightarrow> s_Nonce e \<notin> s_Nonce ` set ss \<Longrightarrow> distinct (map s_Nonce (putSecretIn ss name e))"
proof (induction ss)
  case (Cons s ss)
  then show ?case using putSecretIn_set [of ss name e] by auto
qed simp

lemma deleteSecretIn_part:
  "deleteSecretIn ss name = Some ss' \<Longrightarrow> set ss' \<subseteq> set ss \<and> (distinct (map s_Nonce ss) \<longrightarrow> distinct (map s_Nonce ss'))"
proof (induction ss arbitrary: ss')
  case (Cons s ss)
  then show ?case by (auto split: if_splits) blast+
qed simp

lemma disjoint_with_new: "A \<inter> S = {} \<Longrightarrow> a \<notin> A \<Longrightarrow> T \<subseteq> insert a S \<Longrightarrow> A \<inter> T = {}"
  by blast

lemma Put_fresh:
  assumes "Put x name rd (s, w) = (Inr (), (s', w'))" "never_repeats w"
  shows "drawsBetween (s, w) (s', w') \<and> (noncesFresh (s, w) \<longrightarrow> noncesFresh (s', w'))"
proof -
  obtain dk pt e where sealed: "sealSecret x (ses_doc s) dk name pt w = (Inr e, w')"
    and s': "s' = s\<lparr>ses_doc := (ses_doc s)\<lparr>v_Secrets := putSecretIn (v_Secrets (ses_doc s)) name e\<rparr>\<rparr>"
    using assms(1) by (auto simp: Put_ok_iff)
  have adv: "advances w w'" using advancingD [OF advancing_boxes(2) sealed] by simp
  have new: "s_Nonce e \<in> drawn w (w_draws w) (w_draws w')"
    using sealed seal_drawn by (fastforce simp: sealSecret_def results)
  have sub: "set (putSecretIn (v_Secrets (ses_doc s)) name e) \<subseteq> insert e (set (v_Secrets (ses_doc s)))"
    by (rule putSecretIn_set)
  have "noncesFresh (s', w')" if fresh: "noncesFresh (s, w)"
  proof (rule noncesFresh_step [OF fresh adv])
    have "s_Nonce e \<notin> set (nonces (ses_doc s))" using past_not_drawn [OF fresh assms(2) new] .
    then have out: "s_Nonce e \<notin> k_Nonce ` set (v_Keys (ses_doc s))" "s_Nonce e \<notin> s_Nonce ` set (v_Secrets (ses_doc s))"
      by (auto simp: nonces_def)
    have was: "distinct (map k_Nonce (v_Keys (ses_doc s)))" "distinct (map s_Nonce (v_Secrets (ses_doc s)))"
      "k_Nonce ` set (v_Keys (ses_doc s)) \<inter> s_Nonce ` set (v_Secrets (ses_doc s)) = {}"
      using fresh by (simp_all add: noncesFresh_def nonces_def)
    have "s_Nonce ` set (putSecretIn (v_Secrets (ses_doc s)) name e)
        \<subseteq> insert (s_Nonce e) (s_Nonce ` set (v_Secrets (ses_doc s)))"
      using image_mono [OF sub, of s_Nonce] by simp
    then have "k_Nonce ` set (v_Keys (ses_doc s)) \<inter> s_Nonce ` set (putSecretIn (v_Secrets (ses_doc s)) name e) = {}"
      by (rule disjoint_with_new [OF was(3) out(1)])
    then show "distinct (nonces (ses_doc s'))"
      using was putSecretIn_distinct [OF was(2) out(2)] by (simp add: nonces_def s')
    show "set (nonces (ses_doc s')) \<subseteq> set (nonces (ses_doc s)) \<union> drawn w (w_draws w) (w_draws w')"
      using sub new by (auto simp: nonces_def s')
  qed
  moreover have "drawsBetween (s, w) (s', w')" using sub new adv by (auto simp: drawsBetween_def s')
  ultimately show ?thesis by blast
qed

lemma EnrollKey_fresh:
  assumes "EnrollKey x auth slot label (s, w) = (Inr (), (s', w'))" "never_repeats w"
  shows "drawsBetween (s, w) (s', w') \<and> (noncesFresh (s, w) \<longrightarrow> noncesFresh (s', w'))"
proof -
  obtain dk cred derived w1 w2 k where
      enrolled: "enrollAndDerive x auth (ses_doc s) (ses_opts s) (uvRequirement (ses_doc s)) w = (Inr (cred, derived), w1)"
    and gate: "verifyDerivationDependsOnSalt auth (v_RPID (ses_doc s)) (er_CredentialID cred) (v_Salt (ses_doc s))
        (dr_Secret derived) (uvRequirement (ses_doc s)) (dr_UserVerified derived) w1 = (Inr (), w2)"
    and wrapped: "wrapDataKey x (ses_doc s) dk (er_CredentialID cred) (dr_Secret derived) slot (enrollLabel label) w2
        = (Inr k, w')"
    and s': "s' = s\<lparr>ses_doc := (ses_doc s)\<lparr>v_Keys := v_Keys (ses_doc s) @ [k]\<rparr>\<rparr>"
    using EnrollKey_ok [OF assms(1)] by auto
  have before: "advances w w2" and last: "advances w2 w'"
    using advancingD [OF advancing_enroll(1) enrolled] advancingD [OF advancing_enroll(2) gate]
      advancingD [OF advancing_boxes(1) wrapped] by (auto intro: advances_trans)
  have adv: "advances w w'" using before last by (rule advances_trans)
  have "k_Nonce k \<in> drawn w2 (w_draws w2) (w_draws w')"
    using wrapped seal_drawn by (fastforce simp: wrapDataKey_ok)
  then have new: "k_Nonce k \<in> drawn w (w_draws w) (w_draws w')"
    using drawn_mono [of "w_draws w" "w_draws w2" "w_draws w'" "w_draws w'" w] drawn_advances [OF before] before
    by (auto simp: advances_def)
  have "noncesFresh (s', w')" if fresh: "noncesFresh (s, w)"
  proof (rule noncesFresh_step [OF fresh adv])
    have "k_Nonce k \<notin> set (nonces (ses_doc s))" using past_not_drawn [OF fresh assms(2) new] .
    with fresh show "distinct (nonces (ses_doc s'))" by (auto simp: noncesFresh_def nonces_def s')
    show "set (nonces (ses_doc s')) \<subseteq> set (nonces (ses_doc s)) \<union> drawn w (w_draws w) (w_draws w')"
      using new by (auto simp: nonces_def s')
  qed
  moreover have "drawsBetween (s, w) (s', w')" using new adv by (auto simp: drawsBetween_def s')
  ultimately show ?thesis by blast
qed

lemma drawsBetween_part:
  assumes "set (v_Keys (ses_doc s')) \<subseteq> set (v_Keys (ses_doc s))" "set (v_Secrets (ses_doc s')) \<subseteq> set (v_Secrets (ses_doc s))"
    and "distinct (nonces (ses_doc s)) \<longrightarrow> distinct (nonces (ses_doc s'))"
  shows "drawsBetween (s, w) (s', w) \<and> (noncesFresh (s, w) \<longrightarrow> noncesFresh (s', w))"
proof
  show "drawsBetween (s, w) (s', w)" using assms(1,2) by (auto simp: drawsBetween_def)
  have "set (nonces (ses_doc s')) \<subseteq> set (nonces (ses_doc s))"
    unfolding nonces_def set_append set_map using assms(1,2) by (intro Un_mono image_mono)
  with assms(3) show "noncesFresh (s, w) \<longrightarrow> noncesFresh (s', w)" by (auto simp: noncesFresh_def)
qed

lemma removeKey_fresh:
  assumes "removeKey slot (s, w) = (Inr (), (s', w'))"
  shows "drawsBetween (s, w) (s', w') \<and> (noncesFresh (s, w) \<longrightarrow> noncesFresh (s', w'))"
proof -
  have "w' = w" "ses_doc s' = (ses_doc s)\<lparr>v_Keys := filter (\<lambda>k. k_Slot k \<noteq> slot) (v_Keys (ses_doc s))\<rparr>"
    using assms by (auto simp: results)
  then show ?thesis
    by (simp only:) (rule drawsBetween_part; auto simp: nonces_def distinct_map_filter)
qed

lemma Delete_fresh:
  assumes "Delete name (s, w) = (Inr (), (s', w'))"
  shows "drawsBetween (s, w) (s', w') \<and> (noncesFresh (s, w) \<longrightarrow> noncesFresh (s', w'))"
proof -
  obtain ss where ss: "deleteSecretIn (v_Secrets (ses_doc s)) name = Some ss" "w' = w"
    "ses_doc s' = (ses_doc s)\<lparr>v_Secrets := ss\<rparr>"
    using assms by (auto simp: Delete_ok_iff)
  from deleteSecretIn_part [OF ss(1)] show ?thesis
    by (simp only: ss(2)) (rule drawsBetween_part; auto simp: nonces_def ss(3))
qed

lemma runOp_fresh:
  assumes "runOp x auth a (s, w) = (r, (s', w'))" "never_repeats w"
  shows "drawsBetween (s, w) (s', w') \<and> (noncesFresh (s, w) \<longrightarrow> noncesFresh (s', w'))"
proof (cases r)
  case (Inl e)
  then have "s' = s" using run.error_keeps assms(1) by blast
  moreover have adv: "advances w w'" using advancingD [OF advancing_runOp assms(1)] by simp
  moreover have "noncesFresh (s, w')" if "noncesFresh (s, w)"
    using that by (intro noncesFresh_step [OF that adv]) (auto simp: noncesFresh_def)
  ultimately show ?thesis by (simp add: drawsBetween_refl)
next
  case (Inr u)
  with assms show ?thesis
    by (cases a) (auto simp: RemoveKey_ok_iff ForceRemoveKey_ok_iff
      dest: Put_fresh EnrollKey_fresh Delete_fresh removeKey_fresh)
qed

section \<open>Runs that go on after errors\<close>

fun attempts :: "('a \<Rightarrow> (unit, 'd) sessionM) \<Rightarrow> 'a list \<Rightarrow> session \<times> 'd world \<Rightarrow> session \<times> 'd world" where
  "attempts run [] sw = sw"
| "attempts run (a # as) sw = attempts run as (snd (run a sw))"

lemma attempts_fresh:
  assumes "attempts (runOp x auth) ops (s, w) = (s', w')" "never_repeats w"
  shows "drawsBetween (s, w) (s', w') \<and> (noncesFresh (s, w) \<longrightarrow> noncesFresh (s', w'))"
  using assms
proof (induction ops arbitrary: s w)
  case Nil
  then show ?case by (simp add: drawsBetween_refl)
next
  case (Cons a ops)
  obtain r s1 w1 where first: "runOp x auth a (s, w) = (r, (s1, w1))" by (metis prod.collapse)
  note one = runOp_fresh [OF first Cons.prems(2)]
  then have "never_repeats w1" using Cons.prems(2)
    by (simp add: never_repeats_def drawsBetween_def advances_def)
  with Cons.IH [of s1 w1] Cons.prems(1) first one show ?case
    by (auto intro: drawsBetween_trans)
qed

lemma Create_fresh:
  assumes "Create x auth opts w = (Inr s, w')"
  shows "noncesFresh (s, w')" "advances w w'"
proof -
  obtain salt w1 cred derived w2 w3 dk w4 entry where
      salt: "randomBytes 32 w = (Inr salt, w1)"
    and enrolled: "enrollAndDerive x auth (createdDoc opts salt False False) opts UVDiscouraged w1
        = (Inr (cred, derived), w2)"
    and gate: "verifyDerivationDependsOnSalt auth (o_RPID opts) (er_CredentialID cred) salt
        (dr_Secret derived) UVDiscouraged (dr_UserVerified derived) w2 = (Inr (), w3)"
    and dk: "randomBytes 32 w3 = (Inr dk, w4)"
    and wrapped: "wrapDataKey x (createdDoc opts salt (dr_UserVerified derived) True) dk
        (er_CredentialID cred) (dr_Secret derived) 0 (optsLabel opts) w4 = (Inr entry, w')"
    and s: "s = \<lparr>ses_doc = (createdDoc opts salt (dr_UserVerified derived) True)\<lparr>v_Keys := [entry]\<rparr>,
           ses_opts = opts, ses_dataKey = Some dk\<rparr>"
    using Create_ok [OF assms] by (elim exE conjE) (rule that)
  have before: "advances w w4"
    using advancingD [OF advancing_calls(1) salt] advancingD [OF advancing_enroll(1) enrolled]
      advancingD [OF advancing_enroll(2) gate] advancingD [OF advancing_calls(1) dk]
    by (simp) (blast intro: advances_trans)
  have last: "advances w4 w'" using advancingD [OF advancing_boxes(1) wrapped] by simp
  show "advances w w'" using before last by (rule advances_trans)
  have "k_Nonce entry \<in> drawn w4 (w_draws w4) (w_draws w')"
    using wrapped seal_drawn by (fastforce simp: wrapDataKey_ok)
  then show "noncesFresh (s, w')"
    using drawn_mono [of 0 "w_draws w4" "w_draws w'" "w_draws w'" w4] drawn_advances [OF last]
    by (auto simp: noncesFresh_def nonces_def s)
qed

lemma kept_or_new:
  assumes "drawsBetween (s, w) (s', w')" "noncesFresh (s, w)" "never_repeats w"
  shows "\<forall>k \<in> set (v_Keys (ses_doc s')). k \<in> set (v_Keys (ses_doc s)) \<or> k_Nonce k \<notin> set (nonces (ses_doc s))"
    and "\<forall>e \<in> set (v_Secrets (ses_doc s')). e \<in> set (v_Secrets (ses_doc s)) \<or> s_Nonce e \<notin> set (nonces (ses_doc s))"
  using assms past_not_drawn [OF assms(2,3)] unfolding drawsBetween_def by fast+

end
