(* ===== verification/VaultGuarantees.thy ===== *)
theory VaultGuarantees
  imports Samples Liveness Freshness
begin

text \<open>
  What the lifecycle guarantees: creating, unlocking, the methods of a session and whole runs of them,
  each with an instance on the concrete parameters of \<open>Samples\<close> where it has hypotheses.
\<close>

section \<open>A concrete session\<close>

abbreviation toyAt :: "nat \<Rightarrow> unit world" where
  "toyAt d \<equiv> (toyWorldTo 100)\<lparr>w_draws := d\<rparr>"

lemma toySession_simps [simp]:
  "ses_dataKey (toySession i) = Some toyDataKey" "ses_opts (toySession i) = toyOpts"
  "ses_doc (toySession i) = toyDoc0\<lparr>v_Keys := [toyEntry i]\<rparr>"
  by (simp_all add: toySession_def)

lemma toyEntry_simps [simp]:
  "k_Slot (toyEntry i) = 0" "k_CredentialID (toyEntry i) = [i]" "k_Label (toyEntry i) = ''primary''"
  by (simp_all add: toyEntry_def)

lemma toyDoc0_simps [simp]:
  "v_Format toyDoc0 = 1" "v_RPID toyDoc0 = ''v.invalid''" "v_Salt toyDoc0 = replicate 32 0"
  "v_UserVerified toyDoc0 = False" "v_EntropyVerified toyDoc0 = True" "v_Keys toyDoc0 = []" "v_Secrets toyDoc0 = []"
  by (simp_all add: toyDoc0_def toyOpts_def formatVersion_def)

lemma toySession_coherent: "coherent toyX toyPRF toyDataKey (\<lambda>_. None) (ses_doc (toySession i))"
proof -
  obtain gs where "Create toyX (toyKey i) toyOpts (toyWorldTo 100) =
     (Inr (toySession i), \<lparr>w_device = (), w_entropy = w_entropy (toyWorldTo 100), w_draws = 4, w_gestures = gs\<rparr>)"
    using toy_create by blast
  from Create_coherent [OF toyKey_honest this] show ?thesis by auto
qed

text \<open>A session with one secret stored, and the run that made it.\<close>

definition toySecret :: sealedSecret where
  "toySecret = \<lparr>s_Name = ''a'', s_Nonce = replicate 12 4,
     s_Ciphertext = toySeal toyDataKey (replicate 12 4) [1, 2] (secretAAD toyDoc0 ''a'')\<rparr>"

definition toySession2 :: "byte \<Rightarrow> session" where
  "toySession2 i = (toySession i)\<lparr>ses_doc := toyDoc0\<lparr>v_Keys := [toyEntry i], v_Secrets := [toySecret]\<rparr>\<rparr>"

lemma toy_aad [simp]:
  "secretAAD (toyDoc0\<lparr>v_Keys := ks\<rparr>) n = secretAAD toyDoc0 n"
  "secretAAD (toyDoc0\<lparr>v_Keys := ks, v_Secrets := ss\<rparr>) n = secretAAD toyDoc0 n"
  "keyAAD (toyDoc0\<lparr>v_Keys := ks\<rparr>) s c = keyAAD toyDoc0 s c"
  "keyAAD (toyDoc0\<lparr>v_Keys := ks, v_Secrets := ss\<rparr>) s c = keyAAD toyDoc0 s c"
  by (rule secretAAD_cong keyAAD_cong, simp add: sameHeader_def)+

lemma toy_put:
  "Put toyX ''a'' (Some (Inr [1, 2])) (toySession i, toyAt 4) = (Inr (), (toySession2 i, toyAt 5))"
  by (simp add: Put_def keyM_def docM_def onWorld_def setDocM_def sealSecret_def toyRun toySession2_def
      toySecret_def toyDataKey_def toySession_def)

lemma toySession2_coherent:
  "coherent toyX toyPRF toyDataKey [''a'' \<mapsto> [1, 2]] (ses_doc (toySession2 i))"
  using Put_coherent [OF toyX_roundtrip toySession_coherent _ toy_put] by simp

lemma toySession2_simps [simp]:
  "ses_dataKey (toySession2 i) = Some toyDataKey" "ses_opts (toySession2 i) = toyOpts"
  "ses_doc (toySession2 i) = toyDoc0\<lparr>v_Keys := [toyEntry i], v_Secrets := [toySecret]\<rparr>"
  by (simp_all add: toySession2_def)

text \<open>Two runs: the second enrolls key 2 as a backup.\<close>

definition toyOps :: "operation list" where
  "toyOps = [OpPut ''a'' (Some (Inr [1, 2])), OpPut ''b'' (Some (Inr [3])), OpEnroll 1 ''backup'', OpDelete ''b'']"

lemma toy_ops_run:
  "\<exists>s w. runOps (runOp toyX (toyKey 2)) toyOps (toySession 1, toyAt 4) = (Inr (), (s, w))
     \<and> credentialIDs (ses_doc s) = [[1], [2]] \<and> v_UserVerified (ses_doc s) = False"
  by (simp add: toyOps_def bindE_apply toy_put [of 1, simplified])
     (simp add: Put_def EnrollKey_def Delete_def keyM_def docM_def optsM_def onWorld_def setDocM_def
      sealSecret_def toyRun toyDataKey_def toySession2_def toySession_def slotOccupied_def uvRequirement_def
      findKey_def toySecret_def toyOpts_def Let_def credentialIDs_def)

section \<open>Runs against the abstract vault\<close>

lemma coherent_names:
  assumes "coherent x pf dk A d"
  shows "set (names d) = dom A" "sorted (names d)" "distinct (names d)"
proof -
  have "n \<in> s_Name ` set (v_Secrets d) \<longleftrightarrow> A n \<noteq> None" for n
    using secretsOpen_value(2) [OF coherentD(5) [OF assms], of n] findSecretIn_None [of "v_Secrets d" n]
    by (auto simp: findSecret_def)
  then show "set (names d) = dom A" by (auto simp: names_def dom_def)
  show "sorted (names d)" by (simp add: names_def)
  show "distinct (names d)"
    using coherentD(2) [OF assms] by (simp add: names_def wfVault_def wfSecrets_def)
qed

text \<open>C2: the vault is a map from names to values. After any successful run of Put, Delete, EnrollKey,
  RemoveKey and ForceRemoveKey on a session, reading a name returns what the same run of map updates
  and deletions holds for it, or \<open>ErrNoSuchSecret\<close> when it holds nothing; and \<open>Names\<close> lists
  exactly the names that are held, sorted and once each.\<close>

theorem operations_refine_map:
  assumes "honest x pf auth" and "coherent x pf dk A (ses_doc s)" "ses_dataKey s = Some dk"
    and "runOps (runOp x auth) ops (s, w) = (Inr (), (s', w'))"
  shows "ReadString x n (s', w'') =
      (case absOps ops A n of Some pt \<Rightarrow> Inr (string_of_bytes pt)
       | None \<Rightarrow> Inl (wrap ''%w: %q'' (Sentinel ErrNoSuchSecret)), (s', w''))
    \<and> set (session_Names s') = dom (absOps ops A)
    \<and> sorted (session_Names s') \<and> distinct (session_Names s')"
proof -
  have co: "coherent x pf dk (absOps ops A) (ses_doc s')" "ses_dataKey s' = Some dk"
    using runOps_coherent [OF assms(1,4,2,3)] by simp_all
  from ReadString_coherent [OF coherentD(5) [OF co(1)] co(2)] coherent_names [OF co(1)]
  show ?thesis by (simp add: session_Names_def)
qed

theorem operations_refine_map_witness:
  "\<exists>s' w'. runOps (runOp toyX (toyKey 2)) toyOps (toySession 1, toyAt 4) = (Inr (), (s', w'))
     \<and> fst (ReadString toyX ''a'' (s', w')) = Inr (string_of_bytes [1, 2])
     \<and> fst (ReadString toyX ''b'' (s', w')) = Inl (wrap ''%w: %q'' (Sentinel ErrNoSuchSecret))
     \<and> set (session_Names s') = {''a''}"
proof -
  obtain s' w' where run: "runOps (runOp toyX (toyKey 2)) toyOps (toySession 1, toyAt 4) = (Inr (), (s', w'))"
    using toy_ops_run by blast
  note all = operations_refine_map [OF toyKey_honest toySession_coherent _ run]
  have "absOps toyOps (\<lambda>_. None) = [''a'' \<mapsto> [1, 2]]" by (auto simp: absOps_def toyOps_def)
  with all [of "''a''" w'] all [of "''b''" w'] run show ?thesis by auto
qed

section \<open>Unlocking\<close>

text \<open>C3: any enrolled key opens the vault, the backups like the first. If the device answers the request
  with a touch and the recorded user verification, unlocking succeeds, spends that one gesture, and the
  session holds the data key.\<close>

theorem every_enrolled_key_unlocks:
  assumes "honest x pf auth" and "coherent x pf dk A (vt_doc v)"
    and "callDerive auth (unlockRequest (vt_doc v)) w = (Inr derived, w')"
    and "dr_UserPresent derived" "dr_UserVerified derived = v_UserVerified (vt_doc v)"
  shows "unlock x v auth w = (Inr \<lparr>ses_doc = vt_doc v, ses_opts = vt_opts v, ses_dataKey = Some dk\<rparr>, w')
    \<and> w_gestures w' = w_gestures w @ [GDerive (unlockRequest (vt_doc v))]"
proof -
  obtain s where s: "unlock x v auth w = (Inr s, w')" "ses_dataKey s = Some dk" "ses_doc s = vt_doc v"
    "ses_opts s = vt_opts v"
    using unlock_live [OF assms] by blast
  then have "s = \<lparr>ses_doc = vt_doc v, ses_opts = vt_opts v, ses_dataKey = Some dk\<rparr>" by (cases s) simp
  with s(1) callDerive_world [OF assms(3)] show ?thesis by simp
qed

definition toyVault :: vault where
  "toyVault = \<lparr>vt_doc = ses_doc (toySession 1), vt_opts = toyOpts\<rparr>"

lemma toyVault_doc [simp]: "vt_doc toyVault = ses_doc (toySession 1)"
  by (simp add: toyVault_def)

lemma toy_unlock_call:
  "callDerive (toyKey 1) (unlockRequest (vt_doc toyVault)) (toyAt 4) =
     (Inr \<lparr>dr_Secret = toyPRF [1] (replicate 32 0) False, dr_CredentialID = [1], dr_UserPresent = True,
           dr_UserVerified = False\<rparr>,
      (toyAt 4)\<lparr>w_gestures := [GDerive (unlockRequest (vt_doc toyVault))]\<rparr>)"
  by (simp add: callDerive_toy toyDerive_def unlockRequest_def credentialIDs_def uvRequirement_def)
     (simp add: toyWorldTo_def)

theorem every_enrolled_key_unlocks_witness:
  "is_ok (fst (unlock toyX toyVault (toyKey 1) (toyAt 4)))"
  using every_enrolled_key_unlocks [OF toyKey_honest _ toy_unlock_call, of toyDataKey "\<lambda>_. None"]
    toySession_coherent [of 1] by simp

text \<open>C5: nothing unlocks without the touch of an enrolled key. A session comes only from a vault with
  an enrolled key and a proven derivation, from one gesture over its stored salt, by a credential it
  has enrolled, with the operator present and verified exactly as at enrollment, under whose secret the
  entry of that credential unwraps; the session then shares the document of the vault.\<close>

theorem unlock_requires_touch:
  assumes "unlock x v auth w = (Inr s, w')"
  shows "v_Keys (vt_doc v) \<noteq> [] \<and> v_EntropyVerified (vt_doc v) \<and> ses_doc s = vt_doc v \<and> ses_opts s = vt_opts v
    \<and> w_gestures w' = w_gestures w @ [GDerive (unlockRequest (vt_doc v))]
    \<and> (\<exists>derived entry dk. callDerive auth (unlockRequest (vt_doc v)) w = (Inr derived, w')
        \<and> dr_UserPresent derived \<and> dr_UserVerified derived = v_UserVerified (vt_doc v)
        \<and> entry \<in> set (v_Keys (vt_doc v)) \<and> k_CredentialID entry = dr_CredentialID derived
        \<and> unwrapDataKey x (vt_doc v) entry (dr_Secret derived) = Inr dk
        \<and> ses_dataKey s = (if dk = [] then None else Some dk))"
proof -
  obtain derived entry dk where keys: "v_Keys (vt_doc v) \<noteq> []" "v_EntropyVerified (vt_doc v)"
    and call: "callDerive auth (unlockRequest (vt_doc v)) w = (Inr derived, w')"
    and ok: "dr_UserPresent derived" "dr_UserVerified derived = v_UserVerified (vt_doc v)"
    and found: "findKey (vt_doc v) (dr_CredentialID derived) = Some entry"
    and opened: "unwrapDataKey x (vt_doc v) entry (dr_Secret derived) = Inr dk"
    and s: "s = \<lparr>ses_doc = vt_doc v, ses_opts = vt_opts v, ses_dataKey = nilIfEmpty dk\<rparr>"
    using unlock_ok [OF assms] by (elim exE conjE) (rule that)
  have "entry \<in> set (v_Keys (vt_doc v))" "k_CredentialID entry = dr_CredentialID derived"
    using findKeyIn_Some found unfolding findKey_def by blast+
  moreover have "w_gestures w' = w_gestures w @ [GDerive (unlockRequest (vt_doc v))]"
    using callDerive_world [OF call] by simp
  ultimately show ?thesis using keys call ok opened by (auto simp: s nilIfEmpty_def)
qed

theorem unlock_requires_touch_witness:
  "\<exists>s w'. unlock toyX toyVault (toyKey 1) (toyAt 4) = (Inr s, w')
     \<and> w_gestures w' = w_gestures (toyAt 4) @ [GDerive (unlockRequest (vt_doc toyVault))]"
proof -
  obtain s where "unlock toyX toyVault (toyKey 1) (toyAt 4) =
      (Inr s, (toyAt 4)\<lparr>w_gestures := [GDerive (unlockRequest (vt_doc toyVault))]\<rparr>)"
    using unlock_live [OF toyKey_honest _ toy_unlock_call, of toyDataKey "\<lambda>_. None"]
      toySession_coherent [of 1] by auto
  with unlock_requires_touch [OF this] show ?thesis by blast
qed

text \<open>A vault that cannot be unlocked says so before it asks for a touch. Without an enrolled key, or
  with a derivation that was never proven, unlocking fails and leaves the world as it was.\<close>

lemma unlock_refuses_before_touch:
  "(v_Keys (vt_doc v) = [] \<longrightarrow> unlock x v auth w = (failWith ErrNoKeysEnrolled, w))
   \<and> (v_Keys (vt_doc v) \<noteq> [] \<and> \<not> v_EntropyVerified (vt_doc v) \<longrightarrow>
        unlock x v auth w = (failWith ErrNotEntropyVerified, w))"
  by (simp add: unlock_def)

section \<open>Creating and enrolling\<close>

lemma enrolled_gestures:
  assumes "enrollAndDerive x auth doc opts uv w = (Inr (cred, derived), w')"
  shows "\<exists>userID. length userID = 16 \<and> w_gestures w' = w_gestures w
    @ [GEnroll (enrollRequest doc opts uv userID), GDerive (firstDerive doc uv (er_CredentialID cred))]"
proof -
  obtain userID w1 w2 where "randomBytes 16 w = (Inr userID, w1)"
    and "callEnroll auth (enrollRequest doc opts uv userID) w1 = (Inr cred, w2)"
    and "callDerive auth (firstDerive doc uv (er_CredentialID cred)) w2 = (Inr derived, w')"
    using enrollAndDerive_ok [OF assms] by blast
  from randomBytes_world [OF this(1)] randomBytes_length [OF this(1)] callEnroll_world [OF this(2)]
    callDerive_world [OF this(3)]
  show ?thesis by (intro exI [of _ userID]) simp
qed

lemma gate_gestures:
  assumes "verifyDerivationDependsOnSalt auth rpID c salt out uv obs w = (Inr (), w')"
  shows "w_gestures w' = w_gestures w @ [GDerive (probeRequest rpID c salt uv)]"
  using assms callDerive_world unfolding gate_ok_iff by blast

lemma wrap_gestures: "wrapDataKey p v dk c secret slot label w = (Inr k, w') \<Longrightarrow> w_gestures w' = w_gestures w"
  using randomBytes_world by (auto simp: wrapDataKey_ok seal_ok)

text \<open>C13: a created vault is what was asked for. The session is unlocked with a fresh 32-byte key; the
  document has the requested RP ID, a fresh 32-byte salt, no secret, a proven derivation, and one key
  in slot 0 under the requested label, whose credential passed attestation; and exactly three gestures
  were asked for: create, derive over the salt, derive over the salt with its last byte flipped.\<close>

theorem Create_result:
  assumes "Create x auth opts w = (Inr s, w')"
  shows "wfVault (ses_doc s) \<and> v_RPID (ses_doc s) = o_RPID opts \<and> v_EntropyVerified (ses_doc s)
    \<and> v_Secrets (ses_doc s) = [] \<and> ses_opts s = opts
    \<and> (\<exists>dk. ses_dataKey s = Some dk \<and> length dk = 32)
    \<and> (\<exists>k cred. v_Keys (ses_doc s) = [k] \<and> k_Slot k = 0
         \<and> k_Label k = (if o_Label opts = [] then ''primary'' else o_Label opts)
         \<and> k_CredentialID k = er_CredentialID cred \<and> \<not> er_ResidentKey cred \<and> genuine x cred (o_Roots opts)
         \<and> (\<exists>userID. w_gestures w' = w_gestures w @
              [GEnroll \<lparr>eq_RPID = o_RPID opts, eq_RPName = rpName opts, eq_UserID = userID,
                 eq_UserName = o_RPID opts, eq_UV = UVDiscouraged, eq_Timeout = 0\<rparr>,
               GDerive \<lparr>dq_RPID = o_RPID opts, dq_CredentialIDs = [k_CredentialID k],
                 dq_Salt = v_Salt (ses_doc s), dq_UV = UVDiscouraged, dq_Timeout = 0\<rparr>,
               GDerive \<lparr>dq_RPID = o_RPID opts, dq_CredentialIDs = [k_CredentialID k],
                 dq_Salt = flipLast (v_Salt (ses_doc s)), dq_UV = UVDiscouraged, dq_Timeout = 0\<rparr>]))"
proof -
  obtain salt w1 cred derived w2 w3 dk w4 entry where
      salt: "randomBytes 32 w = (Inr salt, w1)"
    and enrolled: "enrollAndDerive x auth (createdDoc opts salt False False) opts UVDiscouraged w1
        = (Inr (cred, derived), w2)"
    and gate: "verifyDerivationDependsOnSalt auth (o_RPID opts) (er_CredentialID cred) salt
        (dr_Secret derived) UVDiscouraged (dr_UserVerified derived) w2 = (Inr (), w3)"
    and dk: "randomBytes 32 w3 = (Inr dk, w4)"
    and wrapped: "wrapDataKey x (createdDoc opts salt (dr_UserVerified derived) True) dk
        (er_CredentialID cred) (dr_Secret derived) 0 (optsLabel opts) w4 = (Inr entry, w')"
    and s: "s = \<lparr>ses_doc = (createdDoc opts salt (dr_UserVerified derived) True)\<lparr>v_Keys := [entry]\<rparr>,
           ses_opts = opts, ses_dataKey = Some dk\<rparr>"
    using Create_ok [OF assms] by (elim exE conjE) (rule that)
  obtain userID where made: "w_gestures w2 = w_gestures w1
    @ [GEnroll (enrollRequest (createdDoc opts salt False False) opts UVDiscouraged userID),
       GDerive (firstDerive (createdDoc opts salt False False) UVDiscouraged (er_CredentialID cred))]"
    using enrolled_gestures [OF enrolled] by blast
  have gestures: "w_gestures w' = w_gestures w2 @ [GDerive (probeRequest (o_RPID opts) (er_CredentialID cred) salt UVDiscouraged)]"
    using gate_gestures [OF gate] randomBytes_world [OF dk] wrap_gestures [OF wrapped] by simp
  have cred: "\<not> er_ResidentKey cred" "genuine x cred (o_Roots opts)"
    using enrollAndDerive_ok [OF enrolled] by (auto simp: verifyGenuineHardware_ok)
  have entry: "k_Slot entry = 0" "k_Label entry = optsLabel opts" "k_CredentialID entry = er_CredentialID cred"
    using wrapped by (auto simp: wrapDataKey_ok)
  have "w_gestures w' = w_gestures w @
      [GEnroll \<lparr>eq_RPID = o_RPID opts, eq_RPName = rpName opts, eq_UserID = userID,
         eq_UserName = o_RPID opts, eq_UV = UVDiscouraged, eq_Timeout = 0\<rparr>,
       GDerive \<lparr>dq_RPID = o_RPID opts, dq_CredentialIDs = [k_CredentialID entry],
         dq_Salt = salt, dq_UV = UVDiscouraged, dq_Timeout = 0\<rparr>,
       GDerive \<lparr>dq_RPID = o_RPID opts, dq_CredentialIDs = [k_CredentialID entry],
         dq_Salt = flipLast salt, dq_UV = UVDiscouraged, dq_Timeout = 0\<rparr>]"
    using made gestures randomBytes_world [OF salt] entry
    by (simp add: enrollRequest_def firstDerive_def probeRequest_def)
  with cred entry Create_wf [OF assms] randomBytes_length [OF dk] show ?thesis
    by (simp add: s optsLabel_def DefaultLabel_def) blast
qed

theorem Create_result_witness:
  "\<exists>s w'. Create toyX (toyKey 1) toyOpts (toyWorldTo 100) = (Inr s, w') \<and> length (w_gestures w') = 3"
proof -
  obtain w' where ok: "Create toyX (toyKey 1) toyOpts (toyWorldTo 100) = (Inr (toySession 1), w')"
    using toy_create by blast
  from Create_result [OF ok] have "length (w_gestures w') = length (w_gestures (toyWorldTo 100)) + 3" by auto
  with ok show ?thesis by (simp add: toyWorldTo_def)
qed

text \<open>C11: attestation comes before use. When the enrolled credential is resident, has no ID, or is not
  genuine hardware, the enrollment fails and the credential is never asked to derive.\<close>

theorem attestation_before_use:
  assumes "randomBytes 16 w = (Inr userID, w1)"
    and "callEnroll auth (enrollRequest doc opts uv userID) w1 = (Inr cred, w2)"
    and "er_ResidentKey cred \<or> er_CredentialID cred = [] \<or> \<not> genuine x cred (o_Roots opts)"
  shows "\<exists>e. enrollAndDerive x auth doc opts uv w = (Inl e, w2)
    \<and> w_gestures w2 = w_gestures w @ [GEnroll (enrollRequest doc opts uv userID)]"
proof -
  have "\<exists>e. verifyGenuineHardware x cred (o_Roots opts) = Inl e" if "\<not> genuine x cred (o_Roots opts)"
    using that verifyGenuineHardware_ok [of x cred "o_Roots opts"]
    by (cases "verifyGenuineHardware x cred (o_Roots opts)") auto
  then have "\<exists>e. enrollAndDerive x auth doc opts uv w = (Inl e, w2)"
    using assms by (auto simp: enrollAndDerive_def userIDLen_def bindE_def)
  then show ?thesis
    using randomBytes_world [OF assms(1)] callEnroll_world [OF assms(2)] by simp
qed

theorem attestation_before_use_witness:
  "\<exists>e w2. enrollAndDerive toyX (toyKey 1) toyDoc0 (toyOpts\<lparr>o_Roots := Some []\<rparr>) UVDiscouraged (toyAt 0) = (Inl e, w2)
     \<and> length (w_gestures w2) = 1"
proof -
  have draw: "randomBytes 16 (toyAt 0) = (Inr (replicate 16 0), toyAt 1)"
    by (simp add: randomBytes_apply toyWorldTo_def map_replicate_const)
  let ?req = "enrollRequest toyDoc0 (toyOpts\<lparr>o_Roots := Some []\<rparr>) UVDiscouraged (replicate 16 0)"
  obtain cred where call: "callEnroll (toyKey 1) ?req (toyAt 1) =
      (Inr cred, (toyAt 1)\<lparr>w_device := (), w_gestures := w_gestures (toyAt 1) @ [GEnroll ?req]\<rparr>)"
    by (simp add: callEnroll_toy toyEnroll_def)
  have "\<not> genuine toyX cred (o_Roots (toyOpts\<lparr>o_Roots := Some []\<rparr>))"
    using verifyGenuineHardware_empty_pool [OF toyX_empty_pool, of cred]
    by (auto simp: verifyGenuineHardware_ok is_ok_iff)
  from attestation_before_use [OF draw call disjI2 [OF disjI2 [OF this]]]
  show ?thesis by (auto simp: toyWorldTo_def)
qed

lemma enrolled_derivation:
  assumes "derives_by pf auth" "answers_from_allow_list auth"
    and "enrollAndDerive x auth doc opts uv w = (Inr (cred, derived), w')"
  shows "dr_Secret derived = pf (er_CredentialID cred) (v_Salt doc) (dr_UserVerified derived)"
proof -
  obtain w2 where call: "callDerive auth (firstDerive doc uv (er_CredentialID cred)) w2 = (Inr derived, w')"
    using enrollAndDerive_ok [OF assms(3)] by blast
  from derives_singleton [OF assms(2,1) call, of "er_CredentialID cred"]
  show ?thesis by (simp add: firstDerive_def)
qed

text \<open>C9: no vault and no backup is ever made on a device that reads only a proper prefix of the salt,
  whatever the prefix length: \<open>Create\<close> returns no session and \<open>EnrollKey\<close> leaves the document as
  it was.\<close>

theorem truncating_device_refused:
  assumes "derives_by (\<lambda>c s. g c (take n s)) auth" "answers_from_allow_list auth" "n < 32"
  shows "\<not> is_ok (fst (Create x auth opts w))
    \<and> (\<not> is_ok (fst (EnrollKey x auth slot label (s, w))) \<and> fst (snd (EnrollKey x auth slot label (s, w))) = s)"
proof
  have trunc: "derives_by (\<lambda>c s u. g c (take n s) u) auth" using assms(1) by simp
  note derived = enrolled_derivation [OF trunc assms(2)]
  note gate = gate_truncated [OF trunc assms(2), unfolded SaltLen_def, OF assms(3)]
  show "\<not> is_ok (fst (Create x auth opts w))"
  proof
    assume "is_ok (fst (Create x auth opts w))"
    then obtain s w' where "Create x auth opts w = (Inr s, w')" by (metis is_ok_iff prod.collapse)
    from Create_ok [OF this] obtain salt w1 cred derived w2 w3 where
      enrolled: "enrollAndDerive x auth (createdDoc opts salt False False) opts UVDiscouraged w1 = (Inr (cred, derived), w2)"
      and passed: "verifyDerivationDependsOnSalt auth (o_RPID opts) (er_CredentialID cred) salt
        (dr_Secret derived) UVDiscouraged (dr_UserVerified derived) w2 = (Inr (), w3)"
      by blast
    have "dr_Secret derived = g (er_CredentialID cred) (take n salt) (dr_UserVerified derived)"
      using derived [OF enrolled] by simp
    from gate [OF this, of "o_RPID opts" UVDiscouraged w2] passed show False by simp
  qed
  have "\<not> is_ok (fst (EnrollKey x auth slot label (s, w)))"
  proof
    assume "is_ok (fst (EnrollKey x auth slot label (s, w)))"
    then obtain s' w' where "EnrollKey x auth slot label (s, w) = (Inr (), s', w')"
      by (metis is_ok_iff prod.collapse old.unit.exhaust)
    from EnrollKey_ok [OF this] obtain cred derived w1 w2 where
      enrolled: "enrollAndDerive x auth (ses_doc s) (ses_opts s) (uvRequirement (ses_doc s)) w = (Inr (cred, derived), w1)"
      and passed: "verifyDerivationDependsOnSalt auth (v_RPID (ses_doc s)) (er_CredentialID cred) (v_Salt (ses_doc s))
        (dr_Secret derived) (uvRequirement (ses_doc s)) (dr_UserVerified derived) w1 = (Inr (), w2)"
      by auto
    from gate [OF derived [OF enrolled], of "v_RPID (ses_doc s)" "uvRequirement (ses_doc s)" w1] passed
    show False by simp
  qed
  moreover obtain r s' w' where run: "EnrollKey x auth slot label (s, w) = (r, (s', w'))" by (metis prod.collapse)
  ultimately show "\<not> is_ok (fst (EnrollKey x auth slot label (s, w))) \<and> fst (snd (EnrollKey x auth slot label (s, w))) = s"
    using enroll.error_keeps [of "(x, auth, slot, label)" s w _ s' w'] by (cases r) auto
qed

theorem truncating_device_refused_witness:
  "\<not> is_ok (fst (Create toyX (truncatingKey 31 1) toyOpts (toyWorldTo 100)))"
  using truncating_device_refused [OF truncatingKey_derives [of 31] toyKey_answers(2), of toyX] by simp

section \<open>Methods of a session\<close>

lemma zero_replicate: "zero = (\<lambda>k. replicate (length k) 0)"
  by (rule ext) (simp add: zero_def map_replicate_const)

text \<open>C29: a locked session refuses everything that needs the key and changes nothing: every
  modification, opening a secret and reading one. \<open>Lock\<close> makes a session locked, leaves only zeros
  where the key was, does not touch the document, and may be repeated.\<close>

theorem locked_session:
  "(ses_dataKey s = None \<longrightarrow>
      runOp x auth op (s, w) = (failWith ErrLocked, (s, w))
      \<and> Open x name (s, w) = (failWith ErrLocked, (s, w))
      \<and> ReadString x name (s, w) = (failWith ErrLocked, (s, w)))
   \<and> ses_dataKey (fst (Lock s)) = None \<and> ses_doc (fst (Lock s)) = ses_doc s
   \<and> snd (Lock s) = map_option (\<lambda>k. replicate (length k) 0) (ses_dataKey s)
   \<and> Lock (fst (Lock s)) = (fst (Lock s), None)"
  using admin.locked [of s "(x, auth, op)" w]
  by (auto simp: Open_def ReadString_def Lock_def zero_replicate)

theorem locked_session_witness:
  "ReadString toyX ''a'' (fst (Lock (toySession2 1)), toyAt 0) = (failWith ErrLocked, (fst (Lock (toySession2 1)), toyAt 0))"
proof -
  have "ses_dataKey (fst (Lock (toySession2 1))) = None" by (simp add: Lock_def)
  with locked_session [of "fst (Lock (toySession2 1))" toyX "toyKey 1" "OpDelete ''a''" "toyAt 0" "''a''"]
  show ?thesis by blast
qed

text \<open>C28: a modification that fails changes nothing. Whatever goes wrong and however late, the document,
  the options and the key of the session are as they were; so a run that stops at an error has done
  exactly the operations before it.\<close>

theorem failed_operation_changes_nothing:
  assumes "runOp x auth op (s, w) = (Inl e, (s', w'))"
  shows "s' = s"
  using admin.error_keeps [of "(x, auth, op)" s w e s' w'] assms by simp

theorem failed_operation_changes_nothing_witness:
  "\<exists>e w'. runOp toyX (toyKey 1) (OpEnroll 1 ''b'') (toySession 1, toyAt 4) = (Inl e, (toySession 1, w'))"
proof -
  obtain e s' w' where run: "runOp toyX (toyKey 1) (OpEnroll 1 ''b'') (toySession 1, toyAt 4) = (Inl e, (s', w'))"
    by (simp add: EnrollKey_def keyM_def docM_def optsM_def onWorld_def toyRun toySession_def slotOccupied_def
        uvRequirement_def findKey_def toyOpts_def Let_def)
  with failed_operation_changes_nothing [OF run] show ?thesis by blast
qed

text \<open>C30: \<open>RemoveKey\<close> never strands a vault while no other session changes its keys. It succeeds exactly on an unlocked session with another key
  beside the occupied slot, removes that one entry, and keeps the others and every secret; on the last
  key it refuses with \<open>ErrLastKey\<close> and on a free slot with \<open>ErrNoSuchSlot\<close>, changing nothing.\<close>

theorem RemoveKey_never_strands:
  assumes "wfVault (ses_doc s)" "ses_dataKey s = Some dk"
  shows "RemoveKey slot (s, w) =
     (if slot \<notin> k_Slot ` set (v_Keys (ses_doc s)) then
        (Inl (wrap ''%w: slot %d'' (Sentinel ErrNoSuchSlot)), (s, w))
      else if length (v_Keys (ses_doc s)) = 1 then (failWith ErrLastKey, (s, w))
      else (Inr (), (s\<lparr>ses_doc := (ses_doc s)\<lparr>v_Keys := filter (\<lambda>k. k_Slot k \<noteq> slot) (v_Keys (ses_doc s))\<rparr>\<rparr>, w)))
    \<and> (\<forall>s' w'. RemoveKey slot (s, w) = (Inr (), (s', w')) \<longrightarrow>
         Suc (length (v_Keys (ses_doc s'))) = length (v_Keys (ses_doc s)) \<and> v_Keys (ses_doc s') \<noteq> []
         \<and> v_Secrets (ses_doc s') = v_Secrets (ses_doc s))"
proof -
  let ?ks = "v_Keys (ses_doc s)"
  have eq: "RemoveKey slot (s, w) =
     (if slot \<notin> k_Slot ` set ?ks then (Inl (wrap ''%w: slot %d'' (Sentinel ErrNoSuchSlot)), (s, w))
      else if length ?ks = 1 then (failWith ErrLastKey, (s, w))
      else (Inr (), (s\<lparr>ses_doc := (ses_doc s)\<lparr>v_Keys := filter (\<lambda>k. k_Slot k \<noteq> slot) ?ks\<rparr>\<rparr>, w)))"
    using assms(2) by (simp add: RemoveKey_def removeKey_def keyM_def docM_def setDocM_def slotOccupied_iff bindE_def)
  have one: "Suc (length (filter (\<lambda>k. k_Slot k \<noteq> slot) ks)) = length ks"
    if "distinct (map k_Slot ks)" "slot \<in> k_Slot ` set ks" for ks
    using that
  proof (induction ks)
    case Nil
    then show ?case by simp
  next
    case (Cons k ks)
    show ?case
    proof (cases "k_Slot k = slot")
      case True
      with Cons.prems have "filter (\<lambda>k. k_Slot k \<noteq> slot) ks = ks"
        by (intro filter_True) (auto simp: image_iff)
      with True show ?thesis by simp
    next
      case False
      with Cons show ?thesis by auto
    qed
  qed
  have "distinct (map k_Slot ?ks)" using assms(1) by (simp add: wfVault_def wfKeys_def)
  note one = one [OF this]
  have "Suc (length (v_Keys (ses_doc s'))) = length ?ks \<and> v_Keys (ses_doc s') \<noteq> [] \<and> v_Secrets (ses_doc s') = v_Secrets (ses_doc s)"
    if "RemoveKey slot (s, w) = (Inr (), (s', w'))" for s' w'
  proof -
    have slot: "slot \<in> k_Slot ` set ?ks" "length ?ks \<noteq> 1"
      and s': "s' = s\<lparr>ses_doc := (ses_doc s)\<lparr>v_Keys := filter (\<lambda>k. k_Slot k \<noteq> slot) ?ks\<rparr>\<rparr>"
      using that unfolding eq by (auto split: if_splits)
    from one [OF slot(1)] slot(2) show ?thesis by (auto simp: s')
  qed
  with eq show ?thesis by blast
qed

theorem RemoveKey_never_strands_witness:
  "RemoveKey 0 (toySession 1, toyAt 4) = (failWith ErrLastKey, (toySession 1, toyAt 4))"
  using RemoveKey_never_strands [of "toySession 1" toyDataKey 0 "toyAt 4"]
    coherentD(2) [OF toySession_coherent [of 1]] by simp

text \<open>Removing the last key by force is final. \<open>ForceRemoveKey\<close> removes the entry even when it is
  the only one; the vault that is left has no key, so no device unlocks it again.\<close>

lemma ForceRemoveKey_final:
  assumes "ses_dataKey s \<noteq> None" "v_Keys (ses_doc s) = [k]"
  shows "\<exists>s'. ForceRemoveKey (k_Slot k) (s, w) = (Inr (), (s', w)) \<and> v_Keys (ses_doc s') = []
    \<and> v_Secrets (ses_doc s') = v_Secrets (ses_doc s)
    \<and> unlock x \<lparr>vt_doc = ses_doc s', vt_opts = opts\<rparr> auth w' = (failWith ErrNoKeysEnrolled, w')"
  using assms
  by (auto simp: ForceRemoveKey_def removeKey_def keyM_def docM_def setDocM_def slotOccupied_def bindE_def unlock_def)

lemma ForceRemoveKey_final_witness:
  "\<exists>s'. ForceRemoveKey 0 (toySession2 1, toyAt 4) = (Inr (), (s', toyAt 4)) \<and> v_Keys (ses_doc s') = []"
  using ForceRemoveKey_final [of "toySession2 1" "toyEntry 1" "toyAt 4" toyX toyOpts "toyKey 1" "toyAt 0"] by auto

text \<open>C14: enrolling a backup adds one entry and nothing else. The new entry, in the requested free slot
  under the requested label, carries a credential that no other entry has and that passed attestation
  against the session's anchors; the other entries, the header and the secrets are as before; and it
  cost three gestures on the new key, the last a proof over this vault's salt.\<close>

theorem EnrollKey_result:
  assumes "EnrollKey x auth slot label (s, w) = (Inr (), (s', w'))"
  defines "d \<equiv> ses_doc s"
  shows "\<exists>k cred userID. ses_doc s' = d\<lparr>v_Keys := v_Keys d @ [k]\<rparr> \<and> ses_dataKey s' = ses_dataKey s
    \<and> k_Slot k = slot \<and> 0 \<le> slot \<and> slot \<notin> k_Slot ` set (v_Keys d)
    \<and> k_Label k = (if label = [] then ''primary'' else label)
    \<and> k_CredentialID k = er_CredentialID cred \<and> k_CredentialID k \<notin> k_CredentialID ` set (v_Keys d)
    \<and> genuine x cred (o_Roots (ses_opts s)) \<and> \<not> er_ResidentKey cred
    \<and> w_gestures w' = w_gestures w @
        [GEnroll (enrollRequest d (ses_opts s) (uvRequirement d) userID),
         GDerive (firstDerive d (uvRequirement d) (k_CredentialID k)),
         GDerive (probeRequest (v_RPID d) (k_CredentialID k) (v_Salt d) (uvRequirement d))]"
proof -
  obtain dk cred derived w1 w2 k where free: "0 \<le> slot" "\<not> slotOccupied d slot"
    and enrolled: "enrollAndDerive x auth d (ses_opts s) (uvRequirement d) w = (Inr (cred, derived), w1)"
    and new: "findKey d (er_CredentialID cred) = None"
    and gate: "verifyDerivationDependsOnSalt auth (v_RPID d) (er_CredentialID cred) (v_Salt d)
        (dr_Secret derived) (uvRequirement d) (dr_UserVerified derived) w1 = (Inr (), w2)"
    and wrapped: "wrapDataKey x d dk (er_CredentialID cred) (dr_Secret derived) slot (enrollLabel label) w2 = (Inr k, w')"
    and s': "s' = s\<lparr>ses_doc := d\<lparr>v_Keys := v_Keys d @ [k]\<rparr>\<rparr>"
    using EnrollKey_ok [OF assms(1)] unfolding d_def by auto
  obtain userID where "w_gestures w1 = w_gestures w
    @ [GEnroll (enrollRequest d (ses_opts s) (uvRequirement d) userID),
       GDerive (firstDerive d (uvRequirement d) (er_CredentialID cred))]"
    using enrolled_gestures [OF enrolled] by blast
  with gate_gestures [OF gate] wrap_gestures [OF wrapped]
  have gestures: "w_gestures w' = w_gestures w @
        [GEnroll (enrollRequest d (ses_opts s) (uvRequirement d) userID),
         GDerive (firstDerive d (uvRequirement d) (er_CredentialID cred)),
         GDerive (probeRequest (v_RPID d) (er_CredentialID cred) (v_Salt d) (uvRequirement d))]" by simp
  have k: "k_Slot k = slot" "k_Label k = enrollLabel label" "k_CredentialID k = er_CredentialID cred"
    using wrapped by (auto simp: wrapDataKey_ok)
  have cred: "genuine x cred (o_Roots (ses_opts s))" "\<not> er_ResidentKey cred"
    using enrollAndDerive_ok [OF enrolled] by (auto simp: verifyGenuineHardware_ok)
  show ?thesis
    using free new k cred gestures
    by (intro exI [of _ k] exI [of _ cred] exI [of _ userID])
       (simp add: s' slotOccupied_iff findKey_def findKeyIn_None enrollLabel_def DefaultLabel_def)
qed

lemma toy_enroll: "\<exists>s w. EnrollKey toyX (toyKey 2) 1 ''backup'' (toySession 1, toyAt 4) = (Inr (), (s, w))"
  by (simp add: EnrollKey_def keyM_def docM_def optsM_def onWorld_def setDocM_def toyRun toySession_def
      slotOccupied_def uvRequirement_def findKey_def toyOpts_def Let_def)

theorem EnrollKey_result_witness:
  "\<exists>s' w'. EnrollKey toyX (toyKey 2) 1 ''backup'' (toySession 1, toyAt 4) = (Inr (), (s', w'))
     \<and> length (v_Keys (ses_doc s')) = 2"
proof -
  obtain s' w' where run: "EnrollKey toyX (toyKey 2) 1 ''backup'' (toySession 1, toyAt 4) = (Inr (), (s', w'))"
    using toy_enroll by blast
  from EnrollKey_result [OF run] run show ?thesis by auto
qed

text \<open>Storing and reading. On an unlocked session \<open>Put\<close> of a value under a name succeeds as soon as
  the name is not empty and the entropy source delivers; then that name opens to the value, every other
  name has the entry it had, the keys are untouched, and no gesture was asked for. Without a name,
  a value or a readable value it says so, changes nothing and seals nothing.\<close>

lemma Put_effect:
  assumes "aead_roundtrip x" "ses_dataKey s = Some dk" "length dk = 32"
  shows "(name \<noteq> [] \<and> w_entropy w (w_draws w) = Some g \<longrightarrow>
      (\<exists>s' w'. Put x name (Some (Inr pt)) (s, w) = (Inr (), (s', w'))
        \<and> fst (Open x name (s', w'')) = Inr \<lparr>rd_buf = pt, rd_src = True, rd_pos = 0, rd_once = False\<rparr>
        \<and> (\<forall>n. n \<noteq> name \<longrightarrow> findSecret (ses_doc s') n = findSecret (ses_doc s) n)
        \<and> v_Keys (ses_doc s') = v_Keys (ses_doc s) \<and> w_gestures w' = w_gestures w))
    \<and> Put x [] rd (s, w) = (Inl (errorsNew ''touchvault: a secret must have a name''), (s, w))
    \<and> (name \<noteq> [] \<longrightarrow>
        Put x name None (s, w) = (Inl (errorsNew ''touchvault: a secret must have a value''), (s, w))
        \<and> Put x name (Some (Inl e)) (s, w) = (Inl (wrap ''touchvault: reading the secret %q: %w'' e), (s, w)))"
proof (intro conjI impI)
  assume name: "name \<noteq> [] \<and> w_entropy w (w_draws w) = Some g"
  obtain nonce w' where draw: "randomBytes 12 w = (Inr nonce, w')"
    using name by (auto simp: randomBytes_def Let_def)
  define entry where "entry = \<lparr>s_Name = name, s_Nonce = nonce,
    s_Ciphertext = gcmSeal x dk nonce pt (secretAAD (ses_doc s) name)\<rparr>"
  have sealed: "sealSecret x (ses_doc s) dk name pt w = (Inr entry, w')"
    using assms(3) draw by (simp add: sealSecret_ok seal_ok entry_def)
  define s' where "s' = s\<lparr>ses_doc := (ses_doc s)\<lparr>v_Secrets := putSecretIn (v_Secrets (ses_doc s)) name entry\<rparr>\<rparr>"
  have put: "Put x name (Some (Inr pt)) (s, w) = (Inr (), (s', w'))"
    using assms(2) name sealed by (simp add: Put_ok_iff s'_def)
  have found: "findSecret (ses_doc s') n = (if n = name then Some entry else findSecret (ses_doc s) n)" for n
    by (simp add: s'_def findSecret_def findSecretIn_put entry_def)
  have "openSecret x (ses_doc s') dk entry = Inr pt"
    using open_sealed_secret [OF assms(1) sealed] openSecret_frame [of "ses_doc s" "ses_doc s'" x dk entry]
    by (simp add: s'_def sameFrame_def)
  then have "Open x name (s', w'') = (Inr \<lparr>rd_buf = pt, rd_src = True, rd_pos = 0, rd_once = False\<rparr>, (s', w''))"
    using found assms(2) by (simp add: Open_ok_iff s'_def)
  then show "\<exists>s' w'. Put x name (Some (Inr pt)) (s, w) = (Inr (), (s', w'))
        \<and> fst (Open x name (s', w'')) = Inr \<lparr>rd_buf = pt, rd_src = True, rd_pos = 0, rd_once = False\<rparr>
        \<and> (\<forall>n. n \<noteq> name \<longrightarrow> findSecret (ses_doc s') n = findSecret (ses_doc s) n)
        \<and> v_Keys (ses_doc s') = v_Keys (ses_doc s) \<and> w_gestures w' = w_gestures w"
    using put found randomBytes_world [OF draw]
    by (intro exI [of _ s'] exI [of _ w'] conjI) (simp_all add: s'_def)
qed (use assms(2) in \<open>simp_all add: Put_def keyM_def bindE_def\<close>)

lemma Put_effect_witness:
  "\<exists>s' w'. Put toyX ''a'' (Some (Inr [1, 2])) (toySession 1, toyAt 4) = (Inr (), (s', w'))
     \<and> fst (Open toyX ''a'' (s', toyAt 9)) = Inr \<lparr>rd_buf = [1, 2], rd_src = True, rd_pos = 0, rd_once = False\<rparr>"
proof -
  have "w_entropy (toyAt 4) (w_draws (toyAt 4)) = Some (\<lambda>_. of_nat 4)" by (simp add: toyWorldTo_def)
  moreover have "length toyDataKey = 32" by (simp add: toyDataKey_def)
  moreover have "''a'' \<noteq> []" by simp
  ultimately show ?thesis
    using Put_effect [OF toyX_roundtrip toySession_simps(1), of "''a''" "toyAt 4" "\<lambda>_. of_nat 4" "[1, 2]" 1 "toyAt 9"]
    by blast
qed

text \<open>Deleting. On a well-formed unlocked session \<open>Delete\<close> removes exactly the entry of that name,
  which is then not found, and keeps the order and content of the others; a name that is not there is
  \<open>ErrNoSuchSecret\<close> and changes nothing.\<close>

lemma Delete_effect:
  assumes "wfVault (ses_doc s)" "ses_dataKey s = Some dk"
  shows "Delete name (s, w) =
      (if name \<in> set (session_Names s) then
         (Inr (), (s\<lparr>ses_doc := (ses_doc s)\<lparr>v_Secrets := filter (\<lambda>e. s_Name e \<noteq> name) (v_Secrets (ses_doc s))\<rparr>\<rparr>, w))
       else (Inl (wrap ''%w: %q'' (Sentinel ErrNoSuchSecret)), (s, w)))"
proof (cases "deleteSecretIn (v_Secrets (ses_doc s)) name")
  case None
  then have "name \<notin> set (session_Names s)"
    by (simp add: deleteSecretIn_None session_Names_def names_def)
  with None assms(2) show ?thesis by (simp add: Delete_def keyM_def docM_def bindE_def)
next
  case (Some ss)
  then have "name \<in> set (session_Names s)"
    using deleteSecretIn_None [of "v_Secrets (ses_doc s)" name] by (simp add: session_Names_def names_def)
  moreover have "ss = filter (\<lambda>e. s_Name e \<noteq> name) (v_Secrets (ses_doc s))"
    using deleteSecretIn_eq_filter [OF Some] assms(1) by (simp add: wfVault_def)
  ultimately show ?thesis using Some assms(2) by (simp add: Delete_def keyM_def docM_def setDocM_def bindE_def)
qed

text \<open>Closing a stream wipes it. Reading a stream gives the plaintext once; after \<open>Close\<close> the buffer
  it was read into holds only zeros and reading gives nothing, and closing again changes nothing.\<close>

lemma Close_wipes:
  assumes "Open x name (s, w) = (Inr r, sw')"
  shows "sw' = (s, w) \<and> fst (readAll r) = rd_buf r \<and> fst (readAll (snd (readAll r))) = []
    \<and> rd_buf (Close (snd (readAll r))) = replicate (length (rd_buf r)) 0
    \<and> fst (readAll (Close (snd (readAll r)))) = []
    \<and> Close (Close (snd (readAll r))) = Close (snd (readAll r))"
  using assms by (auto simp: Open_ok_iff readAll_def Close_def zero_replicate)

section \<open>Nonces\<close>

text \<open>C17: no nonce is used twice. If the entropy source never repeats the first twelve bytes of a draw,
  then after a creation and any two runs of operations, in which calls may fail and the caller goes on,
  all nonces in the document are different; and an entry of the later document is either the entry of
  the earlier one or has a nonce that occurs nowhere in the earlier one, so replacing a secret never
  seals it under an old nonce.\<close>

theorem nonces_never_repeat:
  assumes "Create x creator opts w0 = (Inr s0, w1)" and "never_repeats w0"
    and "attempts (runOp x auth) ops (s0, w1) = (s, w)" "attempts (runOp x auth) ops' (s, w) = (s', w')"
  shows "distinct (nonces (ses_doc s'))
    \<and> (\<forall>k \<in> set (v_Keys (ses_doc s')). k \<in> set (v_Keys (ses_doc s)) \<or> k_Nonce k \<notin> set (nonces (ses_doc s)))
    \<and> (\<forall>e \<in> set (v_Secrets (ses_doc s')). e \<in> set (v_Secrets (ses_doc s)) \<or> s_Nonce e \<notin> set (nonces (ses_doc s)))"
proof -
  have created: "noncesFresh (s0, w1)" "never_repeats w1"
    using Create_fresh [OF assms(1)] assms(2) by (auto simp: never_repeats_def advances_def)
  have first: "drawsBetween (s0, w1) (s, w)" "noncesFresh (s, w)"
    using attempts_fresh [OF assms(3) created(2)] created(1) by blast+
  then have "never_repeats w" using created(2) by (simp add: never_repeats_def drawsBetween_def advances_def)
  with attempts_fresh [OF assms(4)] first have "drawsBetween (s, w) (s', w')" "noncesFresh (s', w')" by blast+
  with kept_or_new [OF _ first(2) \<open>never_repeats w\<close>] show ?thesis by (simp add: noncesFresh_def)
qed

lemma toyWorld_never_repeats: "never_repeats (toyWorldTo 100)"
  unfolding never_repeats_def
proof (intro allI impI)
  fix i j g h
  assume "i \<noteq> j" "w_entropy (toyWorldTo 100) i = Some g" "w_entropy (toyWorldTo 100) j = Some h"
  then have "i < 100" "j < 100" "g = (\<lambda>_. of_nat i)" "h = (\<lambda>_. of_nat j)"
    by (auto simp: toyWorldTo_def split: if_splits)
  moreover from this have "(of_nat i :: byte) \<noteq> of_nat j"
    using \<open>i \<noteq> j\<close> by (simp add: word_of_nat_eq_iff take_bit_nat_eq_self)
  ultimately show "map g [0..<12] \<noteq> map h [0..<12]" by (simp add: map_replicate_const)
qed

theorem nonces_never_repeat_witness:
  "\<exists>w1 s w s' w'. Create toyX (toyKey 1) toyOpts (toyWorldTo 100) = (Inr (toySession 1), w1)
     \<and> attempts (runOp toyX (toyKey 2)) toyOps (toySession 1, w1) = (s, w)
     \<and> attempts (runOp toyX (toyKey 2)) toyOps (s, w) = (s', w') \<and> distinct (nonces (ses_doc s'))"
proof -
  obtain w1 where created: "Create toyX (toyKey 1) toyOpts (toyWorldTo 100) = (Inr (toySession 1), w1)"
    using toy_create by blast
  obtain s w where first: "attempts (runOp toyX (toyKey 2)) toyOps (toySession 1, w1) = (s, w)"
    by (metis prod.collapse)
  obtain s' w' where second: "attempts (runOp toyX (toyKey 2)) toyOps (s, w) = (s', w')"
    by (metis prod.collapse)
  from nonces_never_repeat [OF created toyWorld_never_repeats first second] created first second
  show ?thesis by blast
qed

section \<open>Enrolling succeeds\<close>

text \<open>C37: keys that conform can be enrolled. With two different conforming keys that report user
  verification alike, an entropy source that does not fail, a total key derivation, and an RP ID and name
  without \<open>NUL\<close>, \<open>Create\<close> returns a
  session on the first key, \<open>FreeSlot\<close> finds a slot in its listing, and \<open>EnrollKey\<close> enrolls the second
  key there; the vault then has exactly the two credentials.\<close>

theorem backup_in_free_slot:
  assumes "conforms x out obs c (o_Roots opts) auth" "conforms x out' obs' c' (o_Roots opts) backup"
    and "c \<noteq> c'" "obs' (if obs UVDiscouraged then UVRequired else UVDiscouraged) = obs UVDiscouraged"
    and "hkdf_total x" "entropyLasts w" "o_RPID opts \<noteq> []" "noNUL (o_RPID opts)" "noNUL (o_RPName opts)"
  shows "\<exists>s w1 slot s' w2. Create x auth opts w = (Inr s, w1) \<and> FreeSlot (session_Slots s) = Some slot
    \<and> EnrollKey x backup slot label (s, w1) = (Inr (), (s', w2))
    \<and> map k_CredentialID (v_Keys (ses_doc s')) = [c, c']"
proof -
  obtain s dk w1 where s: "Create x auth opts w = (Inr s, w1)" "entropyLasts w1" "ses_dataKey s = Some dk"
    "ses_opts s = opts" "length (v_Salt (ses_doc s)) = 32" "v_UserVerified (ses_doc s) = obs UVDiscouraged"
    "map k_CredentialID (v_Keys (ses_doc s)) = [c]" "v_RPID (ses_doc s) = o_RPID opts"
    using Create_live [OF assms(1,5-9)] by metis
  obtain slot where slot: "FreeSlot (session_Slots s) = Some slot"
    using FreeSlot_least_free by blast
  have "findKey (ses_doc s) c' = None"
    using s(7) assms(3) findKeyIn_Some [of "v_Keys (ses_doc s)" c'] unfolding findKey_def
    by (cases "findKeyIn (v_Keys (ses_doc s)) c'") auto
  moreover have "obs' (uvRequirement (ses_doc s)) = v_UserVerified (ses_doc s)"
    using assms(4) s(6) by (simp add: uvRequirement_def)
  moreover have "noNUL (v_RPID (ses_doc s))" "noNUL (rpName (ses_opts s))"
    using assms(8,9) s(4,8) by (simp_all add: rpName_def)
  ultimately obtain s' w2 where "EnrollKey x backup slot label (s, w1) = (Inr (), (s', w2))"
    "map k_CredentialID (v_Keys (ses_doc s')) = map k_CredentialID (v_Keys (ses_doc s)) @ [c']"
    using EnrollKey_live [of x out' obs' c' s backup, OF _ assms(5) s(2,3,5)] assms(2) s(4) FreeSlot_accepted [OF slot]
    by metis
  with s(1,7) slot show ?thesis by auto
qed

lemma toyX_hkdf_total: "hkdf_total toyX"
  by (auto simp: hkdf_total_def toyHKDF_def min_def)

lemma toyKey_conforms: "conforms toyX (toyPRF [i]) (\<lambda>uv. uv = UVRequired) [i] None (toyKey i)"
proof -
  have "flipLast salt \<noteq> salt" if "length salt = 32" for salt :: bytes
    using that flipLast_neq [of salt] by fastforce
  then show ?thesis
    using toy_genuine [of i, unfolded verifyGenuineHardware_ok]
    by (simp add: conforms_def toyKey_def toyEnroll_def toyDerive_def toyPRF_def)
qed

theorem backup_in_free_slot_witness:
  "\<exists>s w1 slot s' w2.
     Create toyX (toyKey 1) toyOpts ((toyWorldTo 100)\<lparr>w_entropy := \<lambda>d. Some (\<lambda>i. of_nat d)\<rparr>) = (Inr s, w1)
     \<and> FreeSlot (session_Slots s) = Some slot
     \<and> EnrollKey toyX (toyKey 2) slot ''backup'' (s, w1) = (Inr (), (s', w2))
     \<and> map k_CredentialID (v_Keys (ses_doc s')) = [[1], [2]]"
  by (rule backup_in_free_slot [of toyX "toyPRF [1]" "\<lambda>uv. uv = UVRequired" "[1]" toyOpts "toyKey 1"
        "toyPRF [2]" "\<lambda>uv. uv = UVRequired" "[2]" "toyKey 2"])
    (simp_all add: toyOpts_def toyKey_conforms toyX_hkdf_total entropyLasts_def noNUL_def)

section \<open>Inspecting and opening\<close>

text \<open>The listings. \<open>Names\<close> is the sorted list of the stored names, \<open>Slots\<close> the sorted list of one
  entry per enrolled key with its slot, its label and the first eight bytes of its credential in hex;
  both need no key, and neither drops or repeats anything.\<close>

lemma listings:
  "mset (session_Names s) = mset (map s_Name (v_Secrets (ses_doc s))) \<and> sorted (session_Names s)
   \<and> mset (session_Slots s) = mset (map slotInfo (v_Keys (ses_doc s))) \<and> sorted (map si_Slot (session_Slots s))
   \<and> (\<forall>i \<in> set (session_Slots s). length (si_CredentialIDHex i) \<le> 16)"
proof -
  have hex: "length (hexBytes b) = 2 * length b" for b
    by (induction b) (auto simp: hexBytes_def)
  show ?thesis
    by (auto simp: session_Names_def names_def session_Slots_def slots_def slotInfo_def hex credentialIDPrefixLen_def)
qed

text \<open>Opening honours the RP ID of the document. Options without an RP ID, or with the same one, give
  a vault over the document with the document's RP ID; any other RP ID is an error.\<close>

lemma open_rp_id:
  "openDoc doc opts =
     (if o_RPID opts = [] \<or> o_RPID opts = v_RPID doc
      then Inr \<lparr>vt_doc = doc, vt_opts = opts\<lparr>o_RPID := v_RPID doc\<rparr>\<rparr>
      else Inl (errorsNew ''touchvault: Options.RPID is %q but the sealed vault was created under %q; its enrolled keys would not answer for a different relying party''))"
  by (simp add: openDoc_def)

end
