(* ===== verification/JsonTree.thy ===== *)
theory JsonTree
  imports Json
begin

text \<open>
  The values \<open>encoding/json\<close> reads and writes: a tree, its compact text as \<open>json.Marshal\<close> produces it,
  the splitting of a text into tokens, and the scanner as a machine over tokens with an explicit
  stack of open arrays and objects, which is how the library's scanner works.
\<close>

section \<open>Values and their text\<close>

text \<open>A number keeps its text; an object keeps its members in order, repetitions included.\<close>

datatype json = JNull | JBool bool | JNum string | JStr string | JArr "json list"
  | JObj "(string \<times> json) list"

definition quoted :: "string \<Rightarrow> string" where
  "quoted s = quote # escapeString s @ [quote]"

fun render :: "json \<Rightarrow> string" where
  "render JNull = ''null''"
| "render (JBool b) = (if b then ''true'' else ''false'')"
| "render (JNum n) = n"
| "render (JStr s) = quoted s"
| "render (JArr []) = ''[]''"
| "render (JArr (j # js)) =
     CHR ''['' # render j @ concat (map (\<lambda>i. CHR '','' # render i) js) @ '']''"
| "render (JObj []) = ''{}''"
| "render (JObj ((k, j) # ms)) =
     CHR ''{'' # quoted k @ CHR '':'' # render j
       @ concat (map (\<lambda>(l, i). CHR '','' # quoted l @ CHR '':'' # render i) ms) @ ''}''"

section \<open>Tokens\<close>

datatype token = TOpenObj | TCloseObj | TOpenArr | TCloseArr | TColon | TComma
  | TStr string | TVal json

definition isSpace :: "char \<Rightarrow> bool" where
  "isSpace c \<longleftrightarrow> c = CHR '' '' \<or> c = CHR 0x09 \<or> c = CHR 0x0A \<or> c = CHR 0x0D"

definition isDigit :: "char \<Rightarrow> bool" where
  "isDigit c \<longleftrightarrow> within 48 57 c"

text \<open>A number: an optional sign, an integer part without leading zeros, an optional fraction and an
  optional exponent, each with at least one digit.\<close>

definition digits1 :: "string \<Rightarrow> (string \<times> string) option" where
  "digits1 s = (if takeWhile isDigit s = [] then None else Some (takeWhile isDigit s, dropWhile isDigit s))"

fun intPart :: "string \<Rightarrow> (string \<times> string) option" where
  "intPart [] = None"
| "intPart (c # cs) = (if c = CHR ''0'' then Some ([c], cs) else digits1 (c # cs))"

fun fracPart :: "string \<Rightarrow> (string \<times> string) option" where
  "fracPart [] = Some ([], [])"
| "fracPart (c # cs) = (if c = CHR ''.'' then prepend [c] (digits1 cs) else Some ([], c # cs))"

fun expSign :: "string \<Rightarrow> (string \<times> string) option" where
  "expSign [] = None"
| "expSign (c # cs) =
     (if c = CHR ''+'' \<or> c = CHR ''-'' then prepend [c] (digits1 cs) else digits1 (c # cs))"

fun expPart :: "string \<Rightarrow> (string \<times> string) option" where
  "expPart [] = Some ([], [])"
| "expPart (c # cs) =
     (if c = CHR ''e'' \<or> c = CHR ''E'' then prepend [c] (expSign cs) else Some ([], c # cs))"

definition unsignedNumber :: "string \<Rightarrow> (string \<times> string) option" where
  "unsignedNumber s =
     (case intPart s of
        None \<Rightarrow> None
      | Some (i, r) \<Rightarrow>
          (case fracPart r of
             None \<Rightarrow> None
           | Some (f, r') \<Rightarrow> prepend (i @ f) (expPart r')))"

fun number :: "string \<Rightarrow> (string \<times> string) option" where
  "number [] = None"
| "number (c # cs) = (if c = CHR ''-'' then prepend [c] (unsignedNumber cs) else unsignedNumber (c # cs))"

fun stripPrefix :: "string \<Rightarrow> string \<Rightarrow> string option" where
  "stripPrefix [] s = Some s"
| "stripPrefix (p # ps) [] = None"
| "stripPrefix (p # ps) (c # cs) = (if c = p then stripPrefix ps cs else None)"

definition punctuation :: "char \<Rightarrow> token option" where
  "punctuation c =
     (if c = CHR ''{'' then Some TOpenObj
      else if c = CHR ''}'' then Some TCloseObj
      else if c = CHR ''['' then Some TOpenArr
      else if c = CHR '']'' then Some TCloseArr
      else if c = CHR '':'' then Some TColon
      else if c = CHR '','' then Some TComma
      else None)"

definition literal :: "char \<Rightarrow> (string \<times> json) option" where
  "literal c =
     (if c = CHR ''t'' then Some (''rue'', JBool True)
      else if c = CHR ''f'' then Some (''alse'', JBool False)
      else if c = CHR ''n'' then Some (''ull'', JNull)
      else None)"

text \<open>The first token of a text that does not start with white space.\<close>

definition nextToken :: "char \<Rightarrow> string \<Rightarrow> (token \<times> string) option" where
  "nextToken c cs =
     (case punctuation c of
        Some t \<Rightarrow> Some (t, cs)
      | None \<Rightarrow>
          if c = quote then map_option (\<lambda>(s, r). (TStr s, r)) (unquote cs)
          else (case literal c of
            Some (rest, v) \<Rightarrow> map_option (\<lambda>r. (TVal v, r)) (stripPrefix rest cs)
          | None \<Rightarrow>
              if c = CHR ''-'' \<or> isDigit c
              then map_option (\<lambda>(n, r). (TVal (JNum n), r)) (number (c # cs)) else None))"

lemma digits1_shrinks: "digits1 s = Some (n, r) \<Longrightarrow> length r < length s"
  by (cases s) (auto simp: digits1_def less_Suc_eq_le length_dropWhile_le split: if_splits)

lemma intPart_shrinks: "intPart s = Some (n, r) \<Longrightarrow> length r < length s"
  by (cases s) (auto split: if_splits dest: digits1_shrinks)

lemma fracPart_shrinks: "fracPart s = Some (n, r) \<Longrightarrow> length r \<le> length s"
  by (cases s) (auto simp: prepend_def split: if_splits dest!: digits1_shrinks)

lemma expPart_shrinks: "expPart s = Some (n, r) \<Longrightarrow> length r \<le> length s"
  by (cases s rule: expPart.cases; cases "tl s")
    (fastforce simp: prepend_def split: if_splits dest!: digits1_shrinks)+

lemma prepend_Some_iff: "prepend u m = Some (s, r) \<longleftrightarrow> (\<exists>s'. m = Some (s', r) \<and> s = u @ s')"
  by (auto simp: prepend_def)

lemma unsignedNumber_shrinks:
  assumes "unsignedNumber s = Some (n, r)"
  shows "length r < length s"
proof -
  obtain i r1 f r2 e where "intPart s = Some (i, r1)" "fracPart r1 = Some (f, r2)" "expPart r2 = Some (e, r)"
    using assms by (auto simp: unsignedNumber_def prepend_Some_iff split: option.splits)
  from intPart_shrinks [OF this(1)] fracPart_shrinks [OF this(2)] expPart_shrinks [OF this(3)]
  show ?thesis by simp
qed

lemma number_shrinks: "number s = Some (n, r) \<Longrightarrow> length r < length s"
  by (cases s) (auto simp: prepend_Some_iff split: if_splits dest!: unsignedNumber_shrinks)

declare number.simps(2) [simp del]

lemma stripPrefix_shrinks: "stripPrefix p s = Some r \<Longrightarrow> length r \<le> length s"
  by (induction p s rule: stripPrefix.induct) (auto split: if_splits)

lemma nextToken_shrinks: "nextToken c cs = Some (t, r) \<Longrightarrow> length r \<le> length cs"
  by (auto simp: nextToken_def split: option.splits if_splits
      dest!: unquote_shrinks stripPrefix_shrinks number_shrinks)

function tokens :: "string \<Rightarrow> token list option" where
  "tokens [] = Some []"
| "tokens (c # cs) =
     (if isSpace c then tokens cs
      else case nextToken c cs of
        None \<Rightarrow> None
      | Some (t, r) \<Rightarrow> map_option (\<lambda>ts. t # ts) (tokens r))"
  by pat_completeness auto
termination
  by (relation "measure length") (auto simp: less_Suc_eq_le dest: nextToken_shrinks)

declare tokens.simps(2) [simp del]

section \<open>The scanner\<close>

text \<open>The limit on open arrays and objects.\<close>

definition maxNestingDepth :: nat where
  "maxNestingDepth = 10000"

text \<open>The stack: an open array with its elements, an open object with its members, and an open
  object with a key whose value is being read. The phase says what comes next.\<close>

datatype frame = FArr "json list" | FObj "(string \<times> json) list" | FKey string "(string \<times> json) list"

datatype phase = WantValue | WantValueOrEnd | WantKeyOrEnd | WantKey | WantColon string
  | AfterValue | Finished json

type_synonym scanner = "phase \<times> frame list"

fun complete :: "json \<Rightarrow> frame list \<Rightarrow> scanner option" where
  "complete v [] = Some (Finished v, [])"
| "complete v (FArr xs # st) = Some (AfterValue, FArr (xs @ [v]) # st)"
| "complete v (FKey k ms # st) = Some (AfterValue, FObj (ms @ [(k, v)]) # st)"
| "complete v (FObj ms # st) = None"

definition pushFrame :: "phase \<Rightarrow> frame \<Rightarrow> frame list \<Rightarrow> scanner option" where
  "pushFrame p f st = (if length st < maxNestingDepth then Some (p, f # st) else None)"

fun startValue :: "token \<Rightarrow> frame list \<Rightarrow> scanner option" where
  "startValue TOpenArr st = pushFrame WantValueOrEnd (FArr []) st"
| "startValue TOpenObj st = pushFrame WantKeyOrEnd (FObj []) st"
| "startValue (TVal v) st = complete v st"
| "startValue (TStr s) st = complete (JStr s) st"
| "startValue t st = None"

fun readKey :: "token \<Rightarrow> frame list \<Rightarrow> scanner option" where
  "readKey (TStr k) st = Some (WantColon k, st)"
| "readKey t st = None"

text \<open>What may follow an element of an array, or the value of a member.\<close>

fun afterValue :: "token \<Rightarrow> frame list \<Rightarrow> scanner option" where
  "afterValue t (FArr xs # st) =
     (if t = TComma then Some (WantValue, FArr xs # st)
      else if t = TCloseArr then complete (JArr xs) st else None)"
| "afterValue t (FObj ms # st) =
     (if t = TComma then Some (WantKey, FObj ms # st)
      else if t = TCloseObj then complete (JObj ms) st else None)"
| "afterValue t st = None"

fun scanStep :: "token \<Rightarrow> scanner \<Rightarrow> scanner option" where
  "scanStep t (WantValue, st) = startValue t st"
| "scanStep t (WantValueOrEnd, st) =
     (if t = TCloseArr then (case st of FArr xs # st' \<Rightarrow> complete (JArr xs) st' | _ \<Rightarrow> None)
      else startValue t st)"
| "scanStep t (WantKeyOrEnd, st) =
     (if t = TCloseObj then (case st of FObj ms # st' \<Rightarrow> complete (JObj ms) st' | _ \<Rightarrow> None)
      else readKey t st)"
| "scanStep t (WantKey, st) = readKey t st"
| "scanStep t (WantColon k, st) =
     (if t = TColon then (case st of FObj ms # st' \<Rightarrow> Some (WantValue, FKey k ms # st') | _ \<Rightarrow> None)
      else None)"
| "scanStep t (AfterValue, st) = afterValue t st"
| "scanStep t (Finished v, st) = None"

fun scan :: "token list \<Rightarrow> scanner \<Rightarrow> scanner option" where
  "scan [] s = Some s"
| "scan (t # ts) s = Option.bind (scanStep t s) (scan ts)"

definition parseJSON :: "string \<Rightarrow> json option" where
  "parseJSON s =
     (case Option.bind (tokens s) (\<lambda>ts. scan ts (WantValue, [])) of
        Some (Finished v, []) \<Rightarrow> Some v
      | _ \<Rightarrow> None)"

section \<open>What is written reads back\<close>

text \<open>The tokens of a value, and the value with every string as it will be read.\<close>

fun tokensOf :: "json \<Rightarrow> token list" where
  "tokensOf JNull = [TVal JNull]"
| "tokensOf (JBool b) = [TVal (JBool b)]"
| "tokensOf (JNum n) = [TVal (JNum n)]"
| "tokensOf (JStr s) = [TStr s]"
| "tokensOf (JArr []) = [TOpenArr, TCloseArr]"
| "tokensOf (JArr (j # js)) =
     TOpenArr # tokensOf j @ concat (map (\<lambda>i. TComma # tokensOf i) js) @ [TCloseArr]"
| "tokensOf (JObj []) = [TOpenObj, TCloseObj]"
| "tokensOf (JObj ((k, j) # ms)) =
     TOpenObj # TStr k # TColon # tokensOf j
       @ concat (map (\<lambda>(l, i). TComma # TStr l # TColon # tokensOf i) ms) @ [TCloseObj]"

fun clean :: "json \<Rightarrow> json" where
  "clean (JStr s) = JStr (sanitize s)"
| "clean (JArr js) = JArr (map clean js)"
| "clean (JObj ms) = JObj (map (\<lambda>(k, j). (sanitize k, clean j)) ms)"
| "clean v = v"

text \<open>The numbers are integers, and the depth.\<close>

fun integral :: "json \<Rightarrow> bool" where
  "integral (JNum n) \<longleftrightarrow> (\<exists>i. n = decInt i)"
| "integral (JArr js) \<longleftrightarrow> (\<forall>j \<in> set js. integral j)"
| "integral (JObj ms) \<longleftrightarrow> (\<forall>(k, j) \<in> set ms. integral j)"
| "integral v \<longleftrightarrow> True"

fun depth :: "json \<Rightarrow> nat" where
  "depth (JArr js) = Suc (foldr max (map depth js) 0)"
| "depth (JObj ms) = Suc (foldr max (map (\<lambda>(k, j). depth j) ms) 0)"
| "depth v = 0"

text \<open>The text behind a value: nothing, or a character no number continues with.\<close>

definition stops :: "string \<Rightarrow> bool" where
  "stops r \<longleftrightarrow> r = [] \<or> hd r \<in> {CHR '','', CHR '']'', CHR ''}''}"

lemma stops_simps [simp]:
  "stops []" "stops (CHR '','' # r)" "stops (CHR '']'' # r)" "stops (CHR ''}'' # r)"
  by (simp_all add: stops_def)

lemma hexDigit_facts: "n < 10 \<Longrightarrow> isDigit (hexDigit n) \<and> (hexDigit n = CHR ''0'' \<longleftrightarrow> n = 0)"
proof -
  have "list_all (\<lambda>n. isDigit (hexDigit n) \<and> (hexDigit n = CHR ''0'' \<longleftrightarrow> n = 0)) [0..<10]"
    by (simp add: upt_rec isDigit_def hexDigit_def within_def code_def)
  then show "n < 10 \<Longrightarrow> isDigit (hexDigit n) \<and> (hexDigit n = CHR ''0'' \<longleftrightarrow> n = 0)"
    by (simp add: list_all_iff)
qed

lemma decDigits_shape:
  "decDigits n \<noteq> [] \<and> (\<forall>c \<in> set (decDigits n). isDigit c) \<and> (hd (decDigits n) = CHR ''0'' \<longleftrightarrow> n = 0)"
proof (induction n rule: decDigits.induct)
  case (1 n)
  show ?case
  proof (cases "n < 10")
    case True
    then show ?thesis
      by (simp add: decDigits.simps [of n] hexDigit_facts)
  next
    case False
    then show ?thesis
      using 1 by (simp add: decDigits.simps [of n] hexDigit_facts)
  qed
qed

lemma stops_not_digit: "stops r \<Longrightarrow> takeWhile isDigit r = [] \<and> dropWhile isDigit r = r"
  by (cases r) (auto simp: stops_def isDigit_def within_def code_def)

lemma digits1_all:
  "ds \<noteq> [] \<Longrightarrow> \<forall>c \<in> set ds. isDigit c \<Longrightarrow> stops r \<Longrightarrow> digits1 (ds @ r) = Some (ds, r)"
  using stops_not_digit [of r] by (auto simp: digits1_def)

lemma unsignedNumber_dec:
  assumes "stops r"
  shows "unsignedNumber (decDigits n @ r) = Some (decDigits n, r)"
proof -
  have "intPart (decDigits n @ r) = Some (decDigits n, r)"
  proof (cases "n = 0")
    case True
    then show ?thesis by (simp add: decDigits.simps [of 0] hexDigit_def)
  next
    case False
    then show ?thesis
      using decDigits_shape [of n] digits1_all [of "decDigits n" r] assms
      by (cases "decDigits n") auto
  qed
  moreover have "fracPart r = Some ([], r)" "expPart r = Some ([], r)"
    using assms by (cases r; auto simp: stops_def)+
  ultimately show ?thesis by (simp add: unsignedNumber_def)
qed

lemma decDigits_Cons:
  obtains c cs where "decDigits n = c # cs" "isDigit c"
  using decDigits_shape [of n] by (cases "decDigits n") auto

lemma digit_facts:
  assumes "isDigit c"
  shows "c \<noteq> CHR ''-''" "\<not> isSpace c" "punctuation c = None" "literal c = None" "c \<noteq> quote"
  using assms by (auto simp: isDigit_def within_def code_def isSpace_def punctuation_def literal_def quote_def)

lemma tokens_decInt:
  assumes "stops r"
  shows "tokens (decInt i @ r) = map_option (\<lambda>ts. TVal (JNum (decInt i)) # ts) (tokens r)"
proof (cases "i < 0")
  case True
  then have d: "decInt i = CHR ''-'' # decDigits (nat (- i))"
    by (simp add: decInt_def)
  show ?thesis
    unfolding d
    by (simp add: tokens.simps(2) nextToken_def number.simps(2) unsignedNumber_dec [OF assms]
        isSpace_def punctuation_def literal_def quote_def)
next
  case False
  then have d: "decInt i = decDigits (nat i)"
    by (simp add: decInt_def)
  obtain c cs where c: "decDigits (nat i) = c # cs" "isDigit c"
    by (rule decDigits_Cons)
  then show ?thesis
    using unsignedNumber_dec [OF assms, of "nat i"] digit_facts [OF c(2)]
    by (simp add: d tokens.simps(2) nextToken_def number.simps(2))
qed

lemma tokens_punctuation:
  "punctuation c = Some t \<Longrightarrow> tokens (c # r) = map_option (\<lambda>ts. t # ts) (tokens r)"
  by (auto simp: tokens.simps(2) nextToken_def isSpace_def punctuation_def split: if_splits)

lemma tokens_quoted:
  "tokens (quoted s @ r) = map_option (\<lambda>ts. TStr (sanitize s) # ts) (tokens r)"
proof -
  have "\<not> isSpace quote" "punctuation quote = None"
    by (simp_all add: isSpace_def punctuation_def quote_def)
  then show ?thesis
    by (simp add: quoted_def tokens.simps(2) nextToken_def unquote_escapeString)
qed

lemma tokens_structural:
  "tokens (CHR ''{'' # r) = map_option (\<lambda>ts. TOpenObj # ts) (tokens r)"
  "tokens (CHR ''}'' # r) = map_option (\<lambda>ts. TCloseObj # ts) (tokens r)"
  "tokens (CHR ''['' # r) = map_option (\<lambda>ts. TOpenArr # ts) (tokens r)"
  "tokens (CHR '']'' # r) = map_option (\<lambda>ts. TCloseArr # ts) (tokens r)"
  "tokens (CHR '':'' # r) = map_option (\<lambda>ts. TColon # ts) (tokens r)"
  "tokens (CHR '','' # r) = map_option (\<lambda>ts. TComma # ts) (tokens r)"
  by (rule tokens_punctuation, simp add: punctuation_def)+

lemma tokens_literals:
  "tokens (''null'' @ r) = map_option (\<lambda>ts. TVal JNull # ts) (tokens r)"
  "tokens (''true'' @ r) = map_option (\<lambda>ts. TVal (JBool True) # ts) (tokens r)"
  "tokens (''false'' @ r) = map_option (\<lambda>ts. TVal (JBool False) # ts) (tokens r)"
  by (simp_all add: tokens.simps(2) nextToken_def isSpace_def punctuation_def literal_def quote_def)

text \<open>\<open>v\<close> is written so that the tokenizer finds its tokens in front of any rest.\<close>

definition tokenized :: "json \<Rightarrow> bool" where
  "tokenized v \<longleftrightarrow> (\<forall>r. stops r \<longrightarrow>
     tokens (render v @ r) = map_option (\<lambda>ts. tokensOf (clean v) @ ts) (tokens r))"

lemma tokens_elements:
  assumes "\<forall>i \<in> set js. tokenized i" and "stops r"
  shows "tokens (concat (map (\<lambda>i. CHR '','' # render i) js) @ r)
      = map_option (\<lambda>ts. concat (map (\<lambda>i. TComma # tokensOf i) (map clean js)) @ ts) (tokens r)
    \<and> stops (concat (map (\<lambda>i. CHR '','' # render i) js) @ r)"
  using assms(1)
proof (induction js)
  case Nil
  then show ?case using assms(2) by (simp add: option.map_id0 option.map_ident)
next
  case (Cons j js)
  then show ?case
    by (simp add: tokens_structural tokenized_def option.map_comp comp_def)
qed

lemma tokens_members:
  assumes "\<forall>(k, i) \<in> set ms. tokenized i" and "stops r"
  shows "tokens (concat (map (\<lambda>(l, i). CHR '','' # quoted l @ CHR '':'' # render i) ms) @ r)
      = map_option (\<lambda>ts. concat (map (\<lambda>(l, i). TComma # TStr l # TColon # tokensOf i)
            (map (\<lambda>(k, j). (sanitize k, clean j)) ms)) @ ts) (tokens r)
    \<and> stops (concat (map (\<lambda>(l, i). CHR '','' # quoted l @ CHR '':'' # render i) ms) @ r)"
  using assms(1)
proof (induction ms)
  case Nil
  then show ?case using assms(2) by (simp add: option.map_id0 option.map_ident)
next
  case (Cons m ms)
  obtain k j where m: "m = (k, j)" by (cases m)
  show ?case
    using Cons
    by (simp add: m tokens_structural tokens_quoted tokenized_def option.map_comp comp_def)
qed

lemma tokenized_render: "integral v \<Longrightarrow> tokenized v"
proof (induction v rule: render.induct)
  case (6 j js)
  then have e: "\<forall>i \<in> set js. tokenized i" and j: "tokenized j" by auto
  have "stops (CHR '']'' # r)" for r by simp
  from tokens_elements [OF e this] show ?case
    using j by (simp add: tokenized_def tokens_structural option.map_comp comp_def)
next
  case (8 k j ms)
  then have e: "\<forall>(k, i) \<in> set ms. tokenized i" and j: "tokenized j" by fastforce+
  have "stops (CHR ''}'' # r)" for r by simp
  from tokens_members [OF e this] show ?case
    using j by (simp add: tokenized_def tokens_structural tokens_quoted option.map_comp comp_def)
qed (auto simp: tokenized_def tokens_structural tokens_literals [simplified] tokens_quoted tokens_decInt
    option.map_comp comp_def)

lemma scan_elements:
  assumes "\<forall>i \<in> set js. \<forall>ts st. depth i + length st \<le> maxNestingDepth
      \<longrightarrow> scan (tokensOf i @ ts) (WantValue, st) = Option.bind (complete i st) (scan ts)"
    and "\<forall>i \<in> set js. Suc (depth i + length st) \<le> maxNestingDepth"
  shows "scan (concat (map (\<lambda>i. TComma # tokensOf i) js) @ ts) (AfterValue, FArr acc # st)
    = scan ts (AfterValue, FArr (acc @ js) # st)"
  using assms by (induction js arbitrary: acc) auto

lemma scan_members:
  assumes "\<forall>(k, i) \<in> set ms. \<forall>ts st. depth i + length st \<le> maxNestingDepth
      \<longrightarrow> scan (tokensOf i @ ts) (WantValue, st) = Option.bind (complete i st) (scan ts)"
    and "\<forall>(k, i) \<in> set ms. Suc (depth i + length st) \<le> maxNestingDepth"
  shows "scan (concat (map (\<lambda>(l, i). TComma # TStr l # TColon # tokensOf i) ms) @ ts) (AfterValue, FObj acc # st)
    = scan ts (AfterValue, FObj (acc @ ms) # st)"
  using assms by (induction ms arbitrary: acc) auto

lemma depth_le: "j \<in> set js \<Longrightarrow> depth j \<le> foldr max (map depth js) 0"
  by (induction js) auto

lemma depth_member_le: "(k, j) \<in> set ms \<Longrightarrow> depth j \<le> foldr max (map (\<lambda>(k, j). depth j) ms) 0"
  by (induction ms) auto

lemma scan_WantValueOrEnd:
  "scan (tokensOf v @ ts) (WantValueOrEnd, st) = scan (tokensOf v @ ts) (WantValue, st)"
  by (cases v rule: tokensOf.cases) simp_all

text \<open>The scanner reads a value's tokens as that value, wherever it stands.\<close>

lemma scan_tokensOf:
  "depth v + length st \<le> maxNestingDepth
   \<Longrightarrow> scan (tokensOf v @ ts) (WantValue, st) = Option.bind (complete v st) (scan ts)"
proof (induction v arbitrary: ts st rule: tokensOf.induct)
  case (6 j js)
  have d: "Suc (depth i + length st) \<le> maxNestingDepth" if "i \<in> set (j # js)" for i
    using depth_le [OF that] "6.prems" by simp
  have "scan (tokensOf j @ concat (map (\<lambda>i. TComma # tokensOf i) js) @ TCloseArr # ts) (WantValue, FArr [] # st)
      = scan (concat (map (\<lambda>i. TComma # tokensOf i) js) @ TCloseArr # ts) (AfterValue, FArr [j] # st)"
    using 6(1) d by simp
  also have "\<dots> = scan (TCloseArr # ts) (AfterValue, FArr ([j] @ js) # st)"
    by (rule scan_elements) (use 6(2) d in auto)
  finally show ?case
    using "6.prems" by (simp add: pushFrame_def scan_WantValueOrEnd)
next
  case (8 k j ms)
  have d: "Suc (depth i + length st) \<le> maxNestingDepth" if "(l, i) \<in> set ((k, j) # ms)" for l i
    using depth_member_le [OF that] "8.prems" by simp
  have d': "\<forall>(l, i) \<in> set ms. Suc (depth i + length st) \<le> maxNestingDepth"
    using d by fastforce
  have "scan (tokensOf j @ concat (map (\<lambda>(l, i). TComma # TStr l # TColon # tokensOf i) ms) @ TCloseObj # ts)
          (WantValue, FKey k [] # st)
      = scan (concat (map (\<lambda>(l, i). TComma # TStr l # TColon # tokensOf i) ms) @ TCloseObj # ts)
          (AfterValue, FObj [(k, j)] # st)"
    using 8(1) d [of k j] by simp
  also have "\<dots> = scan (TCloseObj # ts) (AfterValue, FObj ([(k, j)] @ ms) # st)"
    by (rule scan_members [OF _ d']) (use 8(2) in auto)
  finally show ?case
    using "8.prems" by (simp add: pushFrame_def)
qed (auto simp: pushFrame_def)

lemma depth_clean [simp]: "depth (clean v) = depth v"
proof (induction v rule: clean.induct)
  case (2 js)
  then have "map (\<lambda>j. depth (clean j)) js = map depth js" by simp
  then show ?case by (simp only: clean.simps depth.simps map_map comp_def)
next
  case (3 ms)
  then have "map (\<lambda>x. depth (clean (snd x))) ms = map (\<lambda>x. depth (snd x)) ms" by fastforce
  then show ?case
    by (simp only: clean.simps depth.simps map_map comp_def case_prod_unfold fst_conv snd_conv)
qed simp_all

theorem parse_render:
  assumes "integral v" and "depth v \<le> maxNestingDepth"
  shows "parseJSON (render v) = Some (clean v)"
proof -
  have "tokens (render v @ []) = map_option (\<lambda>ts. tokensOf (clean v) @ ts) (tokens [])"
    using tokenized_render [OF assms(1)] by (simp only: tokenized_def stops_simps simp_thms)
  then have "tokens (render v) = Some (tokensOf (clean v))" by simp
  moreover have "scan (tokensOf (clean v) @ []) (WantValue, []) = Option.bind (complete (clean v) []) (scan [])"
    by (rule scan_tokensOf) (simp add: assms(2))
  ultimately show ?thesis by (simp add: parseJSON_def)
qed

section \<open>What is read holds valid UTF-8\<close>

fun validStrings :: "json \<Rightarrow> bool" where
  "validStrings (JStr s) = validUTF8 s"
| "validStrings (JArr js) = list_all validStrings js"
| "validStrings (JObj ms) = list_all (\<lambda>(k, j). validUTF8 k \<and> validStrings j) ms"
| "validStrings v = True"

fun tokenValid :: "token \<Rightarrow> bool" where
  "tokenValid (TStr s) = validUTF8 s"
| "tokenValid (TVal v) = validStrings v"
| "tokenValid t = True"

fun frameValid :: "frame \<Rightarrow> bool" where
  "frameValid (FArr js) = validStrings (JArr js)"
| "frameValid (FObj ms) = validStrings (JObj ms)"
| "frameValid (FKey k ms) = (validUTF8 k \<and> validStrings (JObj ms))"

fun scannerValid :: "scanner \<Rightarrow> bool" where
  "scannerValid (Finished v, st) = (validStrings v \<and> list_all frameValid st)"
| "scannerValid (WantColon k, st) = (validUTF8 k \<and> list_all frameValid st)"
| "scannerValid (p, st) = list_all frameValid st"

lemma punctuation_valid: "punctuation c = Some t \<Longrightarrow> tokenValid t"
  by (auto simp: punctuation_def split: if_splits)

lemma literal_valid: "literal c = Some (r, v) \<Longrightarrow> validStrings v"
  by (auto simp: literal_def split: if_splits)

lemma nextToken_valid: "nextToken c cs = Some (t, r) \<Longrightarrow> tokenValid t"
  by (auto simp: nextToken_def split: if_splits option.splits
      dest: unquote_valid punctuation_valid literal_valid)

lemma tokens_valid: "tokens s = Some ts \<Longrightarrow> list_all tokenValid ts"
proof (induction s arbitrary: ts rule: tokens.induct)
  case (2 c cs)
  then show ?case
    by (auto simp: tokens.simps(2) split: if_splits option.splits dest: nextToken_valid)
qed simp

lemma complete_valid:
  "complete v st = Some s \<Longrightarrow> validStrings v \<Longrightarrow> list_all frameValid st \<Longrightarrow> scannerValid s"
  by (induction v st rule: complete.induct) auto

lemma startValue_valid:
  "startValue t st = Some s \<Longrightarrow> tokenValid t \<Longrightarrow> list_all frameValid st \<Longrightarrow> scannerValid s"
  by (induction t st rule: startValue.induct)
    (auto simp: pushFrame_def complete_valid split: if_splits)

lemma readKey_valid:
  "readKey t st = Some s \<Longrightarrow> tokenValid t \<Longrightarrow> list_all frameValid st \<Longrightarrow> scannerValid s"
  by (cases t) auto

lemma afterValue_valid:
  "afterValue t st = Some s \<Longrightarrow> list_all frameValid st \<Longrightarrow> scannerValid s"
  by (induction t st rule: afterValue.induct) (auto split: if_splits intro: complete_valid)

lemma scanStep_valid:
  "scanStep t s = Some s' \<Longrightarrow> tokenValid t \<Longrightarrow> scannerValid s \<Longrightarrow> scannerValid s'"
  by (induction t s rule: scanStep.induct)
    (auto split: if_splits list.splits frame.splits
      intro: startValue_valid complete_valid readKey_valid afterValue_valid)

lemma scan_valid:
  "scan ts s = Some s' \<Longrightarrow> list_all tokenValid ts \<Longrightarrow> scannerValid s \<Longrightarrow> scannerValid s'"
  by (induction ts arbitrary: s) (auto simp: bind_eq_Some_conv dest: scanStep_valid)

theorem parseJSON_valid: "parseJSON s = Some v \<Longrightarrow> validStrings v"
  by (auto simp: parseJSON_def bind_eq_Some_conv split: option.splits prod.splits phase.splits list.splits
      dest!: scan_valid tokens_valid)

end
