(* ===== verification/Base64.thy ===== *)
theory Base64
  imports Json
begin

text \<open>
  \<open>base64.StdEncoding\<close>, as \<open>encoding/json\<close> uses it for byte slices: padding is written and required,
  and line breaks are skipped when reading.
\<close>

definition alphabet :: string where
  "alphabet = ''ABCDEFGHIJKLMNOPQRSTUVWXYZabcdefghijklmnopqrstuvwxyz0123456789+/''"

definition sextet :: "nat \<Rightarrow> char" where
  "sextet n = alphabet ! (n mod 64)"

definition unsextet :: "char \<Rightarrow> nat option" where
  "unsextet c =
     (if within 65 90 c then Some (code c - 65)
      else if within 97 122 c then Some (code c - 71)
      else if within 48 57 c then Some (code c + 4)
      else if c = CHR ''+'' then Some 62
      else if c = CHR ''/'' then Some 63
      else None)"

fun EncodeToString :: "bytes \<Rightarrow> string" where
  "EncodeToString [] = []"
| "EncodeToString [a] = [sextet (unat a div 4), sextet (unat a mod 4 * 16), CHR ''='', CHR ''='']"
| "EncodeToString [a, b] =
     [sextet (unat a div 4), sextet (unat a mod 4 * 16 + unat b div 16),
      sextet (unat b mod 16 * 4), CHR ''='']"
| "EncodeToString (a # b # c # r) =
     [sextet (unat a div 4), sextet (unat a mod 4 * 16 + unat b div 16),
      sextet (unat b mod 16 * 4 + unat c div 64), sextet (unat c mod 64)] @ EncodeToString r"

text \<open>The bytes of a quantum of two, three or four digits; bits that do not fill a byte are dropped.\<close>

definition quantum :: "nat list \<Rightarrow> bytes" where
  "quantum vs =
     (case vs of
        [v0, v1] \<Rightarrow> [of_nat (v0 * 4 + v1 div 16)]
      | [v0, v1, v2] \<Rightarrow> [of_nat (v0 * 4 + v1 div 16), of_nat (v1 mod 16 * 16 + v2 div 4)]
      | [v0, v1, v2, v3] \<Rightarrow>
          [of_nat (v0 * 4 + v1 div 16), of_nat (v1 mod 16 * 16 + v2 div 4), of_nat (v2 mod 4 * 64 + v3)]
      | _ \<Rightarrow> [])"

fun digitsOf :: "string \<Rightarrow> nat list option" where
  "digitsOf [] = Some []"
| "digitsOf (c # cs) =
     (case unsextet c of None \<Rightarrow> None | Some v \<Rightarrow> map_option (\<lambda>vs. v # vs) (digitsOf cs))"

fun decodeQuanta :: "string \<Rightarrow> bytes option" where
  "decodeQuanta [] = Some []"
| "decodeQuanta (c0 # c1 # c2 # c3 # r) =
     (if c2 = CHR ''='' \<and> c3 = CHR ''='' \<and> r = [] then map_option quantum (digitsOf [c0, c1])
      else if c3 = CHR ''='' \<and> r = [] then map_option quantum (digitsOf [c0, c1, c2])
      else case digitsOf [c0, c1, c2, c3] of
        None \<Rightarrow> None
      | Some vs \<Rightarrow> map_option (\<lambda>b. quantum vs @ b) (decodeQuanta r))"
| "decodeQuanta _ = None"

definition DecodeString :: "string \<Rightarrow> bytes option" where
  "DecodeString s = decodeQuanta (filter (\<lambda>c. c \<noteq> CHR 0x0A \<and> c \<noteq> CHR 0x0D) s)"

section \<open>Round trip\<close>

lemma sextet_cases:
  "sextet n \<in> set alphabet"
  unfolding sextet_def by (rule nth_mem) (simp add: alphabet_def)

lemma unsextet_sextet: "n < 64 \<Longrightarrow> unsextet (sextet n) = Some n"
proof -
  have all: "list_all (\<lambda>n. unsextet (sextet n) = Some n) [0..<64]"
    by (simp add: upt_rec unsextet_def sextet_def alphabet_def within_def code_def)
  assume "n < 64"
  then show ?thesis using all by (simp add: list_all_iff)
qed

lemma alphabet_facts:
  assumes "c \<in> set alphabet \<or> c = CHR ''=''"
  shows "code c < 128" "escapeASCII c = [c]" "c \<noteq> CHR 0x0A" "c \<noteq> CHR 0x0D"
proof -
  have "list_all (\<lambda>c. code c < 128 \<and> escapeASCII c = [c] \<and> c \<noteq> CHR 0x0A \<and> c \<noteq> CHR 0x0D)
      (CHR ''='' # alphabet)"
    by (simp add: alphabet_def code_def escapeASCII_def quote_def backslash_def)
  then show "code c < 128" "escapeASCII c = [c]" "c \<noteq> CHR 0x0A" "c \<noteq> CHR 0x0D"
    using assms by (auto simp only: list_all_iff list.set insert_iff)
qed

lemma EncodeToString_chars: "c \<in> set (EncodeToString b) \<Longrightarrow> c \<in> set alphabet \<or> c = CHR ''=''"
  by (induction b rule: EncodeToString.induct) (auto simp: sextet_cases)

text \<open>The library writes the encoding between the quotes as it is; escaping would not change it.\<close>

lemma escapeString_EncodeToString: "escapeString (EncodeToString b) = EncodeToString b"
  using alphabet_facts [OF EncodeToString_chars] by (intro escapeString_plain) blast

lemma sanitize_EncodeToString: "sanitize (EncodeToString b) = EncodeToString b"
  using alphabet_facts(1) [OF EncodeToString_chars] by (intro sanitize_valid validUTF8_ascii) blast

lemma not_padding: "n < 64 \<Longrightarrow> sextet n \<noteq> CHR ''=''"
  using unsextet_sextet [of n] by (auto simp: unsextet_def within_def code_def)

lemma byte_less: "unat (a :: byte) < 256"
  using unsigned_less [of a] by simp

lemma of_nat_unat_byte: "of_nat (unat (a :: byte)) = a"
  by simp

lemma pack: "r < k \<Longrightarrow> (q * k + r) div k = q \<and> (q * k + r) mod k = (r :: nat)"
  by simp

text \<open>Splitting bytes into groups of six bits loses nothing.\<close>

lemma quantum_split:
  fixes a b c :: byte
  shows "quantum [unat a div 4, unat a mod 4 * 16] = [a]"
    "quantum [unat a div 4, unat a mod 4 * 16 + unat b div 16, unat b mod 16 * 4] = [a, b]"
    "quantum [unat a div 4, unat a mod 4 * 16 + unat b div 16, unat b mod 16 * 4 + unat c div 64,
       unat c mod 64] = [a, b, c]"
proof -
  have b: "unat b div 16 < 16" and c: "unat c div 64 < 4"
    using byte_less [of b] byte_less [of c] by auto
  have 1: "unat a div 4 * 4 + (unat a mod 4 * 16) div 16 = unat a" by simp
  have 2: "unat a div 4 * 4 + (unat a mod 4 * 16 + unat b div 16) div 16 = unat a"
    using pack [OF b, of "unat a mod 4"] by simp
  have 3: "(unat a mod 4 * 16 + unat b div 16) mod 16 * 16 + (unat b mod 16 * 4) div 4 = unat b"
    using pack [OF b, of "unat a mod 4"] by simp
  have 4: "(unat a mod 4 * 16 + unat b div 16) mod 16 * 16 + (unat b mod 16 * 4 + unat c div 64) div 4 = unat b"
    using pack [OF b, of "unat a mod 4"] pack [OF c, of "unat b mod 16"] by simp
  have 5: "(unat b mod 16 * 4 + unat c div 64) mod 4 * 64 + unat c mod 64 = unat c"
    using pack [OF c, of "unat b mod 16"] by simp
  show "quantum [unat a div 4, unat a mod 4 * 16] = [a]"
    by (simp only: quantum_def list.case 1 of_nat_unat_byte)
  show "quantum [unat a div 4, unat a mod 4 * 16 + unat b div 16, unat b mod 16 * 4] = [a, b]"
    by (simp only: quantum_def list.case 2 3 of_nat_unat_byte)
  show "quantum [unat a div 4, unat a mod 4 * 16 + unat b div 16, unat b mod 16 * 4 + unat c div 64,
       unat c mod 64] = [a, b, c]"
    by (simp only: quantum_def list.case 2 4 5 of_nat_unat_byte)
qed

theorem DecodeString_EncodeToString: "DecodeString (EncodeToString b) = Some b"
proof -
  have "filter (\<lambda>c. c \<noteq> CHR 0x0A \<and> c \<noteq> CHR 0x0D) (EncodeToString b) = EncodeToString b"
    using alphabet_facts(3,4) [OF EncodeToString_chars] by (intro filter_True) blast
  moreover have "decodeQuanta (EncodeToString b) = Some b"
  proof (induction b rule: EncodeToString.induct)
    case (2 a)
    have "unat a div 4 < 64" "unat a mod 4 * 16 < 64" using byte_less [of a] by auto
    then show ?case by (simp add: unsextet_sextet quantum_split)
  next
    case (3 a b)
    have "unat a div 4 < 64" "unat a mod 4 * 16 + unat b div 16 < 64" "unat b mod 16 * 4 < 64"
      using byte_less [of a] byte_less [of b] by linarith+
    then show ?case
      using not_padding [of "unat b mod 16 * 4"]
      by (simp add: unsextet_sextet quantum_split)
  next
    case (4 a b c r)
    have "unat a div 4 < 64" "unat a mod 4 * 16 + unat b div 16 < 64"
      "unat b mod 16 * 4 + unat c div 64 < 64" "unat c mod 64 < 64"
      using byte_less [of a] byte_less [of b] byte_less [of c] by linarith+
    then show ?case
      using 4 not_padding [of "unat c mod 64"]
      by (simp add: unsextet_sextet quantum_split)
  qed simp
  ultimately show ?thesis by (simp add: DecodeString_def)
qed

end
