(* ===== verification/SealedJson.thy ===== *)
theory SealedJson
  imports JsonTree Base64 Vault
begin

text \<open>
  The serialized vault: \<open>marshal\<close> and \<open>parseSealed\<close> of \<open>sealed.go\<close>, and \<open>Open\<close>, \<open>OpenWith\<close> and
  \<open>Sealed\<close> of \<open>vault.go\<close>, which are built on them. The reflection-driven decoder of
  \<open>encoding/json\<close> is written out for the three structures of the document.
\<close>

section \<open>Decoding values\<close>

text \<open>
  A decoder takes the value to read and what the target holds, and returns what it holds afterwards;
  \<open>None\<close> is an error, which \<open>json.Unmarshal\<close> remembers and returns in the end. \<open>null\<close> leaves a
  scalar or a structure as it is.
\<close>

type_synonym 'a decoder = "json \<Rightarrow> 'a \<Rightarrow> 'a option"

definition decValue :: "string \<Rightarrow> nat" where
  "decValue ds = foldl (\<lambda>a c. 10 * a + (code c - 48)) 0 ds"

definition allDigits :: "string \<Rightarrow> bool" where
  "allDigits ds \<longleftrightarrow> ds \<noteq> [] \<and> list_all isDigit ds"

definition int64 :: "int \<Rightarrow> bool" where
  "int64 i \<longleftrightarrow> - (2 ^ 63) \<le> i \<and> i < 2 ^ 63"

text \<open>\<open>strconv.ParseInt(s, 10, 64)\<close> and \<open>strconv.ParseUint(s, 10, 64)\<close> on a JSON number, with the
  overflow check of the target. A fraction or an exponent is not a digit.\<close>

definition ParseInt :: "string \<Rightarrow> int option" where
  "ParseInt s =
     (let neg = (s \<noteq> [] \<and> hd s = CHR ''-'');
          ds = (if neg then tl s else s);
          i = (if neg then - int (decValue ds) else int (decValue ds))
      in if allDigits ds \<and> int64 i then Some i else None)"

definition ParseUint8 :: "string \<Rightarrow> byte option" where
  "ParseUint8 s = (if allDigits s \<and> decValue s < 256 then Some (of_nat (decValue s)) else None)"

fun decodeInt :: "int decoder" where
  "decodeInt JNull old = Some old"
| "decodeInt (JNum n) old = ParseInt n"
| "decodeInt j old = None"

fun decodeUint8 :: "byte decoder" where
  "decodeUint8 JNull old = Some old"
| "decodeUint8 (JNum n) old = ParseUint8 n"
| "decodeUint8 j old = None"

fun decodeBool :: "bool decoder" where
  "decodeBool JNull old = Some old"
| "decodeBool (JBool b) old = Some b"
| "decodeBool j old = None"

fun decodeString :: "string decoder" where
  "decodeString JNull old = Some old"
| "decodeString (JStr s) old = Some s"
| "decodeString j old = None"

text \<open>
  A slice is its elements and what lies behind them in the backing array. Decoding an array writes
  over the backing array from its start: an element is decoded into what was there, into the zero
  value behind its end. An empty array, and \<open>null\<close>, give up the backing array. (It matters only when
  a document repeats a member.)
\<close>

type_synonym 'a slice = "'a list \<times> 'a list"

fun decodeElems :: "'a decoder \<Rightarrow> 'a \<Rightarrow> json list \<Rightarrow> 'a list \<Rightarrow> 'a slice option" where
  "decodeElems f blank [] old = Some ([], old)"
| "decodeElems f blank (j # js) old =
     (case f j (case old of [] \<Rightarrow> blank | x # xs \<Rightarrow> x) of
        None \<Rightarrow> None
      | Some y \<Rightarrow> map_option (\<lambda>(ys, st). (y # ys, st)) (decodeElems f blank js (tl old)))"

definition decodeArray :: "'a decoder \<Rightarrow> 'a \<Rightarrow> json list \<Rightarrow> 'a slice \<Rightarrow> 'a slice option" where
  "decodeArray f blank js old =
     (if js = [] then Some ([], []) else decodeElems f blank js (fst old @ snd old))"

fun decodeSlice :: "'a decoder \<Rightarrow> 'a \<Rightarrow> 'a slice decoder" where
  "decodeSlice f blank JNull old = Some ([], [])"
| "decodeSlice f blank (JArr js) old = decodeArray f blank js old"
| "decodeSlice f blank j old = None"

text \<open>A byte slice is read from base64 too.\<close>

fun decodeBytes :: "byte slice decoder" where
  "decodeBytes (JStr s) old = map_option (\<lambda>b. (b, [])) (DecodeString s)"
| "decodeBytes j old = decodeSlice decodeUint8 0 j old"

text \<open>The members of an object in their order, each into the field it names.\<close>

fun decodeMembers :: "(string \<times> json \<Rightarrow> 'a \<Rightarrow> 'a option) \<Rightarrow> (string \<times> json) list \<Rightarrow> 'a \<Rightarrow> 'a option" where
  "decodeMembers f [] d = Some d"
| "decodeMembers f (m # ms) d = Option.bind (f m d) (decodeMembers f ms)"

fun decodeStruct :: "(string \<times> json \<Rightarrow> 'a \<Rightarrow> 'a option) \<Rightarrow> 'a decoder" where
  "decodeStruct f JNull d = Some d"
| "decodeStruct f (JObj ms) d = decodeMembers f ms d"
| "decodeStruct f j d = None"

text \<open>
  A member names a field when the names are equal up to \<open>unicode.SimpleFold\<close>. The field names are
  ASCII and differ under folding, so the exact match the library tries first gives nothing else; of
  the other characters only U+017F and U+212A fold to ASCII letters.
\<close>

function foldName :: "string \<Rightarrow> nat list" where
  "foldName [] = []"
| "foldName (c # cs) =
     (if c = CHR 0xC5 \<and> take 1 cs = [CHR 0xBF] then 83 # foldName (drop 1 cs)
      else if c = CHR 0xE2 \<and> take 2 cs = [CHR 0x84, CHR 0xAA] then 75 # foldName (drop 2 cs)
      else (if within 97 122 c then code c - 32 else code c) # foldName cs)"
  by pat_completeness auto
termination
  by (relation "measure length") auto

definition names_field :: "string \<Rightarrow> string \<Rightarrow> bool" where
  "names_field key name \<longleftrightarrow> foldName key = foldName name"

section \<open>Decoding the document\<close>

record keyTarget =
  tk_Slot :: int
  tk_Label :: string
  tk_CredentialID :: "byte slice"
  tk_Nonce :: "byte slice"
  tk_Wrapped :: "byte slice"

record secretTarget =
  ts_Name :: string
  ts_Nonce :: "byte slice"
  ts_Ciphertext :: "byte slice"

record vaultTarget =
  tv_Format :: int
  tv_RPID :: string
  tv_Salt :: "byte slice"
  tv_UserVerified :: bool
  tv_EntropyVerified :: bool
  tv_Keys :: "keyTarget slice"
  tv_Secrets :: "secretTarget slice"

definition zeroKey :: keyTarget where
  "zeroKey = \<lparr>tk_Slot = 0, tk_Label = [], tk_CredentialID = ([], []), tk_Nonce = ([], []), tk_Wrapped = ([], [])\<rparr>"

definition zeroSecret :: secretTarget where
  "zeroSecret = \<lparr>ts_Name = [], ts_Nonce = ([], []), ts_Ciphertext = ([], [])\<rparr>"

definition zeroVault :: vaultTarget where
  "zeroVault =
     \<lparr>tv_Format = 0, tv_RPID = [], tv_Salt = ([], []), tv_UserVerified = False,
      tv_EntropyVerified = False, tv_Keys = ([], []), tv_Secrets = ([], [])\<rparr>"

text \<open>One member of each structure; a member that names no field is skipped.\<close>

definition keyMember :: "string \<times> json \<Rightarrow> keyTarget \<Rightarrow> keyTarget option" where
  "keyMember m d =
     (case m of (key, j) \<Rightarrow>
      if names_field key ''slot'' then map_option (\<lambda>x. d\<lparr>tk_Slot := x\<rparr>) (decodeInt j (tk_Slot d))
      else if names_field key ''label'' then
        map_option (\<lambda>x. d\<lparr>tk_Label := x\<rparr>) (decodeString j (tk_Label d))
      else if names_field key ''credential_id'' then
        map_option (\<lambda>x. d\<lparr>tk_CredentialID := x\<rparr>) (decodeBytes j (tk_CredentialID d))
      else if names_field key ''nonce'' then
        map_option (\<lambda>x. d\<lparr>tk_Nonce := x\<rparr>) (decodeBytes j (tk_Nonce d))
      else if names_field key ''wrapped'' then
        map_option (\<lambda>x. d\<lparr>tk_Wrapped := x\<rparr>) (decodeBytes j (tk_Wrapped d))
      else Some d)"

definition secretMember :: "string \<times> json \<Rightarrow> secretTarget \<Rightarrow> secretTarget option" where
  "secretMember m d =
     (case m of (key, j) \<Rightarrow>
      if names_field key ''name'' then map_option (\<lambda>x. d\<lparr>ts_Name := x\<rparr>) (decodeString j (ts_Name d))
      else if names_field key ''nonce'' then
        map_option (\<lambda>x. d\<lparr>ts_Nonce := x\<rparr>) (decodeBytes j (ts_Nonce d))
      else if names_field key ''ciphertext'' then
        map_option (\<lambda>x. d\<lparr>ts_Ciphertext := x\<rparr>) (decodeBytes j (ts_Ciphertext d))
      else Some d)"

definition vaultMember :: "string \<times> json \<Rightarrow> vaultTarget \<Rightarrow> vaultTarget option" where
  "vaultMember m d =
     (case m of (key, j) \<Rightarrow>
      if names_field key ''format'' then map_option (\<lambda>x. d\<lparr>tv_Format := x\<rparr>) (decodeInt j (tv_Format d))
      else if names_field key ''rp_id'' then
        map_option (\<lambda>x. d\<lparr>tv_RPID := x\<rparr>) (decodeString j (tv_RPID d))
      else if names_field key ''salt'' then
        map_option (\<lambda>x. d\<lparr>tv_Salt := x\<rparr>) (decodeBytes j (tv_Salt d))
      else if names_field key ''user_verified'' then
        map_option (\<lambda>x. d\<lparr>tv_UserVerified := x\<rparr>) (decodeBool j (tv_UserVerified d))
      else if names_field key ''entropy_verified'' then
        map_option (\<lambda>x. d\<lparr>tv_EntropyVerified := x\<rparr>) (decodeBool j (tv_EntropyVerified d))
      else if names_field key ''keys'' then
        map_option (\<lambda>x. d\<lparr>tv_Keys := x\<rparr>)
          (decodeSlice (decodeStruct keyMember) zeroKey j (tv_Keys d))
      else if names_field key ''secrets'' then
        map_option (\<lambda>x. d\<lparr>tv_Secrets := x\<rparr>)
          (decodeSlice (decodeStruct secretMember) zeroSecret j (tv_Secrets d))
      else Some d)"

definition keyOf :: "keyTarget \<Rightarrow> sealedKey" where
  "keyOf d = \<lparr>k_Slot = tk_Slot d, k_Label = tk_Label d, k_CredentialID = fst (tk_CredentialID d),
     k_Nonce = fst (tk_Nonce d), k_Wrapped = fst (tk_Wrapped d)\<rparr>"

definition secretOf :: "secretTarget \<Rightarrow> sealedSecret" where
  "secretOf d = \<lparr>s_Name = ts_Name d, s_Nonce = fst (ts_Nonce d), s_Ciphertext = fst (ts_Ciphertext d)\<rparr>"

definition vaultOf :: "vaultTarget \<Rightarrow> sealedVault" where
  "vaultOf d =
     \<lparr>v_Format = tv_Format d, v_RPID = tv_RPID d, v_Salt = fst (tv_Salt d),
      v_UserVerified = tv_UserVerified d, v_EntropyVerified = tv_EntropyVerified d,
      v_Keys = map keyOf (fst (tv_Keys d)), v_Secrets = map secretOf (fst (tv_Secrets d))\<rparr>"

text \<open>\<open>json.Unmarshal(data, &v)\<close> into a zero document.\<close>

definition unmarshal :: "string \<Rightarrow> sealedVault option" where
  "unmarshal s =
     Option.bind (parseJSON s) (\<lambda>j. map_option vaultOf (decodeStruct vaultMember j zeroVault))"

section \<open>Encoding the document\<close>

text \<open>
  A nil slice is written as \<open>null\<close> and an empty one as \<open>[]\<close> or an empty string. The model keeps both as
  the empty list, so which of them is nil is a parameter of the encoding, asked by structure, index
  and field.
\<close>

type_synonym nils = "string \<times> nat \<times> string \<Rightarrow> bool"

definition bytesJSON :: "bool \<Rightarrow> bytes \<Rightarrow> json" where
  "bytesJSON isNil b = (if b = [] \<and> isNil then JNull else JStr (EncodeToString b))"

definition listJSON :: "bool \<Rightarrow> json list \<Rightarrow> json" where
  "listJSON isNil js = (if js = [] \<and> isNil then JNull else JArr js)"

definition keyJSON :: "nils \<Rightarrow> nat \<Rightarrow> sealedKey \<Rightarrow> json" where
  "keyJSON nils i k = JObj
     [(''slot'', JNum (decInt (k_Slot k))), (''label'', JStr (k_Label k)),
      (''credential_id'', bytesJSON (nils (''keys'', i, ''credential_id'')) (k_CredentialID k)),
      (''nonce'', bytesJSON (nils (''keys'', i, ''nonce'')) (k_Nonce k)),
      (''wrapped'', bytesJSON (nils (''keys'', i, ''wrapped'')) (k_Wrapped k))]"

definition secretJSON :: "nils \<Rightarrow> nat \<Rightarrow> sealedSecret \<Rightarrow> json" where
  "secretJSON nils i s = JObj
     [(''name'', JStr (s_Name s)),
      (''nonce'', bytesJSON (nils (''secrets'', i, ''nonce'')) (s_Nonce s)),
      (''ciphertext'', bytesJSON (nils (''secrets'', i, ''ciphertext'')) (s_Ciphertext s))]"

definition vaultJSON :: "nils \<Rightarrow> sealedVault \<Rightarrow> json" where
  "vaultJSON nils v = JObj
     [(''format'', JNum (decInt (v_Format v))), (''rp_id'', JStr (v_RPID v)),
      (''salt'', bytesJSON (nils (''vault'', 0, ''salt'')) (v_Salt v)),
      (''user_verified'', JBool (v_UserVerified v)), (''entropy_verified'', JBool (v_EntropyVerified v)),
      (''keys'', listJSON (nils (''vault'', 0, ''keys''))
         (map (\<lambda>(i, k). keyJSON nils i k) (enumerate 0 (v_Keys v)))),
      (''secrets'', listJSON (nils (''vault'', 0, ''secrets''))
         (map (\<lambda>(i, s). secretJSON nils i s) (enumerate 0 (v_Secrets v))))]"

text \<open>\<open>json.Marshal\<close> does not fail on these types.\<close>

definition marshal :: "nils \<Rightarrow> sealedVault \<Rightarrow> bytes result" where
  "marshal nils v = Inr (bytes_of_string (render (vaultJSON nils v)))"

section \<open>Opening and sealing\<close>

definition parseSealed :: "bytes \<Rightarrow> sealedVault result" where
  "parseSealed data =
     (case unmarshal (string_of_bytes data) of
        None \<Rightarrow> Inl (WrapErrors ''%w: the sealed vault is unreadable: %w''
                  [Sentinel ErrWrongFormat, errorsNew ''json''])
      | Some v \<Rightarrow> validateSealed v)"

definition OpenWith :: "bytes \<Rightarrow> Options \<Rightarrow> vault result" where
  "OpenWith data opts = bindR (parseSealed data) (\<lambda>doc. openDoc doc opts)"

definition zeroOptions :: Options where
  "zeroOptions = \<lparr>o_RPID = [], o_RPName = [], o_Roots = None, o_Label = []\<rparr>"

definition OpenVault :: "bytes \<Rightarrow> vault result" where
  "OpenVault data = OpenWith data zeroOptions"

definition session_Sealed :: "nils \<Rightarrow> session \<Rightarrow> bytes result" where
  "session_Sealed nils s = marshal nils (ses_doc s)"

section \<open>What is written reads back\<close>

lemma decValue_snoc: "decValue (ds @ [c]) = 10 * decValue ds + (code c - 48)"
  by (simp add: decValue_def)

lemma code_hexDigit: "n < 10 \<Longrightarrow> code (hexDigit n) - 48 = n"
proof -
  assume "n < 10"
  then have "n \<in> set [0..<10]" by simp
  then show ?thesis by (auto simp: upt_rec hexDigit_def code_def)
qed

lemma decValue_decDigits: "decValue (decDigits n) = n"
proof (induction n rule: decDigits.induct)
  case (1 n)
  show ?case
  proof (cases "n < 10")
    case True
    then show ?thesis
      using decValue_snoc [of "[]" "hexDigit n"] by (simp add: decDigits.simps [of n] code_hexDigit decValue_def)
  next
    case False
    then show ?thesis
      using 1 by (simp add: decDigits.simps [of n] decValue_snoc code_hexDigit)
  qed
qed

lemma ParseInt_decInt: "int64 i \<Longrightarrow> ParseInt (decInt i) = Some i"
proof -
  assume i: "int64 i"
  have d: "allDigits (decDigits n)" "hd (decDigits n) \<noteq> CHR ''-''" for n
    using decDigits_shape [of n] digit_facts(1) by (cases "decDigits n"; auto simp: allDigits_def list_all_iff)+
  show ?thesis
    using i d by (cases "i < 0") (simp_all add: ParseInt_def decInt_def Let_def decValue_decDigits)
qed

text \<open>A document as it comes back, with every string as valid UTF-8, and its place in the decoder.\<close>

definition cleanKey :: "sealedKey \<Rightarrow> sealedKey" where
  "cleanKey k = k\<lparr>k_Label := sanitize (k_Label k)\<rparr>"

definition cleanSecret :: "sealedSecret \<Rightarrow> sealedSecret" where
  "cleanSecret s = s\<lparr>s_Name := sanitize (s_Name s)\<rparr>"

definition cleanVault :: "sealedVault \<Rightarrow> sealedVault" where
  "cleanVault v = v\<lparr>v_RPID := sanitize (v_RPID v), v_Keys := map cleanKey (v_Keys v),
     v_Secrets := map cleanSecret (v_Secrets v)\<rparr>"

definition keyTarget :: "sealedKey \<Rightarrow> keyTarget" where
  "keyTarget k = \<lparr>tk_Slot = k_Slot k, tk_Label = k_Label k, tk_CredentialID = (k_CredentialID k, []),
     tk_Nonce = (k_Nonce k, []), tk_Wrapped = (k_Wrapped k, [])\<rparr>"

definition secretTarget :: "sealedSecret \<Rightarrow> secretTarget" where
  "secretTarget s = \<lparr>ts_Name = s_Name s, ts_Nonce = (s_Nonce s, []), ts_Ciphertext = (s_Ciphertext s, [])\<rparr>"

lemma targets [simp]: "keyOf (keyTarget k) = k" "secretOf (secretTarget s) = s"
  by (simp_all add: keyOf_def keyTarget_def secretOf_def secretTarget_def)

lemma decodeBytes_bytesJSON: "decodeBytes (clean (bytesJSON isNil b)) ([], []) = Some (b, [])"
  by (simp add: bytesJSON_def sanitize_EncodeToString DecodeString_EncodeToString)

lemma field_names:
  "sanitize ''slot'' = ''slot''" "sanitize ''label'' = ''label''" "sanitize ''nonce'' = ''nonce''"
  "sanitize ''credential_id'' = ''credential_id''" "sanitize ''wrapped'' = ''wrapped''"
  "sanitize ''name'' = ''name''" "sanitize ''ciphertext'' = ''ciphertext''"
  "sanitize ''format'' = ''format''" "sanitize ''rp_id'' = ''rp_id''" "sanitize ''salt'' = ''salt''"
  "sanitize ''user_verified'' = ''user_verified''"
  "sanitize ''entropy_verified'' = ''entropy_verified''"
  "sanitize ''keys'' = ''keys''" "sanitize ''secrets'' = ''secrets''"
  by (rule sanitize_valid, rule validUTF8_ascii, simp add: code_def)+

lemma decode_key:
  assumes "int64 (k_Slot k)"
  shows "decodeStruct keyMember (clean (keyJSON nils i k)) zeroKey = Some (keyTarget (cleanKey k))"
  by (simp add: keyJSON_def field_names keyMember_def names_field_def within_def code_def zeroKey_def
      ParseInt_decInt [OF assms] decodeBytes_bytesJSON keyTarget_def cleanKey_def)

lemma decode_secret:
  "decodeStruct secretMember (clean (secretJSON nils i s)) zeroSecret = Some (secretTarget (cleanSecret s))"
  by (simp add: secretJSON_def field_names secretMember_def names_field_def within_def code_def zeroSecret_def
      decodeBytes_bytesJSON secretTarget_def cleanSecret_def)

lemma decodeElems_map:
  "(\<And>x. x \<in> set xs \<Longrightarrow> f (g x) z = Some (h x)) \<Longrightarrow> decodeElems f z (map g xs) [] = Some (map h xs, [])"
  by (induction xs) auto

lemma decode_list:
  assumes "\<And>i x. x \<in> set xs \<Longrightarrow> f (clean (g i x)) z = Some (h x)"
  shows "decodeSlice f z (clean (listJSON isNil (map (\<lambda>(i, x). g i x) (enumerate n xs)))) ([], [])
    = Some (map h xs, [])"
proof -
  have "decodeElems f z (map (\<lambda>p. clean (g (fst p) (snd p))) (enumerate n xs)) []
      = Some (map (\<lambda>p. h (snd p)) (enumerate n xs), [])"
    using assms by (intro decodeElems_map) (auto simp: in_set_enumerate_eq)
  moreover have "map (\<lambda>p. h (snd p)) (enumerate n xs) = map h (map snd (enumerate n xs))"
    by (simp only: map_map comp_def)
  ultimately show ?thesis
    by (auto simp: listJSON_def decodeArray_def comp_def case_prod_unfold)
qed

definition int64Doc :: "sealedVault \<Rightarrow> bool" where
  "int64Doc v \<longleftrightarrow> int64 (v_Format v) \<and> (\<forall>k \<in> set (v_Keys v). int64 (k_Slot k))"

lemma decode_vault:
  assumes "int64Doc v"
  shows "map_option vaultOf (decodeStruct vaultMember (clean (vaultJSON nils v)) zeroVault)
    = Some (cleanVault v)"
proof -
  have f: "ParseInt (decInt (v_Format v)) = Some (v_Format v)"
    using assms by (simp add: int64Doc_def ParseInt_decInt)
  have ks: "decodeSlice (decodeStruct keyMember) zeroKey (clean (listJSON isNil
        (map (\<lambda>(i, k). keyJSON nils i k) (enumerate 0 (v_Keys v))))) ([], [])
      = Some (map (\<lambda>k. keyTarget (cleanKey k)) (v_Keys v), [])" for isNil
    using assms by (intro decode_list decode_key) (simp add: int64Doc_def)
  have ss: "decodeSlice (decodeStruct secretMember) zeroSecret (clean (listJSON isNil
        (map (\<lambda>(i, s). secretJSON nils i s) (enumerate 0 (v_Secrets v))))) ([], [])
      = Some (map (\<lambda>s. secretTarget (cleanSecret s)) (v_Secrets v), [])" for isNil
    by (intro decode_list decode_secret)
  show ?thesis
    by (simp add: vaultJSON_def field_names vaultMember_def names_field_def within_def code_def zeroVault_def
        f ks ss decodeBytes_bytesJSON vaultOf_def cleanVault_def comp_def)
qed

lemma integral_bytes [simp]: "integral (bytesJSON isNil b)"
  by (simp add: bytesJSON_def)

lemma depth_bytes [simp]: "depth (bytesJSON isNil b) = 0"
  by (simp add: bytesJSON_def)

lemma integral_vaultJSON: "integral (vaultJSON nils v)"
  by (auto simp: vaultJSON_def listJSON_def keyJSON_def secretJSON_def)

lemma depth_list:
  assumes "\<And>j. j \<in> set js \<Longrightarrow> depth j \<le> 1"
  shows "depth (listJSON isNil js) \<le> 2"
proof -
  have "foldr max (map depth js) 0 \<le> 1"
    using assms by (induction js) auto
  then show ?thesis by (simp add: listJSON_def)
qed

lemma depth_entries: "depth (keyJSON nils i k) = 1" "depth (secretJSON nils i s) = 1"
  by (simp_all add: keyJSON_def secretJSON_def)

theorem unmarshal_marshal:
  assumes "int64Doc v"
  shows "unmarshal (render (vaultJSON nils v)) = Some (cleanVault v)"
proof -
  have "depth (vaultJSON nils v) \<le> 3"
    by (auto simp: vaultJSON_def depth_entries intro!: depth_list)
  then have "depth (vaultJSON nils v) \<le> maxNestingDepth"
    by (simp add: maxNestingDepth_def)
  then have "parseJSON (render (vaultJSON nils v)) = Some (clean (vaultJSON nils v))"
    by (rule parse_render [OF integral_vaultJSON])
  then show ?thesis
    using decode_vault [OF assms] by (simp add: unmarshal_def)
qed

section \<open>What is read has the types of the code\<close>

text \<open>A document whose integers fit 64 bits and whose strings are valid UTF-8: these are the documents
  that storing does not change.\<close>

definition serializable :: "sealedVault \<Rightarrow> bool" where
  "serializable v \<longleftrightarrow> int64Doc v \<and> validUTF8 (v_RPID v)
     \<and> (\<forall>k \<in> set (v_Keys v). validUTF8 (k_Label k)) \<and> (\<forall>s \<in> set (v_Secrets v). validUTF8 (s_Name s))"

lemma cleanVault_id: "serializable v \<Longrightarrow> cleanVault v = v"
  by (simp add: serializable_def cleanVault_def cleanKey_def cleanSecret_def sanitize_valid map_idI)

lemma cleanVault_serializable: "int64Doc v \<Longrightarrow> serializable (cleanVault v)"
  by (auto simp: serializable_def int64Doc_def cleanVault_def cleanKey_def cleanSecret_def sanitize_is_valid)

definition keyTyped :: "keyTarget \<Rightarrow> bool" where
  "keyTyped d \<longleftrightarrow> int64 (tk_Slot d) \<and> validUTF8 (tk_Label d)"

definition secretTyped :: "secretTarget \<Rightarrow> bool" where
  "secretTyped d \<longleftrightarrow> validUTF8 (ts_Name d)"

definition sliceTyped :: "('a \<Rightarrow> bool) \<Rightarrow> 'a slice \<Rightarrow> bool" where
  "sliceTyped P s \<longleftrightarrow> list_all P (fst s) \<and> list_all P (snd s)"

definition vaultTyped :: "vaultTarget \<Rightarrow> bool" where
  "vaultTyped d \<longleftrightarrow> int64 (tv_Format d) \<and> validUTF8 (tv_RPID d)
     \<and> sliceTyped keyTyped (tv_Keys d) \<and> sliceTyped secretTyped (tv_Secrets d)"

lemma zero_typed: "keyTyped zeroKey" "secretTyped zeroSecret" "vaultTyped zeroVault"
  by (simp_all add: keyTyped_def secretTyped_def vaultTyped_def sliceTyped_def zeroKey_def zeroSecret_def
      zeroVault_def int64_def)

text \<open>A decoder that keeps a property of its target, on values with valid strings.\<close>

definition keeps :: "('a \<Rightarrow> bool) \<Rightarrow> 'a decoder \<Rightarrow> bool" where
  "keeps P f \<longleftrightarrow> (\<forall>j d d'. validStrings j \<longrightarrow> P d \<longrightarrow> f j d = Some d' \<longrightarrow> P d')"

lemma keepsD: "keeps P f \<Longrightarrow> validStrings j \<Longrightarrow> P d \<Longrightarrow> f j d = Some d' \<Longrightarrow> P d'"
  by (auto simp: keeps_def)

lemma keeps_scalars: "keeps int64 decodeInt" "keeps validUTF8 decodeString"
proof -
  have "decodeInt j d = Some d' \<Longrightarrow> int64 d \<Longrightarrow> int64 d'" for j d d'
    by (cases j) (auto simp: ParseInt_def Let_def split: if_splits)
  then show "keeps int64 decodeInt" by (auto simp: keeps_def)
  have "decodeString j d = Some d' \<Longrightarrow> validStrings j \<Longrightarrow> validUTF8 d \<Longrightarrow> validUTF8 d'" for j d d'
    by (cases j) auto
  then show "keeps validUTF8 decodeString" by (auto simp: keeps_def)
qed

lemma decodeElems_keeps:
  assumes "keeps P f" "P z"
  shows "decodeElems f z js old = Some (ys, st) \<Longrightarrow> list_all validStrings js \<Longrightarrow> list_all P old
    \<Longrightarrow> list_all P ys \<and> list_all P st"
proof (induction js arbitrary: old ys st)
  case (Cons j js)
  then obtain y ys' where y: "f j (case old of [] \<Rightarrow> z | x # xs \<Rightarrow> x) = Some y" "ys = y # ys'"
    and rest: "decodeElems f z js (tl old) = Some (ys', st)"
    by (auto split: option.splits)
  have "P (case old of [] \<Rightarrow> z | x # xs \<Rightarrow> x)" "list_all P (tl old)"
    using Cons.prems(3) assms(2) by (cases old; simp)+
  with keepsD [OF assms(1) _ _ y(1)] Cons.IH [OF rest] Cons.prems(2) show ?case by (simp add: y(2))
qed simp

lemma keeps_slice:
  assumes "keeps P f" "P z"
  shows "keeps (sliceTyped P) (decodeSlice f z)"
proof -
  have "sliceTyped P d'" if "decodeSlice f z j d = Some d'" "validStrings j" "sliceTyped P d" for j d d'
    using that decodeElems_keeps [OF assms, of _ "fst d @ snd d" "fst d'" "snd d'"]
    by (cases j) (auto simp: sliceTyped_def decodeArray_def split: if_splits)
  then show ?thesis by (auto simp: keeps_def)
qed

lemma keeps_struct:
  assumes "\<And>k j d d'. validStrings j \<Longrightarrow> P d \<Longrightarrow> f (k, j) d = Some d' \<Longrightarrow> P d'"
  shows "keeps P (decodeStruct f)"
proof -
  have ms: "decodeMembers f ms d = Some d' \<Longrightarrow> list_all (\<lambda>(k, j). validUTF8 k \<and> validStrings j) ms \<Longrightarrow> P d \<Longrightarrow> P d'"
    for ms d d'
    by (induction ms arbitrary: d) (auto simp: bind_eq_Some_conv dest: assms)
  have "P d'" if "decodeStruct f j d = Some d'" "validStrings j" "P d" for j d d'
    using that ms by (cases j) auto
  then show ?thesis by (auto simp: keeps_def)
qed

lemma keeps_key: "keeps keyTyped (decodeStruct keyMember)"
  by (rule keeps_struct)
    (auto simp: keyMember_def keyTyped_def split: if_splits
      dest: keepsD [OF keeps_scalars(1)] keepsD [OF keeps_scalars(2)])

lemma keeps_secret: "keeps secretTyped (decodeStruct secretMember)"
  by (rule keeps_struct)
    (auto simp: secretMember_def secretTyped_def split: if_splits dest: keepsD [OF keeps_scalars(2)])

lemmas kept_int = keepsD [OF keeps_scalars(1)]
lemmas kept_string = keepsD [OF keeps_scalars(2)]
lemmas kept_keys = keepsD [OF keeps_slice [OF keeps_key zero_typed(1)]]
lemmas kept_secrets = keepsD [OF keeps_slice [OF keeps_secret zero_typed(2)]]

text \<open>What a member does to each of the fields that carry a type.\<close>

lemma vaultMember_fields:
  assumes "vaultMember (k, j) d = Some d'"
  shows "tv_Format d' = tv_Format d \<or> decodeInt j (tv_Format d) = Some (tv_Format d')"
    and "tv_RPID d' = tv_RPID d \<or> decodeString j (tv_RPID d) = Some (tv_RPID d')"
    and "tv_Keys d' = tv_Keys d
      \<or> decodeSlice (decodeStruct keyMember) zeroKey j (tv_Keys d) = Some (tv_Keys d')"
    and "tv_Secrets d' = tv_Secrets d
      \<or> decodeSlice (decodeStruct secretMember) zeroSecret j (tv_Secrets d) = Some (tv_Secrets d')"
  using assms unfolding vaultMember_def prod.case by (simp split: if_splits; fastforce)+

lemma keeps_vault: "keeps vaultTyped (decodeStruct vaultMember)"
proof (rule keeps_struct)
  fix k j d d'
  assume j: "validStrings j" and d: "vaultTyped d" and m: "vaultMember (k, j) d = Some d'"
  have "int64 (tv_Format d')" "validUTF8 (tv_RPID d')"
    using vaultMember_fields(1,2) [OF m] kept_int [OF j] kept_string [OF j] d
    by (auto simp: vaultTyped_def)
  moreover have "sliceTyped keyTyped (tv_Keys d')"
    using vaultMember_fields(3) [OF m] kept_keys [OF j] d unfolding vaultTyped_def by metis
  moreover have "sliceTyped secretTyped (tv_Secrets d')"
    using vaultMember_fields(4) [OF m] kept_secrets [OF j] d unfolding vaultTyped_def by metis
  ultimately show "vaultTyped d'" by (simp add: vaultTyped_def)
qed

lemma vaultOf_serializable: "vaultTyped d \<Longrightarrow> serializable (vaultOf d)"
  by (auto simp: vaultTyped_def serializable_def int64Doc_def vaultOf_def keyOf_def secretOf_def
      sliceTyped_def list_all_iff keyTyped_def secretTyped_def)

theorem unmarshal_serializable: "unmarshal s = Some v \<Longrightarrow> serializable v"
  by (auto simp: unmarshal_def bind_eq_Some_conv
      intro!: vaultOf_serializable keepsD [OF keeps_vault parseJSON_valid zero_typed(3)])

section \<open>Storing and opening\<close>

lemma parseSealed_marshal:
  assumes "marshal nils v = Inr data" and "int64Doc v"
  shows "parseSealed data = validateSealed (cleanVault v)"
  using assms(1) unmarshal_marshal [OF assms(2), of nils]
  by (auto simp: marshal_def parseSealed_def)

end
