(* ===== verification/Storage.thy ===== *)
theory Storage
  imports Refine SealedJson
begin

text \<open>
  Which documents survive being stored. A document whose strings are valid UTF-8 and whose integers
  are in range is read back as it was written; creating a vault and every operation keep that, when
  the strings the caller passes are valid UTF-8.
\<close>

section \<open>Arguments\<close>

definition plainOpts :: "Options \<Rightarrow> bool" where
  "plainOpts opts \<longleftrightarrow> validUTF8 (o_RPID opts) \<and> validUTF8 (o_Label opts)"

fun plainOp :: "operation \<Rightarrow> bool" where
  "plainOp (OpPut name rd) = validUTF8 name"
| "plainOp (OpEnroll slot label) = (int64 slot \<and> validUTF8 label)"
| "plainOp op = True"

lemma valid_labels:
  "validUTF8 label \<Longrightarrow> validUTF8 (enrollLabel label)" "plainOpts opts \<Longrightarrow> validUTF8 (optsLabel opts)"
proof -
  have "validUTF8 DefaultLabel" by (rule validUTF8_ascii) (simp add: DefaultLabel_def code_def)
  then show "validUTF8 label \<Longrightarrow> validUTF8 (enrollLabel label)" "plainOpts opts \<Longrightarrow> validUTF8 (optsLabel opts)"
    by (simp_all add: enrollLabel_def optsLabel_def plainOpts_def)
qed

section \<open>Every operation keeps a document serializable\<close>

lemma Create_serializable:
  assumes "Create x auth opts w = (Inr s, w')" and "plainOpts opts"
  shows "serializable (ses_doc s)"
proof -
  obtain salt w1 cred derived w2 w3 dk w4 entry where
      wrapped: "wrapDataKey x (createdDoc opts salt (dr_UserVerified derived) True) dk
        (er_CredentialID cred) (dr_Secret derived) 0 (optsLabel opts) w4 = (Inr entry, w')"
    and enrolled: "enrollAndDerive x auth (createdDoc opts salt False False) opts UVDiscouraged w1
        = (Inr (cred, derived), w2)"
    and s: "s = \<lparr>ses_doc = (createdDoc opts salt (dr_UserVerified derived) True)\<lparr>v_Keys := [entry]\<rparr>,
           ses_opts = opts, ses_dataKey = Some dk\<rparr>"
    using Create_ok [OF assms(1)] by (elim exE conjE) (rule that)
  have "k_Slot entry = 0" "k_Label entry = optsLabel opts"
    using wrapped by (auto simp: wrapDataKey_ok)
  then show ?thesis
    using assms(2) valid_labels(2) [OF assms(2)]
    by (simp add: s serializable_def int64Doc_def int64_def createdDoc_def formatVersion_def plainOpts_def)
qed

lemma serializable_parts:
  "serializable d \<Longrightarrow> (\<And>k. k \<in> set ks \<Longrightarrow> k \<in> set (v_Keys d) \<or> int64 (k_Slot k) \<and> validUTF8 (k_Label k)) \<Longrightarrow>
     serializable (d\<lparr>v_Keys := ks\<rparr>)"
  "serializable d \<Longrightarrow> (\<And>e. e \<in> set es \<Longrightarrow> e \<in> set (v_Secrets d) \<or> validUTF8 (s_Name e)) \<Longrightarrow>
     serializable (d\<lparr>v_Secrets := es\<rparr>)"
  by (auto simp: serializable_def int64Doc_def)

lemma deleteSecretIn_set: "deleteSecretIn ss name = Some ss' \<Longrightarrow> set ss' \<subseteq> set ss"
  by (induction ss arbitrary: ss') (auto split: if_splits)

lemma runOp_success_serializable:
  assumes "runOp x auth op (s, w) = (Inr (), (s', w'))" "plainOp op" "serializable (ses_doc s)"
  shows "serializable (ses_doc s')"
proof (cases op)
  case (OpPut name rd)
  with assms obtain e where "s_Name e = name"
    and s': "ses_doc s' = (ses_doc s)\<lparr>v_Secrets := putSecretIn (v_Secrets (ses_doc s)) name e\<rparr>"
    by (auto simp: Put_ok_iff sealSecret_ok)
  with OpPut assms(2,3) putSecretIn_set [of "v_Secrets (ses_doc s)" name e] show ?thesis
    unfolding s' by (intro serializable_parts(2)) auto
next
  case (OpDelete name)
  with assms obtain ss where del: "deleteSecretIn (v_Secrets (ses_doc s)) name = Some ss"
    and s': "ses_doc s' = (ses_doc s)\<lparr>v_Secrets := ss\<rparr>"
    by (auto simp: Delete_ok_iff)
  with deleteSecretIn_set [OF del] assms(3) show ?thesis
    unfolding s' by (intro serializable_parts(2)) auto
next
  case (OpEnroll slot label)
  with assms(1) have "EnrollKey x auth slot label (s, w) = (Inr (), (s', w'))" by simp
  then obtain dk cred derived w1 w2 entry where
      enrolled: "enrollAndDerive x auth (ses_doc s) (ses_opts s) (uvRequirement (ses_doc s)) w
        = (Inr (cred, derived), w1)"
    and uv: "dr_UserVerified derived = v_UserVerified (ses_doc s)"
    and wrapped: "wrapDataKey x (ses_doc s) dk (er_CredentialID cred) (dr_Secret derived) slot (enrollLabel label) w2
        = (Inr entry, w')"
    and s': "ses_doc s' = (ses_doc s)\<lparr>v_Keys := v_Keys (ses_doc s) @ [entry]\<rparr>"
    using EnrollKey_ok [of x auth slot label "(s, w)" "()" "(s', w')"] by auto
  from wrapped have "k_Slot entry = slot" "k_Label entry = enrollLabel label"
    by (auto simp: wrapDataKey_ok)
  with OpEnroll assms(2,3) valid_labels(1) show ?thesis
    unfolding s' by (intro serializable_parts(1)) auto
next
  case (OpRemove slot)
  with assms show ?thesis
    by (auto simp: RemoveKey_ok_iff removeKey_Inr_iff intro!: serializable_parts(1))
next
  case (OpForceRemove slot)
  with assms show ?thesis
    by (auto simp: ForceRemoveKey_ok_iff removeKey_Inr_iff intro!: serializable_parts(1))
qed

lemma runOp_serializable:
  assumes "runOp x auth op (s, w) = (r, (s', w'))" "plainOp op" "serializable (ses_doc s)"
  shows "serializable (ses_doc s')"
proof (cases r)
  case (Inl e)
  then have "s' = s" using admin.error_keeps [of "(x, auth, op)" s w e s' w'] assms(1) by simp
  with assms(3) show ?thesis by simp
next
  case (Inr u)
  with assms show ?thesis by (auto intro: runOp_success_serializable)
qed

lemma runOps_serializable:
  "runOps (runOp x auth) ops (s, w) = (r, (s', w')) \<Longrightarrow> list_all plainOp ops \<Longrightarrow> serializable (ses_doc s)
    \<Longrightarrow> serializable (ses_doc s')"
proof (induction ops arbitrary: s w)
  case (Cons op ops)
  obtain r1 s1 w1 where first: "runOp x auth op (s, w) = (r1, (s1, w1))" by (metis prod.collapse)
  with Cons.prems(2,3) have s1: "serializable (ses_doc s1)"
    by (auto intro: runOp_serializable)
  show ?case
  proof (cases r1)
    case (Inl e)
    with first Cons.prems(1) s1 show ?thesis by (simp add: bindE_def)
  next
    case (Inr u)
    with first Cons.prems s1 Cons.IH [of s1 w1] show ?thesis by (simp add: bindE_def)
  qed
qed (auto simp: results)

section \<open>Documents that come back\<close>

lemma stored_reopens:
  assumes "marshal nils d = Inr data" "serializable d" "wfVault d"
  shows "parseSealed data = Inr d"
proof -
  have "parseSealed data = validateSealed (cleanVault d)"
    using assms(2) by (intro parseSealed_marshal [OF assms(1)]) (simp add: serializable_def)
  with assms(2,3) show ?thesis by (simp add: cleanVault_id validateSealed_Inr_iff)
qed

lemma parseSealed_ok:
  assumes "parseSealed data = Inr d"
  shows "serializable d" "wfVault d"
  using assms by (auto simp: parseSealed_def validateSealed_Inr_iff split: option.splits
      dest: unmarshal_serializable)

lemma parseSealed_fails:
  "parseSealed data = Inl e \<Longrightarrow> errorsIs e ErrWrongFormat"
  by (auto simp: parseSealed_def validateSealed_error split: option.splits)

section \<open>A vault outlives its process\<close>

lemma Create_RPID: "Create x auth opts w = (Inr s, w') \<Longrightarrow> v_RPID (ses_doc s) = o_RPID opts"
  by (auto dest!: Create_ok)

lemma vault_persists:
  assumes "honest x pf creator" "honest x pf operator" "honest x pf opener"
    and "plainOpts opts" "list_all plainOp ops"
    and "Create x creator opts w0 = (Inr s0, w1)"
    and "runOps (runOp x operator) ops (s0, w2) = (Inr (), (s, w3))"
    and "session_Sealed nils s = Inr data" and "o_RPID opts' = [] \<or> o_RPID opts' = o_RPID opts"
    and "callDerive opener (unlockRequest (ses_doc s)) w4 = (Inr derived, w5)"
    and "dr_UserPresent derived" "dr_UserVerified derived = v_UserVerified (ses_doc s)"
  shows "\<exists>v s'. OpenWith data opts' = Inr v \<and> unlock x v opener w4 = (Inr s', w5)
    \<and> ReadString x n (s', w6) =
        (case absOps ops (\<lambda>_. None) n of Some pt \<Rightarrow> Inr (string_of_bytes pt)
         | None \<Rightarrow> Inl (wrap ''%w: %q'' (Sentinel ErrNoSuchSecret)), (s', w6))"
proof -
  obtain dk where dk: "ses_dataKey s0 = Some dk" "coherent x pf dk (\<lambda>_. None) (ses_doc s0)"
    using Create_coherent [OF assms(1,6)] by blast
  have co: "coherent x pf dk (absOps ops (\<lambda>_. None)) (ses_doc s)"
    using runOps_coherent [OF assms(2,7) dk(2,1)] by blast
  have "v_RPID (ses_doc s) = o_RPID opts"
    using run.runOps_keeps_frame [OF assms(7)] Create_RPID [OF assms(6)] by (simp add: sameFrame_def)
  moreover have "serializable (ses_doc s)"
    using runOps_serializable [OF assms(7,5)] Create_serializable [OF assms(6,4)] by blast
  then have "parseSealed data = Inr (ses_doc s)"
    using assms(8) coherentD(2) [OF co] by (intro stored_reopens) (simp_all add: session_Sealed_def)
  ultimately obtain v where v: "OpenWith data opts' = Inr v" "vt_doc v = ses_doc s"
    using assms(9) by (auto simp: OpenWith_def openDoc_def)
  obtain s' where s': "unlock x v opener w4 = (Inr s', w5)" "ses_dataKey s' = Some dk" "ses_doc s' = ses_doc s"
    using unlock_live [OF assms(3), of dk _ v] co assms(10-12) unfolding v(2) by blast
  have "ReadString x n (s', w6) =
        (case absOps ops (\<lambda>_. None) n of Some pt \<Rightarrow> Inr (string_of_bytes pt)
         | None \<Rightarrow> Inl (wrap ''%w: %q'' (Sentinel ErrNoSuchSecret)), (s', w6))"
    using coherentD(5) [OF co] s'(2,3) by (intro ReadString_coherent [where dk = dk]) simp_all
  with v(1) s'(1) show ?thesis by blast
qed

text \<open>
  The port, as a contract: devices that, where \<open>good\<close> holds of them, answer from the allow-list and
  derive a fixed function. Whatever meets it opens the vaults that were made with other such devices.
\<close>

locale authenticator_port =
  fixes good :: "'a \<Rightarrow> bool"
    and device :: "'a \<Rightarrow> 'd Authenticator"
    and secretOf :: "'a \<Rightarrow> bytes \<Rightarrow> bytes \<Rightarrow> bool \<Rightarrow> bytes"
  assumes answers: "good a \<Longrightarrow> answers_from_allow_list (device a)"
    and derives: "good a \<Longrightarrow> derives_by (secretOf a) (device a)"
begin

lemma honest_device: "good a \<Longrightarrow> aead_roundtrip x \<Longrightarrow> honest x (secretOf a) (device a)"
  by (simp add: honest_def answers derives)

lemma device_unlocks:
  assumes "good a" "aead_roundtrip x" "coherent x (secretOf a) dk A (vt_doc v)"
    and "callDerive (device a) (unlockRequest (vt_doc v)) w = (Inr derived, w')"
    and "dr_UserPresent derived" "dr_UserVerified derived = v_UserVerified (vt_doc v)"
  shows "\<exists>s. unlock x v (device a) w = (Inr s, w') \<and> ses_dataKey s = Some dk \<and> ses_doc s = vt_doc v"
  using unlock_live [OF honest_device [OF assms(1,2)] assms(3-6)] by blast

lemma device_reopens:
  assumes "good a" "honest x (secretOf a) creator" "honest x (secretOf a) operator"
    and "plainOpts opts" "list_all plainOp ops"
    and "Create x creator opts w0 = (Inr s0, w1)"
    and "runOps (runOp x operator) ops (s0, w2) = (Inr (), (s, w3))"
    and "session_Sealed nils s = Inr data" and "o_RPID opts' = [] \<or> o_RPID opts' = o_RPID opts"
    and "callDerive (device a) (unlockRequest (ses_doc s)) w4 = (Inr derived, w5)"
    and "dr_UserPresent derived" "dr_UserVerified derived = v_UserVerified (ses_doc s)"
  shows "\<exists>v s'. OpenWith data opts' = Inr v \<and> unlock x v (device a) w4 = (Inr s', w5)
    \<and> ReadString x n (s', w6) =
        (case absOps ops (\<lambda>_. None) n of Some pt \<Rightarrow> Inr (string_of_bytes pt)
         | None \<Rightarrow> Inl (wrap ''%w: %q'' (Sentinel ErrNoSuchSecret)), (s', w6))"
proof -
  have "aead_roundtrip x" using assms(2) by (simp add: honest_def)
  then show ?thesis by (rule vault_persists [OF assms(2,3) honest_device [OF assms(1)] assms(4-12)])
qed

end

end
