(* ===== verification/StorageGuarantees.thy ===== *)
theory StorageGuarantees
  imports VaultGuarantees Storage
begin

text \<open>
  What holds of the serialized vault: it is read back as it was written, what is read has the types of
  the code, a vault outlives the process that made it, and what happens to strings that are not UTF-8.
  Each theorem with hypotheses has an instance on the concrete parameters of \<open>Samples\<close>.
\<close>

section \<open>A vault outlives its process\<close>

text \<open>C1: end to end. A vault is created on one key, changed by any successful run of operations with
  any key, and serialized. Opened later, from the bytes alone and with options that name no other RP
  ID, it is unlocked by any enrolled key that answers with a touch and the recorded user verification,
  and every name then reads what the run of map updates and deletions holds for it. The condition on
  the caller: the RP ID, the labels and the names passed in are valid UTF-8 (\<open>plainOpts\<close>, \<open>plainOp\<close>) and
  the slots are in the range of an \<open>int64\<close>. Without it the statement fails: \<open>invalid_name_undecryptable\<close>
  and \<open>colliding_names_lose_vault\<close> show how a name that is not UTF-8 loses its value or the vault.\<close>

theorem created_vault_persists:
  assumes "honest x pf creator" "honest x pf operator" "honest x pf opener"
    and "plainOpts opts" "list_all plainOp ops"
    and "Create x creator opts w0 = (Inr s0, w1)"
    and "runOps (runOp x operator) ops (s0, w2) = (Inr (), (s, w3))"
    and "session_Sealed nils s = Inr data" and "o_RPID opts' = [] \<or> o_RPID opts' = o_RPID opts"
    and "callDerive opener (unlockRequest (ses_doc s)) w4 = (Inr derived, w5)"
    and "dr_UserPresent derived" "dr_UserVerified derived = v_UserVerified (ses_doc s)"
  shows "\<exists>v s'. OpenWith data opts' = Inr v \<and> unlock x v opener w4 = (Inr s', w5)
    \<and> ReadString x n (s', w6) =
        (case absOps ops (\<lambda>_. None) n of Some pt \<Rightarrow> Inr (string_of_bytes pt)
         | None \<Rightarrow> Inl (wrap ''%w: %q'' (Sentinel ErrNoSuchSecret)), (s', w6))"
  using assms by (rule vault_persists)

lemma toyOps_plain: "list_all plainOp toyOps"
  by (simp add: toyOps_def validUTF8_ascii code_def int64_def)

lemma toyOpts_plain: "plainOpts toyOpts"
  by (simp add: plainOpts_def toyOpts_def validUTF8_ascii code_def)

text \<open>Created on key 1, changed with key 2, which becomes a backup, stored, and opened with the backup.\<close>

theorem created_vault_persists_witness:
  "\<exists>data v s' w. OpenWith data zeroOptions = Inr v \<and> unlock toyX v (toyKey 2) (toyAt 60) = (Inr s', w)
     \<and> ReadString toyX ''a'' (s', toyAt 9) = (Inr (string_of_bytes [1, 2]), (s', toyAt 9))"
proof -
  obtain w1 where created: "Create toyX (toyKey 1) toyOpts (toyWorldTo 100) = (Inr (toySession 1), w1)"
    using toy_create by blast
  obtain s w2 where run: "runOps (runOp toyX (toyKey 2)) toyOps (toySession 1, toyAt 4) = (Inr (), (s, w2))"
    and ids: "credentialIDs (ses_doc s) = [[1], [2]]" "v_UserVerified (ses_doc s) = False"
    using toy_ops_run by blast
  obtain data where data: "session_Sealed (\<lambda>_. True) s = Inr data" by (simp add: session_Sealed_def marshal_def)
  obtain derived w3 where touch: "callDerive (toyKey 2) (unlockRequest (ses_doc s)) (toyAt 60) = (Inr derived, w3)"
      "dr_UserPresent derived" "dr_UserVerified derived = v_UserVerified (ses_doc s)"
    using ids by (simp add: callDerive_toy toyDerive_def unlockRequest_def uvRequirement_def)
  have read: "absOps toyOps (\<lambda>_. None) ''a'' = Some [1, 2]" by (simp add: absOps_def toyOps_def)
  have "o_RPID zeroOptions = [] \<or> o_RPID zeroOptions = o_RPID toyOpts" by (simp add: zeroOptions_def)
  from created_vault_persists [OF toyKey_honest toyKey_honest toyKey_honest toyOpts_plain toyOps_plain
      created run data this touch, of "''a''" "toyAt 9"]
  show ?thesis unfolding read by auto
qed

section \<open>Storing is lossless\<close>

text \<open>C25: what storing does to a well-formed document. The bytes are read back as the same document with
  every invalid byte of its strings replaced, which is the same document when its strings are valid
  UTF-8; and they are accepted if and only if the names of its secrets are still different. Which of
  its empty slices are nil makes no difference.\<close>

theorem storing_roundtrip:
  assumes "wfVault v" "int64Doc v" and "marshal nils v = Inr data"
  shows "(if distinct (map (\<lambda>s. sanitize (s_Name s)) (v_Secrets v))
      then parseSealed data = Inr (cleanVault v) else failsWith (parseSealed data) ErrWrongFormat)
    \<and> (serializable v \<longrightarrow> parseSealed data = Inr v)"
proof -
  have parsed: "parseSealed data = validateSealed (cleanVault v)"
    by (rule parseSealed_marshal [OF assms(3,2)])
  have "map k_Slot (map cleanKey ks) = map k_Slot ks" "map k_CredentialID (map cleanKey ks) = map k_CredentialID ks" for ks
    by (simp_all add: cleanKey_def)
  then have "wfKeys (map cleanKey (v_Keys v))"
    using assms(1) unfolding wfVault_def wfKeys_def by (simp add: cleanKey_def del: map_map)
  then have wf: "wfVault (cleanVault v) \<longleftrightarrow> distinct (map (\<lambda>s. sanitize (s_Name s)) (v_Secrets v))"
    using assms(1) by (auto simp: wfVault_def cleanVault_def wfSecrets_def cleanSecret_def comp_def)
  show ?thesis
  proof (cases "wfVault (cleanVault v)")
    case True
    then have "parseSealed data = Inr (cleanVault v)" by (simp add: parsed validateSealed_Inr_iff)
    with True wf cleanVault_id [of v] show ?thesis by simp
  next
    case False
    then obtain e where e: "parseSealed data = Inl e"
      by (cases "parseSealed data") (auto simp: parsed validateSealed_Inr_iff)
    from False assms(1) cleanVault_id [of v] have "\<not> serializable v" by auto
    with False wf e parseSealed_fails [OF e] show ?thesis by simp
  qed
qed

lemma toy_serializable: "serializable (ses_doc (toySession i))" "wfVault (ses_doc (toySession i))"
proof -
  obtain w where created: "Create toyX (toyKey i) toyOpts (toyWorldTo 100) = (Inr (toySession i), w)"
    using toy_create by blast
  show "serializable (ses_doc (toySession i))" by (rule Create_serializable [OF created toyOpts_plain])
  show "wfVault (ses_doc (toySession i))" by (rule Create_wf [OF created])
qed

theorem storing_roundtrip_witness:
  "parseSealed (bytes_of_string (render (vaultJSON (\<lambda>_. True) (ses_doc (toySession 1))))) = Inr (ses_doc (toySession 1))"
proof -
  have "int64Doc (ses_doc (toySession 1))" using toy_serializable(1) [of 1] unfolding serializable_def by blast
  from storing_roundtrip [OF toy_serializable(2) this, of "\<lambda>_. True"] toy_serializable(1) [of 1] show ?thesis
    unfolding marshal_def by blast
qed

section \<open>What is read is typed\<close>

text \<open>C26: reading a file is all or nothing, and what it gives has the types of the code. Any bytes are
  either refused with \<open>ErrWrongFormat\<close> or read as a document that is well formed, whose integers fit an
  \<open>int\<close> and whose strings are valid UTF-8; and that document is stored and read back unchanged.\<close>

theorem reading_typed:
  "case parseSealed data of
     Inl e \<Rightarrow> errorsIs e ErrWrongFormat
   | Inr v \<Rightarrow> wfVault v \<and> serializable v \<and> bindR (marshal nils v) parseSealed = Inr v"
proof (cases "parseSealed data")
  case (Inl e)
  with parseSealed_fails show ?thesis by simp
next
  case (Inr v)
  have "marshal nils v = Inr (bytes_of_string (render (vaultJSON nils v)))" by (simp add: marshal_def)
  with Inr parseSealed_ok [OF Inr] stored_reopens show ?thesis by fastforce
qed

section \<open>Strings that are not UTF-8\<close>

text \<open>
  \<open>Put\<close> takes any non-empty name, and JSON carries only Unicode: \<open>json.Marshal\<close> replaces what is not
  valid UTF-8. Two consequences follow.
\<close>

lemma put_names:
  assumes "Put x name rd (s, w) = (Inr (), (s', w'))"
  shows "ses_dataKey s' = ses_dataKey s" "set (map s_Name (v_Secrets (ses_doc s'))) = insert name (set (map s_Name (v_Secrets (ses_doc s))))"
    "v_Keys (ses_doc s') = v_Keys (ses_doc s)" "v_Format (ses_doc s') = v_Format (ses_doc s)"
proof -
  obtain e where "s_Name e = name" and s': "ses_dataKey s' = ses_dataKey s"
    "ses_doc s' = (ses_doc s)\<lparr>v_Secrets := putSecretIn (v_Secrets (ses_doc s)) name e\<rparr>"
    using assms by (auto simp: Put_ok_iff sealSecret_ok)
  have "set (map s_Name (putSecretIn ss name e)) = insert name (set (map s_Name ss))" for ss
    using \<open>s_Name e = name\<close> by (induction ss) auto
  with s' show "ses_dataKey s' = ses_dataKey s"
    "set (map s_Name (v_Secrets (ses_doc s'))) = insert name (set (map s_Name (v_Secrets (ses_doc s))))"
    "v_Keys (ses_doc s') = v_Keys (ses_doc s)" "v_Format (ses_doc s') = v_Format (ses_doc s)"
    by simp_all
qed

lemma put_int64: "Put x name rd (s, w) = (Inr (), (s', w')) \<Longrightarrow> int64Doc (ses_doc s) \<Longrightarrow> int64Doc (ses_doc s')"
  by (simp add: int64Doc_def put_names)

text \<open>C40: two names that are different but become equal when their invalid bytes are replaced can both be
  put, and the session reads and lists both; but what \<open>Sealed\<close> then returns, without an error, is
  refused by \<open>Open\<close> and \<open>OpenWith\<close> with \<open>ErrWrongFormat\<close>, and with it every secret of the vault.\<close>

theorem colliding_names_lose_vault:
  assumes "wfVault (ses_doc s)" "int64Doc (ses_doc s)"
    and "n1 \<noteq> n2" "sanitize n1 = sanitize n2"
    and "Put x n1 rd1 (s, w) = (Inr (), (s1, w1))" and "Put x n2 rd2 (s1, w1) = (Inr (), (s2, w2))"
    and "session_Sealed nils s2 = Inr data"
  shows "{n1, n2} \<subseteq> set (session_Names s2) \<and> failsWith (OpenWith data opts) ErrWrongFormat
    \<and> failsWith (OpenVault data) ErrWrongFormat"
proof -
  let ?d = "ses_doc s2"
  have names: "{n1, n2} \<subseteq> set (map s_Name (v_Secrets ?d))"
    using put_names(2) [OF assms(5)] put_names(2) [OF assms(6)] by auto
  then obtain e1 e2 where e: "e1 \<in> set (v_Secrets ?d)" "e2 \<in> set (v_Secrets ?d)" "s_Name e1 = n1" "s_Name e2 = n2"
    by auto
  have "\<not> distinct (map (\<lambda>s. sanitize (s_Name s)) (v_Secrets ?d))"
  proof
    assume "distinct (map (\<lambda>s. sanitize (s_Name s)) (v_Secrets ?d))"
    then have "e1 = e2" using e assms(4) by (simp add: distinct_map inj_on_def)
    with e assms(3) show False by simp
  qed
  then have "\<not> wfVault (cleanVault ?d)"
    by (simp add: wfVault_def wfSecrets_def cleanVault_def cleanSecret_def comp_def)
  moreover have "int64Doc ?d" using assms(2,5,6) put_int64 by blast
  then have "parseSealed data = validateSealed (cleanVault ?d)"
    using assms(7) by (intro parseSealed_marshal) (simp_all add: session_Sealed_def)
  ultimately have "parseSealed data \<noteq> Inr v" for v
    by (simp add: validateSealed_Inr_iff)
  then obtain err where "parseSealed data = Inl err" by (metis sum.exhaust)
  with parseSealed_fails [OF this] names show ?thesis
    by (auto simp: OpenVault_def OpenWith_def session_Names_def names_def)
qed

lemma toy_put_any:
  assumes "n \<noteq> []" "ses_dataKey s = Some toyDataKey" "d < 100"
  shows "\<exists>s'. Put toyX n (Some (Inr b)) (s, toyAt d) = (Inr (), (s', toyAt (Suc d))) \<and> ses_dataKey s' = Some toyDataKey"
  using assms by (simp add: Put_def keyM_def docM_def onWorld_def setDocM_def sealSecret_def toyRun toyDataKey_def)

theorem colliding_names_lose_vault_witness:
  "\<exists>s data. {[CHR 0xFE], [CHR 0xFF]} \<subseteq> set (session_Names s) \<and> session_Sealed (\<lambda>_. True) s = Inr data
     \<and> failsWith (OpenVault data) ErrWrongFormat"
proof -
  obtain s1 where s1: "Put toyX [CHR 0xFE] (Some (Inr [1])) (toySession 1, toyAt 4) = (Inr (), (s1, toyAt 5))"
    "ses_dataKey s1 = Some toyDataKey"
    using toy_put_any [of "[CHR 0xFE]" "toySession 1" 4] by auto
  obtain s2 where s2: "Put toyX [CHR 0xFF] (Some (Inr [2])) (s1, toyAt 5) = (Inr (), (s2, toyAt 6))"
    using toy_put_any [of "[CHR 0xFF]" s1 5] s1(2) by auto
  obtain data where data: "session_Sealed (\<lambda>_. True) s2 = Inr data" by (simp add: session_Sealed_def marshal_def)
  have "int64Doc (ses_doc (toySession 1))" using toy_serializable(1) [of 1] unfolding serializable_def by blast
  moreover have "sanitize [CHR 0xFE] = sanitize [CHR 0xFF]"
    by (simp add: sanitize.simps(2) utf8Len.simps(2) within_def code_def)
  ultimately show ?thesis
    using colliding_names_lose_vault [OF toy_serializable(2) _ _ _ s1(1) s2 data] data by blast
qed

text \<open>A single name that is not UTF-8 comes back as another name, and its value is sealed to the old one:
  the data key of the vault does not open it after the vault was stored and read.\<close>

lemma findSecretIn_clean:
  "distinct (map (\<lambda>s. sanitize (s_Name s)) ss) \<Longrightarrow> findSecretIn ss n = Some e
    \<Longrightarrow> findSecretIn (map cleanSecret ss) (sanitize n) = Some (cleanSecret e)"
proof (induction ss)
  case (Cons s ss)
  show ?case
  proof (cases "s_Name s = n")
    case True
    with Cons.prems show ?thesis by (auto simp: cleanSecret_def)
  next
    case False
    with Cons.prems(2) have e: "findSecretIn ss n = Some e" by simp
    then have "e \<in> set ss" "s_Name e = n" by (induction ss) (auto split: if_splits)
    with Cons.prems(1) have "sanitize (s_Name s) \<noteq> sanitize n" by force
    with Cons.IH [OF _ e] Cons.prems(1) show ?thesis by (simp add: cleanSecret_def)
  qed
qed simp

lemma invalid_name_undecryptable:
  assumes "aead_binding x" "int64Doc (ses_doc s)" and "\<not> validUTF8 name"
    and "Put x name rd (s, w) = (Inr (), (s1, w1))"
    and "session_Sealed nils s1 = Inr data" "parseSealed data = Inr d"
    and "fits (ses_doc s)" "fits d" "length name < 2 ^ 32" "length (sanitize name) < 2 ^ 32"
  shows "\<exists>e dk. findSecret d (sanitize name) = Some e \<and> findSecret d name = None
    \<and> ses_dataKey s = Some dk \<and> \<not> is_ok (openSecret x d dk e)"
proof -
  obtain dk pt entry where key: "ses_dataKey s = Some dk"
    and sealed: "sealSecret x (ses_doc s) dk name pt w = (Inr entry, w1)"
    and s1: "ses_doc s1 = (ses_doc s)\<lparr>v_Secrets := putSecretIn (v_Secrets (ses_doc s)) name entry\<rparr>"
    using assms(4) by (auto simp: Put_ok_iff)
  have name: "s_Name entry = name" using sealed by (simp add: sealSecret_ok)
  have "parseSealed data = validateSealed (cleanVault (ses_doc s1))"
    using assms(5) put_int64 [OF assms(4,2)] by (intro parseSealed_marshal) (simp_all add: session_Sealed_def)
  with assms(6) have d: "d = cleanVault (ses_doc s1)" "wfVault d" by (simp_all add: validateSealed_Inr_iff)
  then have "distinct (map (\<lambda>s. sanitize (s_Name s)) (v_Secrets (ses_doc s1)))"
    by (simp add: wfVault_def wfSecrets_def cleanVault_def cleanSecret_def comp_def)
  moreover have "findSecretIn (v_Secrets (ses_doc s1)) name = Some entry"
    using name by (simp add: s1 findSecretIn_put)
  ultimately have found: "findSecret d (sanitize name) = Some (cleanSecret entry)"
    unfolding findSecret_def d(1) by (simp add: cleanVault_def findSecretIn_clean)
  have other: "sanitize name \<noteq> name" using assms(3) sanitize_is_valid [of name] by auto
  have "findSecretIn (map cleanSecret ss) name = None" for ss
    using assms(3) sanitize_is_valid by (induction ss) (auto simp: cleanSecret_def)
  then have gone: "findSecret d name = None"
    unfolding findSecret_def d(1) by (simp add: cleanVault_def)
  have "\<not> is_ok (openSecret x d dk (cleanSecret entry))"
  proof
    assume "is_ok (openSecret x d dk (cleanSecret entry))"
    then obtain q where "openSecret x d dk (cleanSecret entry) = Inr q"
      by (cases "openSecret x d dk (cleanSecret entry)") auto
    then have opened: "openAEAD x dk (s_Nonce entry) (s_Ciphertext entry) (secretAAD d (sanitize name)) = Inr q"
      using name by (simp add: openSecret_Inr_iff cleanSecret_def)
    have "seal x dk pt (secretAAD (ses_doc s) name) w = (Inr (s_Nonce entry, s_Ciphertext entry), w1)"
      using sealed by (simp add: sealSecret_ok)
    from seal_bound [OF assms(1) this opened] other assms(7-10) show False
      by (auto simp: secretAAD_eq_iff short_def)
  qed
  with found gone key show ?thesis by blast
qed

end
