(* ===== verification/Lifecycle.thy ===== *)
theory Lifecycle
  imports Storage
begin

text \<open>
  The program as its caller sees it over time. A \<open>*vault\<close> and the sessions unlocked from it hold the
  same \<open>*sealedVault\<close>: a change made through one session is seen by all of them. So the state is an
  explicit store of documents, and vaults and sessions refer to a document by its address. A step is
  one call of the API, from its start to its end. For calls of one session this is what the code does:
  each takes the mutex of its session (\<open>Concurrency\<close> shows that it may be seen so). Calls of different
  sessions of one vault share the document and no mutex; that they are whole steps here is a condition on
  callers, the one the comment of \<open>Admin\<close> in \<open>vault.go\<close> states (serialize administration), and
  \<open>Concurrency\<close> and \<open>AdminRaces\<close> show what the code does when it is not kept.
\<close>

section \<open>The state and the steps\<close>

type_synonym handle = "nat \<times> Options \<times> bytes option"

record 'd system =
  y_docs :: "sealedVault list"
  y_vaults :: "(nat \<times> Options) list"
  y_sessions :: "handle list"
  y_stored :: "bytes list"
  y_world :: "'d world"

text \<open>The session a handle stands for, with the document it points to read from the store.\<close>

definition deref :: "sealedVault list \<Rightarrow> handle \<Rightarrow> session" where
  "deref docs h = (case h of (a, opts, key) \<Rightarrow>
     \<lparr>ses_doc = docs ! a, ses_opts = opts, ses_dataKey = key\<rparr>)"

definition afterCreate :: "'d system \<Rightarrow> session \<Rightarrow> 'd world \<Rightarrow> 'd system" where
  "afterCreate y s w = y\<lparr>y_docs := y_docs y @ [ses_doc s],
     y_sessions := y_sessions y @ [(length (y_docs y), ses_opts s, ses_dataKey s)], y_world := w\<rparr>"

definition afterOpen :: "'d system \<Rightarrow> vault \<Rightarrow> 'd system" where
  "afterOpen y v = y\<lparr>y_docs := y_docs y @ [vt_doc v],
     y_vaults := y_vaults y @ [(length (y_docs y), vt_opts v)]\<rparr>"

definition afterUnlock :: "'d system \<Rightarrow> nat \<Rightarrow> session \<Rightarrow> 'd world \<Rightarrow> 'd system" where
  "afterUnlock y a s w = y\<lparr>y_sessions := y_sessions y @ [(a, ses_opts s, ses_dataKey s)], y_world := w\<rparr>"

text \<open>A method of session \<open>j\<close> writes its document back to the shared address.\<close>

definition afterMethod :: "'d system \<Rightarrow> nat \<Rightarrow> nat \<Rightarrow> session \<Rightarrow> 'd world \<Rightarrow> 'd system" where
  "afterMethod y j a s w = y\<lparr>y_docs := (y_docs y)[a := ses_doc s],
     y_sessions := (y_sessions y)[j := (a, ses_opts s, ses_dataKey s)], y_world := w\<rparr>"

text \<open>
  \<open>ok\<close> says which authenticators are used, \<open>plain\<close> whether all strings callers pass are valid UTF-8
  and all slots in the range of an \<open>int64\<close>, and \<open>given\<close> which files are handed to \<open>OpenWith\<close> besides those that \<open>Sealed\<close> returned before. How
  a file writes its nil slices is left open at every step.
\<close>

inductive sysStep ::
  "'z x509_scheme \<Rightarrow> ('d Authenticator \<Rightarrow> bool) \<Rightarrow> bool \<Rightarrow> (bytes \<Rightarrow> bool)
    \<Rightarrow> 'd system \<Rightarrow> 'd system \<Rightarrow> bool"
  for x ok plain given where
  create: "ok auth \<Longrightarrow> (plain \<Longrightarrow> plainOpts opts) \<Longrightarrow> Create x auth opts (y_world y) = (Inr s, w) \<Longrightarrow>
    sysStep x ok plain given y (afterCreate y s w)"
| createFails: "Create x auth opts (y_world y) = (Inl e, w) \<Longrightarrow> sysStep x ok plain given y (y\<lparr>y_world := w\<rparr>)"
| opens: "data \<in> set (y_stored y) \<or> given data \<Longrightarrow> OpenWith data opts = Inr v \<Longrightarrow>
    sysStep x ok plain given y (afterOpen y v)"
| unlocks: "ok auth \<Longrightarrow> i < length (y_vaults y) \<Longrightarrow> y_vaults y ! i = (a, opts) \<Longrightarrow>
    unlock x \<lparr>vt_doc = y_docs y ! a, vt_opts = opts\<rparr> auth (y_world y) = (Inr s, w) \<Longrightarrow>
    sysStep x ok plain given y (afterUnlock y a s w)"
| unlockFails: "unlock x v auth (y_world y) = (Inl e, w) \<Longrightarrow> sysStep x ok plain given y (y\<lparr>y_world := w\<rparr>)"
| calls: "ok auth \<Longrightarrow> (plain \<Longrightarrow> plainOp op) \<Longrightarrow> j < length (y_sessions y) \<Longrightarrow> y_sessions y ! j = (a, opts, key) \<Longrightarrow>
    runOp x auth op (deref (y_docs y) (a, opts, key), y_world y) = (r, (s, w)) \<Longrightarrow>
    sysStep x ok plain given y (afterMethod y j a s w)"
| lock: "j < length (y_sessions y) \<Longrightarrow> y_sessions y ! j = (a, opts, key) \<Longrightarrow>
    sysStep x ok plain given y
      (afterMethod y j a (fst (Lock (deref (y_docs y) (a, opts, key)))) (y_world y))"
| persist: "j < length (y_sessions y) \<Longrightarrow> session_Sealed nils (deref (y_docs y) (y_sessions y ! j)) = Inr data \<Longrightarrow>
    sysStep x ok plain given y (y\<lparr>y_stored := y_stored y @ [data]\<rparr>)"

inductive_cases sysStepE: "sysStep x ok plain given y y'"

definition sysInit :: "'d system \<Rightarrow> bool" where
  "sysInit y \<longleftrightarrow> y_docs y = [] \<and> y_vaults y = [] \<and> y_sessions y = [] \<and> y_stored y = []"

lemma deref_simps [simp]:
  "ses_doc (deref docs (a, opts, key)) = docs ! a"
  "ses_opts (deref docs (a, opts, key)) = opts"
  "ses_dataKey (deref docs (a, opts, key)) = key"
  by (simp_all add: deref_def)

lemma Sealed_deref: "session_Sealed nils (deref docs (a, opts, key)) = marshal nils (docs ! a)"
  by (simp add: session_Sealed_def)

lemma openDoc_ok: "openDoc doc opts = Inr v \<Longrightarrow> vt_doc v = doc"
  by (auto simp: openDoc_def split: if_splits)

lemma OpenWith_ok: "OpenWith data opts = Inr v \<Longrightarrow> parseSealed data = Inr (vt_doc v)"
  by (auto simp: OpenWith_def results dest: openDoc_ok)

lemma Lock_fst [simp]:
  "ses_doc (fst (Lock s)) = ses_doc s" "ses_opts (fst (Lock s)) = ses_opts s"
  "ses_dataKey (fst (Lock s)) = None"
  by (simp_all add: Lock_def)

section \<open>Every document stays well formed\<close>

definition inRange :: "'d system \<Rightarrow> bool" where
  "inRange y \<longleftrightarrow> (\<forall>v \<in> set (y_vaults y). fst v < length (y_docs y))
     \<and> (\<forall>h \<in> set (y_sessions y). fst h < length (y_docs y))"

definition allWf :: "bool \<Rightarrow> 'd system \<Rightarrow> bool" where
  "allWf plain y \<longleftrightarrow> inRange y \<and> (\<forall>d \<in> set (y_docs y). wfVault d \<and> (plain \<longrightarrow> serializable d))
     \<and> (plain \<longrightarrow> (\<forall>data \<in> set (y_stored y). is_ok (parseSealed data)))"

lemma runOp_wf: "runOp x auth op (s, w) = (r, (s', w')) \<Longrightarrow> wfVault (ses_doc s) \<Longrightarrow> wfVault (ses_doc s')"
  using admin.keeps_wf [of "(x, auth, op)" s w r s' w'] by simp

lemma in_list_update: "d \<in> set (xs[i := e]) \<Longrightarrow> d = e \<or> d \<in> set xs"
  using set_update_subset_insert [of xs i e] by auto

lemma sessionAddress: "inRange y \<Longrightarrow> j < length (y_sessions y) \<Longrightarrow> y_sessions y ! j = (a, opts, key)
    \<Longrightarrow> a < length (y_docs y)"
  unfolding inRange_def using nth_mem [of j "y_sessions y"] by fastforce

interpretation wfSystem: invariant_system sysInit "sysStep x ok plain given" "allWf plain"
proof unfold_locales
  fix y :: "'a system"
  show "allWf plain y" if "sysInit y"
    using that by (simp add: sysInit_def allWf_def inRange_def)
next
  fix y y' :: "'a system"
  assume "sysStep x ok plain given y y'" and wf: "allWf plain y"
  then show "allWf plain y'"
  proof cases
    case (create auth opts s w)
    with wf Create_wf [OF create(4)] Create_serializable [OF create(4)] show ?thesis
      by (auto simp: allWf_def inRange_def afterCreate_def less_Suc_eq)
  next
    case (createFails auth opts e w)
    with wf show ?thesis by (simp add: allWf_def inRange_def)
  next
    case (opens data opts v)
    with wf parseSealed_ok [OF OpenWith_ok [OF opens(3)]] show ?thesis
      by (auto simp: allWf_def inRange_def afterOpen_def less_Suc_eq)
  next
    case (unlocks auth i a opts s w)
    then have "(a, opts) \<in> set (y_vaults y)" using nth_mem by fastforce
    with wf unlocks(1) show ?thesis by (auto simp: allWf_def inRange_def afterUnlock_def)
  next
    case (unlockFails v auth e w)
    with wf show ?thesis by (simp add: allWf_def inRange_def)
  next
    case (calls auth op j a opts key r s w)
    with wf have a: "a < length (y_docs y)" by (auto simp: allWf_def dest: sessionAddress)
    with wf have "wfVault (ses_doc s)" by (intro runOp_wf [OF calls(6)]) (simp add: allWf_def)
    moreover have "serializable (ses_doc s)" if plain
      using wf a that calls(3) by (intro runOp_serializable [OF calls(6)]) (simp_all add: allWf_def)
    ultimately show ?thesis using wf a calls(1)
      by (auto simp: allWf_def inRange_def afterMethod_def dest!: in_list_update)
  next
    case (lock j a opts key)
    with wf have a: "a < length (y_docs y)" by (auto simp: allWf_def dest: sessionAddress)
    with wf lock(1) show ?thesis
      by (auto simp: allWf_def inRange_def afterMethod_def dest!: in_list_update)
  next
    case (persist j nils data)
    obtain a opts key where h: "y_sessions y ! j = (a, opts, key)" by (metis prod.collapse)
    with wf persist(2) have a: "a < length (y_docs y)" by (auto simp: allWf_def dest: sessionAddress)
    have "marshal nils (y_docs y ! a) = Inr data" using persist(3) h by (simp add: Sealed_deref)
    then have "parseSealed data = Inr (y_docs y ! a)" if plain
      using that wf a by (intro stored_reopens) (simp_all add: allWf_def)
    with wf persist(1) show ?thesis by (auto simp: allWf_def inRange_def)
  qed
qed

section \<open>Every live session keeps reading\<close>

text \<open>
  Documents whose secrets are readable: some abstract map is what they hold under the data key. All
  sessions of one document hold its data key or none.
\<close>

definition readable ::
  "'z x509_scheme \<Rightarrow> (bytes \<Rightarrow> bytes \<Rightarrow> bool \<Rightarrow> bytes) \<Rightarrow> bytes \<Rightarrow> sealedVault \<Rightarrow> bool" where
  "readable x pf dk d \<longleftrightarrow> (\<exists>A. coherent x pf dk A d) \<and> serializable d"

definition readableFile ::
  "'z x509_scheme \<Rightarrow> (bytes \<Rightarrow> bytes \<Rightarrow> bool \<Rightarrow> bytes) \<Rightarrow> bytes \<Rightarrow> bool" where
  "readableFile x pf data \<longleftrightarrow> (\<exists>d dk. parseSealed data = Inr d \<and> readable x pf dk d)"

definition keyed :: "bytes list \<Rightarrow> handle \<Rightarrow> bool" where
  "keyed dks h \<longleftrightarrow> (case h of (a, opts, key) \<Rightarrow> a < length dks \<and> (key = None \<or> key = Some (dks ! a)))"

definition sysCoherent ::
  "'z x509_scheme \<Rightarrow> (bytes \<Rightarrow> bytes \<Rightarrow> bool \<Rightarrow> bytes) \<Rightarrow> 'd system \<Rightarrow> bool" where
  "sysCoherent x pf y \<longleftrightarrow>
     (\<exists>dks. list_all2 (readable x pf) dks (y_docs y)
        \<and> (\<forall>v \<in> set (y_vaults y). fst v < length dks) \<and> (\<forall>h \<in> set (y_sessions y). keyed dks h))
     \<and> (\<forall>data \<in> set (y_stored y). readableFile x pf data)"

lemma keyed_append: "keyed dks h \<Longrightarrow> keyed (dks @ [dk]) h"
  by (auto simp: keyed_def nth_append split: prod.splits)

lemma runOp_readable:
  assumes "honest x pf auth" "readable x pf dk (ses_doc s)" "ses_dataKey s = None \<or> ses_dataKey s = Some dk"
    and run: "runOp x auth op (s, w) = (r, (s', w'))" and "plainOp op"
  shows "readable x pf dk (ses_doc s') \<and> ses_dataKey s' = ses_dataKey s"
proof -
  have key: "ses_dataKey s' = ses_dataKey s"
    using admin.keeps_frame [of "(x, auth, op)" s w r s' w'] run by simp
  show ?thesis
  proof (cases r)
    case (Inl e)
    then have "s' = s" using admin.error_keeps [of "(x, auth, op)" s w e s' w'] run by simp
    with assms(2) key show ?thesis by simp
  next
    case (Inr u)
    with run have run: "runOp x auth op (s, w) = (Inr (), (s', w'))" by simp
    then have "ses_dataKey s = Some dk"
      using admin.success_unlocked [of "(x, auth, op)" s w s' w'] assms(3) by auto
    with runOp_coherent [OF assms(1) _ _ run] runOp_serializable [OF run assms(5)] assms(2) key
    show ?thesis by (auto simp: readable_def)
  qed
qed

lemma sysCoherent_method:
  assumes "sysCoherent x pf y" "j < length (y_sessions y)"
    and h: "y_sessions y ! j = (a, opts, key)"
    and good: "\<And>dk. readable x pf dk (y_docs y ! a) \<Longrightarrow> key = None \<or> key = Some dk \<Longrightarrow>
      readable x pf dk (ses_doc s) \<and> (ses_dataKey s = None \<or> ses_dataKey s = Some dk)"
  shows "sysCoherent x pf (afterMethod y j a s w)"
proof -
  obtain dks where docs: "list_all2 (readable x pf) dks (y_docs y)"
    and vaults: "\<forall>v \<in> set (y_vaults y). fst v < length dks" and keys: "\<forall>h \<in> set (y_sessions y). keyed dks h"
    and stored: "\<forall>data \<in> set (y_stored y). readableFile x pf data"
    using assms(1) by (auto simp: sysCoherent_def)
  have "(a, opts, key) \<in> set (y_sessions y)" using assms(2) h nth_mem by fastforce
  with keys have a: "a < length dks" "key = None \<or> key = Some (dks ! a)" by (auto simp: keyed_def)
  with docs have "readable x pf (dks ! a) (y_docs y ! a)" by (simp add: list_all2_conv_all_nth)
  note after = good [OF this a(2)]
  have "list_all2 (readable x pf) dks ((y_docs y)[a := ses_doc s])"
    using list_all2_update_cong [OF docs, of "dks ! a" "ses_doc s" a] after by simp
  moreover have "\<forall>h \<in> set ((y_sessions y)[j := (a, ses_opts s, ses_dataKey s)]). keyed dks h"
    using keys after a(1) by (auto simp: keyed_def dest!: in_list_update)
  ultimately show ?thesis using vaults stored unfolding sysCoherent_def afterMethod_def by auto
qed

lemma sysCoherent_extend:
  assumes "sysCoherent x pf y" "readable x pf dk d"
    and "\<And>v. v \<in> set vs \<Longrightarrow> v \<in> set (y_vaults y) \<or> fst v = length (y_docs y)"
    and "\<And>h. h \<in> set hs \<Longrightarrow> h \<in> set (y_sessions y) \<or> (\<exists>opts. h = (length (y_docs y), opts, Some dk))"
  shows "sysCoherent x pf (y\<lparr>y_docs := y_docs y @ [d], y_vaults := vs, y_sessions := hs, y_world := w\<rparr>)"
proof -
  obtain dks where docs: "list_all2 (readable x pf) dks (y_docs y)"
    and vaults: "\<forall>v \<in> set (y_vaults y). fst v < length dks" and keys: "\<forall>h \<in> set (y_sessions y). keyed dks h"
    and stored: "\<forall>data \<in> set (y_stored y). readableFile x pf data"
    using assms(1) by (auto simp: sysCoherent_def)
  have len: "length dks = length (y_docs y)" using docs by (rule list_all2_lengthD)
  have "list_all2 (readable x pf) (dks @ [dk]) (y_docs y @ [d])"
    using docs assms(2) by (intro list_all2_appendI) simp_all
  moreover have "\<forall>v \<in> set vs. fst v < length (dks @ [dk])"
    using vaults assms(3) len by fastforce
  moreover have "\<forall>h \<in> set hs. keyed (dks @ [dk]) h"
  proof
    fix h assume "h \<in> set hs"
    from assms(4) [OF this] show "keyed (dks @ [dk]) h"
    proof (elim disjE exE)
      assume "h \<in> set (y_sessions y)"
      with keys show ?thesis by (blast intro: keyed_append)
    next
      fix opts assume "h = (length (y_docs y), opts, Some dk)"
      with len show ?thesis by (simp add: keyed_def nth_append)
    qed
  qed
  ultimately show ?thesis
    using stored unfolding sysCoherent_def by (intro conjI exI [of _ "dks @ [dk]"]) simp_all
qed

lemma sysCoherent_step:
  assumes "sysStep x (honest x pf) True (readableFile x pf) y y'" and I: "sysCoherent x pf y"
  shows "sysCoherent x pf y'"
  using assms(1)
proof cases
  case (create auth opts s w)
  obtain dk where dk: "ses_dataKey s = Some dk" "coherent x pf dk (\<lambda>_. None) (ses_doc s)"
    using Create_coherent [OF create(2,4)] by blast
  moreover have "serializable (ses_doc s)" using Create_serializable [OF create(4)] create(3) by simp
  ultimately have "readable x pf dk (ses_doc s)" by (auto simp: readable_def)
  then have "sysCoherent x pf (y\<lparr>y_docs := y_docs y @ [ses_doc s], y_vaults := y_vaults y,
      y_sessions := y_sessions y @ [(length (y_docs y), ses_opts s, ses_dataKey s)], y_world := w\<rparr>)"
    by (rule sysCoherent_extend [OF I]) (auto simp: dk(1))
  then show ?thesis by (simp add: create(1) afterCreate_def)
next
  case (createFails auth opts e w)
  with I show ?thesis by (simp add: sysCoherent_def)
next
  case (opens data opts v)
  from opens(2) I have "readableFile x pf data" by (auto simp: sysCoherent_def)
  with OpenWith_ok [OF opens(3)] obtain dk where "readable x pf dk (vt_doc v)"
    by (auto simp: readableFile_def)
  then have "sysCoherent x pf (y\<lparr>y_docs := y_docs y @ [vt_doc v],
      y_vaults := y_vaults y @ [(length (y_docs y), vt_opts v)], y_sessions := y_sessions y,
      y_world := y_world y\<rparr>)"
    by (rule sysCoherent_extend [OF I]) auto
  then show ?thesis by (simp add: opens(1) afterOpen_def)
next
  case (unlocks auth i a opts s w)
  obtain dks where docs: "list_all2 (readable x pf) dks (y_docs y)"
    and vaults: "\<forall>v \<in> set (y_vaults y). fst v < length dks" and keys: "\<forall>h \<in> set (y_sessions y). keyed dks h"
    and stored: "\<forall>data \<in> set (y_stored y). readableFile x pf data"
    using I by (auto simp: sysCoherent_def)
  have "(a, opts) \<in> set (y_vaults y)" using unlocks(3,4) nth_mem by fastforce
  with vaults have a: "a < length dks" by auto
  with docs have "readable x pf (dks ! a) (y_docs y ! a)" by (simp add: list_all2_conv_all_nth)
  then obtain A where "coherent x pf (dks ! a) A (vt_doc \<lparr>vt_doc = y_docs y ! a, vt_opts = opts\<rparr>)"
    by (auto simp: readable_def)
  from unlock_coherent [OF unlocks(2) this unlocks(5)] have "ses_dataKey s = Some (dks ! a)" by simp
  then have "\<forall>h \<in> set (y_sessions y @ [(a, ses_opts s, ses_dataKey s)]). keyed dks h"
    using keys a by (auto simp: keyed_def)
  with docs vaults stored show ?thesis
    unfolding sysCoherent_def by (auto simp: unlocks(1) afterUnlock_def)
next
  case (unlockFails v auth e w)
  with I show ?thesis by (simp add: sysCoherent_def)
next
  case (calls auth op j a opts key r s w)
  show ?thesis
    unfolding calls(1)
  proof (rule sysCoherent_method [OF I calls(4,5)])
    fix dk assume "readable x pf dk (y_docs y ! a)" "key = None \<or> key = Some dk"
    then show "readable x pf dk (ses_doc s) \<and> (ses_dataKey s = None \<or> ses_dataKey s = Some dk)"
      using runOp_readable [OF calls(2) _ _ calls(6) calls(3), of dk] by simp
  qed
next
  case (lock j a opts key)
  show ?thesis
    unfolding lock(1) by (rule sysCoherent_method [OF I lock(2,3)]) simp
next
  case (persist j nils data)
  obtain dks where docs: "list_all2 (readable x pf) dks (y_docs y)" and keys: "\<forall>h \<in> set (y_sessions y). keyed dks h"
    using I by (auto simp: sysCoherent_def)
  obtain a opts key where h: "y_sessions y ! j = (a, opts, key)" by (metis prod.collapse)
  then have "(a, opts, key) \<in> set (y_sessions y)" using persist(2) nth_mem by fastforce
  with keys have "a < length dks" by (auto simp: keyed_def)
  with docs have d: "readable x pf (dks ! a) (y_docs y ! a)" by (simp add: list_all2_conv_all_nth)
  have "marshal nils (y_docs y ! a) = Inr data" using persist(3) h by (simp add: Sealed_deref)
  then have "parseSealed data = Inr (y_docs y ! a)"
    using d by (intro stored_reopens) (auto simp: readable_def coherent_def)
  with d have "readableFile x pf data" by (auto simp: readableFile_def)
  with I show ?thesis by (auto simp: sysCoherent_def persist(1))
qed

interpretation coherentSystem: invariant_system sysInit
  "sysStep x (honest x pf) True (readableFile x pf)" "sysCoherent x pf"
proof unfold_locales
  fix y y' :: "'a system"
  show "sysCoherent x pf y" if "sysInit y" using that by (simp add: sysInit_def sysCoherent_def)
  show "sysCoherent x pf y'"
    if "sysStep x (honest x pf) True (readableFile x pf) y y'" "sysCoherent x pf y"
    using that by (rule sysCoherent_step)
qed

end
