(* ===== verification/LifecycleGuarantees.thy ===== *)
theory LifecycleGuarantees
  imports StorageGuarantees Lifecycle
begin

text \<open>
  What holds over time: in every state a caller can reach by any sequence of whole calls on any
  sessions, and from one process to the next through the serialized vault. Each theorem with hypotheses has an instance on the
  concrete parameters of \<open>Samples\<close>.
\<close>

section \<open>Over time\<close>

definition toyInit :: "unit system" where
  "toyInit = \<lparr>y_docs = [], y_vaults = [], y_sessions = [], y_stored = [], y_world = toyWorldTo 100\<rparr>"

lemma toy_step:
  "\<exists>w. sysStep toyX (honest toyX toyPRF) True given toyInit (afterCreate toyInit (toySession 1) w)"
proof -
  obtain w where "Create toyX (toyKey 1) toyOpts (y_world toyInit) = (Inr (toySession 1), w)"
    using toy_create unfolding toyInit_def by auto
  then have "sysStep toyX (honest toyX toyPRF) True given toyInit (afterCreate toyInit (toySession 1) w)"
    by (rule sysStep.create [where ok = "honest toyX toyPRF" and auth = "toyKey 1", OF toyKey_honest toyOpts_plain])
  then show ?thesis by blast
qed

text \<open>C24: whatever is persisted can be opened again, when callers pass valid UTF-8 and slots in the range
  of an \<open>int64\<close> (the flag \<open>True\<close> of the step relation), and when each call runs to its end before the
  next one starts, also on another session, as the comment of \<open>Admin\<close> asks of callers
  (\<open>enrollments_lose_vault\<close> shows what overlapping calls can do, \<open>colliding_names_lose_vault\<close> what other
  strings can). From the empty system, through any sequence of such calls on any sessions, with any
  authenticators and any files handed to \<open>OpenWith\<close>: what \<open>Sealed\<close> returns for any session, locked or not, is opened by \<open>Open\<close> to
  the very document of that session, under its RP ID; and every file that was returned earlier opens.\<close>

theorem reachable_documents_reopen:
  assumes "sysInit y" and "(sysStep x ok True given)\<^sup>*\<^sup>* y y'" and "h \<in> set (y_sessions y')"
    and "session_Sealed nils (deref (y_docs y') h) = Inr data"
  defines "d \<equiv> ses_doc (deref (y_docs y') h)"
  shows "OpenVault data = Inr \<lparr>vt_doc = d, vt_opts = zeroOptions\<lparr>o_RPID := v_RPID d\<rparr>\<rparr>
    \<and> (\<forall>earlier \<in> set (y_stored y'). is_ok (OpenVault earlier))"
proof -
  have wf: "allWf True y'" using wfSystem.reachable [OF assms(1,2)] .
  obtain a opts key where h: "h = (a, opts, key)" by (cases h)
  obtain j where "j < length (y_sessions y')" "y_sessions y' ! j = (a, opts, key)"
    using assms(3) h by (auto simp: in_set_conv_nth)
  with wf have "a < length (y_docs y')" by (auto simp: allWf_def dest: sessionAddress)
  with wf have "wfVault d" "serializable d" by (simp_all add: allWf_def d_def h)
  then have "parseSealed data = Inr d"
    using assms(4) by (intro stored_reopens) (simp_all add: d_def h Sealed_deref)
  moreover have "is_ok (OpenVault earlier)" if "earlier \<in> set (y_stored y')" for earlier
    using wf that unfolding allWf_def
    by (cases "parseSealed earlier") (auto simp: OpenVault_def OpenWith_def openDoc_def zeroOptions_def)
  ultimately show ?thesis
    by (simp add: OpenVault_def OpenWith_def openDoc_def zeroOptions_def)
qed

theorem reachable_documents_reopen_witness:
  "\<exists>data. session_Sealed (\<lambda>_. True) (toySession 1) = Inr data
     \<and> map_option vt_doc (case OpenVault data of Inl e \<Rightarrow> None | Inr v \<Rightarrow> Some v) = Some (ses_doc (toySession 1))"
proof -
  obtain w where "sysStep toyX (honest toyX toyPRF) True (\<lambda>_. True) toyInit (afterCreate toyInit (toySession 1) w)"
    using toy_step by blast
  then have steps: "(sysStep toyX (honest toyX toyPRF) True (\<lambda>_. True))\<^sup>*\<^sup>* toyInit (afterCreate toyInit (toySession 1) w)"
    by (rule r_into_rtranclp)
  let ?h = "(0, toyOpts, Some toyDataKey)"
  have h: "deref (y_docs (afterCreate toyInit (toySession 1) w)) ?h = toySession 1"
    by (simp add: deref_def afterCreate_def toyInit_def toySession_def)
  obtain data where data: "session_Sealed (\<lambda>_. True) (toySession 1) = Inr data" by (simp add: session_Sealed_def marshal_def)
  have "?h \<in> set (y_sessions (afterCreate toyInit (toySession 1) w))"
    by (simp add: afterCreate_def toyInit_def toySession_def)
  from reachable_documents_reopen [OF _ steps this, of "\<lambda>_. True" data] data show ?thesis
    unfolding h by (simp add: sysInit_def toyInit_def)
qed

text \<open>C27: a live session reads what is there, when callers pass valid UTF-8 and slots in the range of an
  \<open>int64\<close> (the flag \<open>True\<close> of the step relation), when each call runs to its end before the next one
  starts, also on another session, and when the files handed in from outside are readable documents. In a system of honest keys,
  through any sequence of such calls on any sessions, sessions of one vault and vaults opened from stored
  files included, a session that was not locked reads every name that is listed and reports every other
  as \<open>ErrNoSuchSecret\<close>: under these conditions no order of the calls makes a stored secret
  undecryptable. \<open>invalid_name_undecryptable\<close> and \<open>reader_misses_secret\<close> show what happens outside them.\<close>

theorem reachable_sessions_read:
  assumes "sysInit y" and "(sysStep x (honest x pf) True (readableFile x pf))\<^sup>*\<^sup>* y y'"
    and "(a, opts, Some dk) \<in> set (y_sessions y')"
  shows "if n \<in> set (names (y_docs y' ! a))
    then \<exists>v. ReadString x n (deref (y_docs y') (a, opts, Some dk), w) =
           (Inr v, (deref (y_docs y') (a, opts, Some dk), w))
    else ReadString x n (deref (y_docs y') (a, opts, Some dk), w) =
           (Inl (wrap ''%w: %q'' (Sentinel ErrNoSuchSecret)), (deref (y_docs y') (a, opts, Some dk), w))"
proof -
  have "sysCoherent x pf y'" using coherentSystem.reachable [OF assms(1,2)] .
  then obtain dks where docs: "list_all2 (readable x pf) dks (y_docs y')"
    and keys: "\<forall>h \<in> set (y_sessions y'). keyed dks h"
    by (auto simp: sysCoherent_def)
  from keys assms(3) have "a < length dks" "dk = dks ! a" by (auto simp: keyed_def)
  with docs have "readable x pf dk (y_docs y' ! a)" by (simp add: list_all2_conv_all_nth)
  then obtain A where co: "coherent x pf dk A (y_docs y' ! a)" by (auto simp: readable_def)
  let ?s = "deref (y_docs y') (a, opts, Some dk)"
  have "ReadString x n (?s, w) =
    (case A n of Some pt \<Rightarrow> Inr (string_of_bytes pt)
     | None \<Rightarrow> Inl (wrap ''%w: %q'' (Sentinel ErrNoSuchSecret)), (?s, w))"
    using coherentD(5) [OF co] by (intro ReadString_coherent [where dk = dk]) simp_all
  moreover have "n \<in> set (names (y_docs y' ! a)) \<longleftrightarrow> A n \<noteq> None"
    using coherent_names(1) [OF co] by auto
  ultimately show ?thesis by (auto split: option.splits)
qed

lemma toy_two_steps:
  "\<exists>w. (sysStep toyX (honest toyX toyPRF) True given)\<^sup>*\<^sup>* toyInit
     (afterMethod (afterCreate toyInit (toySession 1) w) 0 0 (toySession2 1) (w\<lparr>w_draws := 5\<rparr>))"
proof -
  obtain gs where gs: "Create toyX (toyKey 1) toyOpts (toyWorldTo 100) =
     (Inr (toySession 1), \<lparr>w_device = (), w_entropy = w_entropy (toyWorldTo 100), w_draws = 4, w_gestures = gs\<rparr>)"
    using toy_create by blast
  let ?w = "\<lparr>w_device = (), w_entropy = w_entropy (toyWorldTo 100), w_draws = 4, w_gestures = gs\<rparr>"
  let ?y = "afterCreate toyInit (toySession 1) ?w"
  have "sysStep toyX (honest toyX toyPRF) True given toyInit ?y"
    by (rule sysStep.create [where ok = "honest toyX toyPRF" and auth = "toyKey 1", OF toyKey_honest toyOpts_plain])
      (simp add: toyInit_def gs)
  moreover have "Put toyX ''a'' (Some (Inr [1, 2])) (toySession 1, ?w) = (Inr (), (toySession2 1, ?w\<lparr>w_draws := 5\<rparr>))"
    by (simp add: Put_def keyM_def docM_def onWorld_def setDocM_def sealSecret_def toyRun toySession2_def
        toySecret_def toyDataKey_def toySession_def)
  moreover have "deref (y_docs ?y) (0, toyOpts, Some toyDataKey) = toySession 1" "y_world ?y = ?w"
    by (simp_all add: deref_def afterCreate_def toyInit_def toySession_def)
  ultimately have run: "runOp toyX (toyKey 1) (OpPut ''a'' (Some (Inr [1, 2])))
      (deref (y_docs ?y) (0, toyOpts, Some toyDataKey), y_world ?y) = (Inr (), (toySession2 1, ?w\<lparr>w_draws := 5\<rparr>))"
    by simp
  have "sysStep toyX (honest toyX toyPRF) True given ?y (afterMethod ?y 0 0 (toySession2 1) (?w\<lparr>w_draws := 5\<rparr>))"
    by (rule sysStep.calls [where ok = "honest toyX toyPRF" and auth = "toyKey 1", OF toyKey_honest _ _ _ run])
      (simp_all add: afterCreate_def toyInit_def validUTF8_ascii code_def)
  with \<open>sysStep toyX (honest toyX toyPRF) True given toyInit ?y\<close> show ?thesis
    by (meson converse_rtranclp_into_rtranclp r_into_rtranclp)
qed

theorem reachable_sessions_read_witness:
  "\<exists>v. ReadString toyX ''a'' (toySession2 1, toyAt 9) = (Inr v, (toySession2 1, toyAt 9))"
proof -
  obtain w where steps: "(sysStep toyX (honest toyX toyPRF) True (readableFile toyX toyPRF))\<^sup>*\<^sup>* toyInit
     (afterMethod (afterCreate toyInit (toySession 1) w) 0 0 (toySession2 1) (w\<lparr>w_draws := 5\<rparr>))"
    using toy_two_steps by blast
  let ?y = "afterMethod (afterCreate toyInit (toySession 1) w) 0 0 (toySession2 1) (w\<lparr>w_draws := 5\<rparr>)"
  have this_session: "deref (y_docs ?y) (0, toyOpts, Some toyDataKey) = toySession2 1"
    by (simp add: deref_def afterMethod_def afterCreate_def toyInit_def toySession2_def toySession_def)
  have "y_docs ?y = [ses_doc (toySession2 1)]" "(0, toyOpts, Some toyDataKey) \<in> set (y_sessions ?y)"
    by (simp_all add: afterMethod_def afterCreate_def toyInit_def)
  with reachable_sessions_read [OF _ steps, of 0 toyOpts toyDataKey "''a''" "toyAt 9"]
  show ?thesis
    unfolding this_session by (simp add: sysInit_def toyInit_def names_def toySecret_def)
qed

text \<open>Sessions of one vault share its document. After a \<open>Put\<close> through one session, another session
  that refers to the same document reads the new value, without unlocking again.\<close>

lemma sessions_share_document:
  assumes "aead_roundtrip x" and "j < length (y_sessions y)" "k < length (y_sessions y)" "j \<noteq> k"
    and "y_sessions y ! j = (a, opts, Some dk)" "y_sessions y ! k = (a, opts', Some dk)" "a < length (y_docs y)"
    and "Put x name (Some (Inr pt)) (deref (y_docs y) (a, opts, Some dk), y_world y) = (Inr (), (s, w))"
  defines "y' \<equiv> afterMethod y j a s w"
  shows "ReadString x name (deref (y_docs y') (y_sessions y' ! k), w') =
    (Inr (string_of_bytes pt), (deref (y_docs y') (y_sessions y' ! k), w'))"
proof -
  obtain entry w1 where
      sealed: "sealSecret x (y_docs y ! a) dk name pt (y_world y) = (Inr entry, w1)"
    and s: "ses_doc s = (y_docs y ! a)\<lparr>v_Secrets := putSecretIn (v_Secrets (y_docs y ! a)) name entry\<rparr>"
    using assms(8) by (auto simp: Put_ok_iff)
  have doc: "y_docs y' ! a = ses_doc s" and session: "y_sessions y' ! k = (a, opts', Some dk)"
    using assms(3,4,6,7) by (simp_all add: y'_def afterMethod_def)
  have "s_Name entry = name" using sealed by (simp add: sealSecret_ok)
  then have "findSecret (ses_doc s) name = Some entry" by (simp add: s findSecret_def findSecretIn_put)
  moreover have "openSecret x (ses_doc s) dk entry = Inr pt"
    using open_sealed_secret [OF assms(1) sealed] openSecret_frame [of "y_docs y ! a" "ses_doc s" x dk entry]
    by (simp add: s sameFrame_def)
  ultimately have "Open x name (deref (y_docs y') (a, opts', Some dk), w') =
      (Inr \<lparr>rd_buf = pt, rd_src = True, rd_pos = 0, rd_once = False\<rparr>, (deref (y_docs y') (a, opts', Some dk), w'))"
    by (simp add: Open_ok_iff doc)
  then show ?thesis by (simp add: session ReadString_def readAll_def)
qed

end
