(* ===== verification/WinLayout.thy ===== *)
theory WinLayout
  imports Prelude
begin

text \<open>
  \<open>fido/internal/winwebauthn/types_windows.go\<close> and \<open>consts_windows.go\<close>: the structures the provider
  exchanges with \<open>webauthn.dll\<close>, as descriptions a layout is computed from, and the memory they are
  read from. The layout rules are Go's on amd64: a field is placed at the next multiple of its
  alignment, a structure is aligned like its widest field and its size is rounded up to that.
\<close>

section \<open>Structures and their layout\<close>

text \<open>A 32-bit word, a pointer (or \<open>uintptr\<close>), an embedded structure.\<close>

datatype ctype = U32 | I32 | Ptr | Struct "(string \<times> ctype) list"

fun alignOf :: "ctype \<Rightarrow> nat" where
  "alignOf U32 = 4"
| "alignOf I32 = 4"
| "alignOf Ptr = 8"
| "alignOf (Struct fs) = foldr (\<lambda>(n, t) a. max (alignOf t) a) fs 1"

definition alignUp :: "nat \<Rightarrow> nat \<Rightarrow> nat" where
  "alignUp a n = ((n + a - 1) div a) * a"

text \<open>\<open>sizeOf\<close>, with the end of a list of fields placed from an offset.\<close>

fun sizeOf :: "ctype \<Rightarrow> nat" and fieldsEnd :: "nat \<Rightarrow> (string \<times> ctype) list \<Rightarrow> nat" where
  "sizeOf U32 = 4"
| "sizeOf I32 = 4"
| "sizeOf Ptr = 8"
| "sizeOf (Struct fs) = alignUp (alignOf (Struct fs)) (fieldsEnd 0 fs)"
| "fieldsEnd off [] = off"
| "fieldsEnd off ((n, t) # fs) = fieldsEnd (alignUp (alignOf t) off + sizeOf t) fs"

fun offsetIn :: "nat \<Rightarrow> (string \<times> ctype) list \<Rightarrow> string \<Rightarrow> nat option" where
  "offsetIn off [] f = None"
| "offsetIn off ((n, t) # fs) f =
     (if n = f then Some (alignUp (alignOf t) off)
      else offsetIn (alignUp (alignOf t) off + sizeOf t) fs f)"

text \<open>\<open>unsafe.Offsetof\<close>; 0 for a name that is not a field, which no use below is.\<close>

fun offsetOf :: "ctype \<Rightarrow> string \<Rightarrow> nat" where
  "offsetOf (Struct fs) f = (case offsetIn 0 fs f of Some off \<Rightarrow> off | None \<Rightarrow> 0)"
| "offsetOf t f = 0"

section \<open>The structures of \<open>webauthn.h\<close>\<close>

definition t_rpEntityInformation :: ctype where
  "t_rpEntityInformation = Struct
     [(''version'', U32), (''id'', Ptr), (''name'', Ptr), (''icon'', Ptr)]"

definition t_userEntityInformation :: ctype where
  "t_userEntityInformation = Struct
     [(''version'', U32), (''idLen'', U32), (''id'', Ptr), (''name'', Ptr), (''icon'', Ptr),
      (''displayName'', Ptr)]"

definition t_coseCredentialParameter :: ctype where
  "t_coseCredentialParameter = Struct
     [(''version'', U32), (''credentialType'', Ptr), (''alg'', I32)]"

definition t_coseCredentialParameters :: ctype where
  "t_coseCredentialParameters = Struct [(''count'', U32), (''parameters'', Ptr)]"

definition t_clientData :: ctype where
  "t_clientData = Struct
     [(''version'', U32), (''jsonLen'', U32), (''json'', Ptr), (''hashAlgID'', Ptr)]"

definition t_extension :: ctype where
  "t_extension = Struct [(''identifier'', Ptr), (''valueLen'', U32), (''value'', Ptr)]"

definition t_extensions :: ctype where
  "t_extensions = Struct [(''count'', U32), (''extensions'', Ptr)]"

definition t_credentials :: ctype where
  "t_credentials = Struct [(''count'', U32), (''credentials'', Ptr)]"

definition t_credentialEx :: ctype where
  "t_credentialEx = Struct
     [(''version'', U32), (''idLen'', U32), (''id'', Ptr), (''credentialType'', Ptr),
      (''transports'', U32)]"

definition t_credentialList :: ctype where
  "t_credentialList = Struct [(''count'', U32), (''credentials'', Ptr)]"

definition t_hmacSecretSalt :: ctype where
  "t_hmacSecretSalt = Struct
     [(''firstLen'', U32), (''first'', Ptr), (''secondLen'', U32), (''second'', Ptr)]"

definition t_hmacSecretSaltValues :: ctype where
  "t_hmacSecretSaltValues = Struct [(''globalSalt'', Ptr), (''listCount'', U32), (''list'', Ptr)]"

definition t_makeCredentialOptions :: ctype where
  "t_makeCredentialOptions = Struct
     [(''version'', U32), (''timeoutMilliseconds'', U32), (''excludeCredentials'', t_credentials),
      (''ext'', t_extensions), (''authenticatorAttachment'', U32), (''requireResidentKey'', I32),
      (''userVerificationReq'', U32), (''attestationConveyance'', U32), (''flags'', U32)]"

definition t_getAssertionOptions :: ctype where
  "t_getAssertionOptions = Struct
     [(''version'', U32), (''timeoutMilliseconds'', U32), (''allowCredentials'', t_credentials),
      (''ext'', t_extensions), (''authenticatorAttachment'', U32), (''userVerificationReq'', U32),
      (''flags'', U32), (''u2fAppID'', Ptr), (''u2fAppIDUsed'', Ptr), (''cancellationID'', Ptr),
      (''allowCredentialList'', Ptr), (''credLargeBlobOperation'', U32), (''credLargeBlobLen'', U32),
      (''credLargeBlob'', Ptr), (''hmacSecretSaltValues'', Ptr), (''browserInPrivateMode'', I32),
      (''linkedDevice'', Ptr), (''autoFill'', I32), (''jsonExtLen'', U32), (''jsonExt'', Ptr),
      (''credentialHintsCount'', U32), (''credentialHints'', Ptr)]"

definition t_credential :: ctype where
  "t_credential = Struct
     [(''version'', U32), (''idLen'', U32), (''id'', Ptr), (''credentialType'', Ptr)]"

definition t_credentialAttestation :: ctype where
  "t_credentialAttestation = Struct
     [(''version'', U32), (''formatType'', Ptr), (''authenticatorDataLen'', U32),
      (''authenticatorData'', Ptr), (''attestationLen'', U32), (''attestation'', Ptr),
      (''attestationDecodeType'', U32), (''attestationDecode'', Ptr), (''attestationObjectLen'', U32),
      (''attestationObject'', Ptr), (''credentialIDLen'', U32), (''credentialID'', Ptr),
      (''ext'', t_extensions), (''usedTransport'', U32), (''epAtt'', I32),
      (''largeBlobSupported'', I32), (''residentKey'', I32)]"

definition t_commonAttestation :: ctype where
  "t_commonAttestation = Struct
     [(''version'', U32), (''alg'', Ptr), (''algID'', I32), (''signatureLen'', U32),
      (''signature'', Ptr), (''x5cCount'', U32), (''x5c'', Ptr), (''ver'', Ptr), (''certInfoLen'', U32),
      (''certInfo'', Ptr), (''pubAreaLen'', U32), (''pubArea'', Ptr)]"

definition t_x5cEntry :: ctype where
  "t_x5cEntry = Struct [(''dataLen'', U32), (''data'', Ptr)]"

definition t_assertion :: ctype where
  "t_assertion = Struct
     [(''version'', U32), (''authenticatorDataLen'', U32), (''authenticatorData'', Ptr),
      (''signatureLen'', U32), (''signature'', Ptr), (''credential'', t_credential),
      (''userIDLen'', U32), (''userID'', Ptr), (''ext'', t_extensions), (''credLargeBlobLen'', U32),
      (''credLargeBlob'', Ptr), (''credLargeBlobStatus'', U32), (''hmacSecret'', Ptr)]"

lemmas layouts = t_rpEntityInformation_def t_userEntityInformation_def t_coseCredentialParameter_def
  t_coseCredentialParameters_def t_clientData_def t_extension_def t_extensions_def t_credentials_def
  t_credentialEx_def t_credentialList_def t_hmacSecretSalt_def t_hmacSecretSaltValues_def
  t_makeCredentialOptions_def t_getAssertionOptions_def t_credential_def t_credentialAttestation_def
  t_commonAttestation_def t_x5cEntry_def t_assertion_def

section \<open>Constants\<close>

definition hashAlgorithmSHA256 :: string where
  "hashAlgorithmSHA256 = ''SHA-256''"

definition credentialTypePublicKey :: string where
  "credentialTypePublicKey = ''public-key''"

definition extensionIdentifierHMACSecret :: string where
  "extensionIdentifierHMACSecret = ''hmac-secret''"

definition credentialHintSecurityKey :: string where
  "credentialHintSecurityKey = ''security-key''"

definition coseAlgorithmES256 :: "32 word" where
  "coseAlgorithmES256 = - 7"

definition attachmentCrossPlatform :: "32 word" where
  "attachmentCrossPlatform = 2"

definition userVerificationRequired :: "32 word" where
  "userVerificationRequired = 1"

definition userVerificationDiscouraged :: "32 word" where
  "userVerificationDiscouraged = 3"

definition attestationConveyanceDirect :: "32 word" where
  "attestationConveyanceDirect = 3"

definition attestationDecodeCommon :: "32 word" where
  "attestationDecodeCommon = 1"

definition assertionHMACSecretValuesFlag :: "32 word" where
  "assertionHMACSecretValuesFlag = 0x00100000"

definition transportAny :: "32 word" where
  "transportAny = 0"

definition rpEntityInformationVersion :: "32 word" where
  "rpEntityInformationVersion = 1"

definition userEntityInformationVersion :: "32 word" where
  "userEntityInformationVersion = 1"

definition clientDataVersion :: "32 word" where
  "clientDataVersion = 1"

definition coseCredentialParameterVersion :: "32 word" where
  "coseCredentialParameterVersion = 1"

definition credentialExVersion :: "32 word" where
  "credentialExVersion = 1"

definition makeCredentialOptionsVersion :: "32 word" where
  "makeCredentialOptionsVersion = 1"

definition credentialAttestationVersionResidentKey :: "32 word" where
  "credentialAttestationVersionResidentKey = 3"

definition getAssertionOptionsVersionSalt :: "32 word" where
  "getAssertionOptionsVersionSalt = 6"

definition getAssertionOptionsVersionHints :: "32 word" where
  "getAssertionOptionsVersionHints = 7"

definition apiVersionForHints :: "32 word" where
  "apiVersionForHints = 7"

section \<open>Memory\<close>

type_synonym addr = "64 word"
type_synonym memory = "addr \<Rightarrow> byte"

text \<open>\<open>n\<close> bytes from an address on, and the little-endian value of some bytes.\<close>

definition loadBytes :: "memory \<Rightarrow> addr \<Rightarrow> nat \<Rightarrow> bytes" where
  "loadBytes m p n = map (\<lambda>i. m (p + of_nat i)) [0..<n]"

fun littleEndian :: "bytes \<Rightarrow> nat" where
  "littleEndian [] = 0"
| "littleEndian (b # bs) = unat b + 256 * littleEndian bs"

definition load32 :: "memory \<Rightarrow> addr \<Rightarrow> 32 word" where
  "load32 m p = of_nat (littleEndian (loadBytes m p 4))"

definition load64 :: "memory \<Rightarrow> addr \<Rightarrow> 64 word" where
  "load64 m p = of_nat (littleEndian (loadBytes m p 8))"

definition field :: "addr \<Rightarrow> ctype \<Rightarrow> string \<Rightarrow> addr" where
  "field p t f = p + of_nat (offsetOf t f)"

text \<open>\<open>asBytes\<close> copies what the pointer refers to; the copy is a value.\<close>

definition asBytes :: "memory \<Rightarrow> addr \<Rightarrow> 32 word \<Rightarrow> bytes" where
  "asBytes m p n = (if p = 0 \<or> n = 0 then [] else loadBytes m p (unat n))"

lemma loadBytes_cong:
  "(\<And>i. i < n \<Longrightarrow> m (p + of_nat i) = m' (p + of_nat i)) \<Longrightarrow> loadBytes m p n = loadBytes m' p n"
  by (simp add: loadBytes_def)

lemma length_loadBytes [simp]: "length (loadBytes m p n) = n"
  by (simp add: loadBytes_def)

lemma alignUp_ge: "0 < a \<Longrightarrow> n \<le> alignUp a n"
proof -
  assume a: "0 < a"
  have "n + a - 1 = ((n + a - 1) div a) * a + (n + a - 1) mod a" by simp
  moreover have "(n + a - 1) mod a < a" using a by simp
  ultimately show ?thesis using a unfolding alignUp_def by linarith
qed

lemma alignUp_dvd [simp]: "a dvd alignUp a n"
  by (simp add: alignUp_def)

lemma alignOf_pos [simp]: "0 < alignOf t"
proof (cases t)
  case (Struct fs)
  have "0 < foldr (\<lambda>(n, t) a. max (alignOf t) a) fs 1" by (induction fs) auto
  with Struct show ?thesis by simp
qed simp_all

lemma fieldsEnd_ge: "off \<le> fieldsEnd off fs"
proof (induction fs arbitrary: off)
  case Nil
  then show ?case by simp
next
  case (Cons f fs)
  obtain n t where f: "f = (n, t)" by (cases f)
  have "off \<le> alignUp (alignOf t) off" by (rule alignUp_ge) simp
  also have "\<dots> \<le> alignUp (alignOf t) off + sizeOf t" by simp
  also have "\<dots> \<le> fieldsEnd (alignUp (alignOf t) off + sizeOf t) fs" by (rule Cons.IH)
  finally show ?case by (simp add: f)
qed

text \<open>A field is aligned, and lies between where the list of fields starts and where it ends.\<close>

lemma offsetIn_bounds:
  "offsetIn off fs f = Some p \<Longrightarrow>
     \<exists>t. (f, t) \<in> set fs \<and> alignOf t dvd p \<and> off \<le> p \<and> p + sizeOf t \<le> fieldsEnd off fs"
proof (induction fs arbitrary: off)
  case Nil
  then show ?case by simp
next
  case (Cons g fs)
  obtain n t where g: "g = (n, t)" by (cases g)
  have up: "off \<le> alignUp (alignOf t) off" by (rule alignUp_ge) simp
  show ?case
  proof (cases "n = f")
    case True
    with Cons.prems have "p = alignUp (alignOf t) off" by (simp add: g)
    with True up fieldsEnd_ge [of "p + sizeOf t" fs] show ?thesis by (auto simp: g)
  next
    case False
    with Cons.prems have "offsetIn (alignUp (alignOf t) off + sizeOf t) fs f = Some p" by (simp add: g)
    from Cons.IH [OF this] up show ?thesis by (fastforce simp: g)
  qed
qed

lemma offsetIn_None: "offsetIn off fs f = None \<longleftrightarrow> f \<notin> fst ` set fs"
proof (induction fs arbitrary: off)
  case Nil
  then show ?case by simp
next
  case (Cons g fs)
  then show ?case by (cases g) auto
qed

lemma sizeOf_ge: "fieldsEnd 0 fs \<le> sizeOf (Struct fs)"
  using alignUp_ge [of "alignOf (Struct fs)" "fieldsEnd 0 fs", OF alignOf_pos] by simp

text \<open>The layout rule is sound for every description of a structure. A field that occurs is
  aligned as its type requires and lies inside the structure, and the fields behind it start no
  earlier than where it ends, so no two fields overlap.\<close>

lemma layout_sound:
  assumes "f \<in> fst ` set fs"
  shows "(\<exists>t. (f, t) \<in> set fs \<and> alignOf t dvd offsetOf (Struct fs) f
      \<and> offsetOf (Struct fs) f + sizeOf t \<le> sizeOf (Struct fs))
    \<and> (\<forall>before t after g. fs = before @ (f, t) # after \<longrightarrow> f \<notin> fst ` set before \<longrightarrow>
         distinct (map fst fs) \<longrightarrow> g \<in> fst ` set after \<longrightarrow>
         offsetOf (Struct fs) f + sizeOf t \<le> offsetOf (Struct fs) g)"
proof (intro conjI allI impI)
  obtain p where p: "offsetIn 0 fs f = Some p" using assms offsetIn_None by (metis option.exhaust)
  from offsetIn_bounds [OF p] sizeOf_ge [of fs] p
  show "\<exists>t. (f, t) \<in> set fs \<and> alignOf t dvd offsetOf (Struct fs) f
      \<and> offsetOf (Struct fs) f + sizeOf t \<le> sizeOf (Struct fs)"
    by (auto intro: order_trans)
next
  fix before t after g
  assume split: "fs = before @ (f, t) # after" "f \<notin> fst ` set before" "distinct (map fst fs)"
    and g: "g \<in> fst ` set after"
  have skip: "offsetIn off (before @ rest) h = offsetIn (fieldsEnd off before) rest h"
    if "h \<notin> fst ` set before" for off h and rest :: "(string \<times> ctype) list"
    using that by (induction before arbitrary: off) auto
  let ?at = "alignUp (alignOf t) (fieldsEnd 0 before)"
  have "offsetIn 0 fs f = Some ?at"
    using split(1) skip [OF split(2)] by simp
  moreover have notg: "g \<notin> fst ` set before" "g \<noteq> f" using split(1,3) g by (auto simp: image_iff)
  then have "offsetIn 0 fs g = offsetIn (?at + sizeOf t) after g"
    using split(1) skip [of g] by simp
  moreover obtain q where q: "offsetIn (?at + sizeOf t) after g = Some q"
    using g offsetIn_None by (metis option.exhaust)
  moreover have "?at + sizeOf t \<le> q" using offsetIn_bounds [OF q] by blast
  ultimately show "offsetOf (Struct fs) f + sizeOf t \<le> offsetOf (Struct fs) g" by simp
qed

text \<open>The layouts put the fields the provider depends on where the platform has them. The offsets
  and sizes are those the layout test froze after they were validated on hardware.\<close>

lemma layout_offsets:
  "sizeOf t_credentialAttestation = 128
   \<and> offsetOf t_credentialAttestation ''attestationObjectLen'' = 64
   \<and> offsetOf t_credentialAttestation ''attestationObject'' = 72
   \<and> offsetOf t_credentialAttestation ''credentialIDLen'' = 80
   \<and> offsetOf t_credentialAttestation ''credentialID'' = 88
   \<and> offsetOf t_credentialAttestation ''usedTransport'' = 112
   \<and> offsetOf t_credentialAttestation ''residentKey'' = 124
   \<and> offsetOf t_assertion ''authenticatorData'' = 8
   \<and> offsetOf t_assertion ''credential'' = 32
   \<and> offsetOf t_assertion ''hmacSecret'' = 112
   \<and> offsetOf t_getAssertionOptions ''hmacSecretSaltValues'' = 104
   \<and> offsetOf t_getAssertionOptions ''browserInPrivateMode'' = 112
   \<and> offsetOf t_getAssertionOptions ''credentialHints'' = 152
   \<and> sizeOf t_hmacSecretSalt = 32
   \<and> offsetOf t_hmacSecretSalt ''first'' = 8 \<and> offsetOf t_hmacSecretSalt ''second'' = 24
   \<and> sizeOf t_commonAttestation = 88
   \<and> offsetOf t_commonAttestation ''algID'' = 16 \<and> offsetOf t_commonAttestation ''signature'' = 24
   \<and> offsetOf t_commonAttestation ''x5cCount'' = 32 \<and> offsetOf t_commonAttestation ''x5c'' = 40
   \<and> sizeOf t_x5cEntry = 16 \<and> offsetOf t_x5cEntry ''data'' = 8"
  by (simp add: layouts alignUp_def)

end
