(* ===== verification/WinCalls.thy ===== *)
theory WinCalls
  imports WinLayout Crypto
begin

unbundle bit_operations_syntax

text \<open>
  \<open>fido/internal/winwebauthn/syscall_windows.go\<close>: the two calls into \<open>webauthn.dll\<close>. What a call hands
  over is a record per structure, with a typed Go pointer as the value it points to; what it gets back
  is read from the DLL's memory at the computed offsets, field by field, as the code does, and copied
  out before the structure is freed. The DLL and the conversions of \<open>golang.org/x/sys/windows\<close> are
  the fields of \<open>winapi\<close>, an argument of every definition that uses one.
\<close>

section \<open>What is handed over\<close>

type_synonym utf16 = "16 word list"

text \<open>
  A typed pointer is the value it points to or nil, a pointer to an array the list of its elements;
  the null pointers of the fields that are never set are addresses.
\<close>

record rpEntityInformation =
  rp_version :: "32 word"
  rp_id :: utf16
  rp_name :: utf16
  rp_icon :: addr

record userEntityInformation =
  user_version :: "32 word"
  user_idLen :: "32 word"
  user_id :: "bytes option"
  user_name :: utf16
  user_icon :: addr
  user_displayName :: utf16

record coseCredentialParameter =
  cose_version :: "32 word"
  cose_credentialType :: utf16
  cose_alg :: "32 word"

record coseCredentialParameters =
  cp_count :: "32 word"
  cp_parameters :: "coseCredentialParameter option"

record clientData =
  cd_version :: "32 word"
  cd_jsonLen :: "32 word"
  cd_json :: "bytes option"
  cd_hashAlgID :: utf16

record extension =
  ext_identifier :: utf16
  ext_valueLen :: "32 word"
  ext_value :: "bytes option"

record extensions =
  xs_count :: "32 word"
  xs_extensions :: "extension option"

record credentials =
  cs_count :: "32 word"
  cs_credentials :: addr

record credentialEx =
  ce_version :: "32 word"
  ce_idLen :: "32 word"
  ce_id :: "bytes option"
  ce_credentialType :: utf16
  ce_transports :: "32 word"

record credentialList =
  cl_count :: "32 word"
  cl_credentials :: "credentialEx list option"

record hmacSecretSalt =
  hs_firstLen :: "32 word"
  hs_first :: "bytes option"
  hs_secondLen :: "32 word"
  hs_second :: addr

record hmacSecretSaltValues =
  sv_globalSalt :: "hmacSecretSalt option"
  sv_listCount :: "32 word"
  sv_list :: addr

record makeCredentialOptions =
  mo_version :: "32 word"
  mo_timeoutMilliseconds :: "32 word"
  mo_excludeCredentials :: credentials
  mo_ext :: extensions
  mo_authenticatorAttachment :: "32 word"
  mo_requireResidentKey :: "32 word"
  mo_userVerificationReq :: "32 word"
  mo_attestationConveyance :: "32 word"
  mo_flags :: "32 word"

record getAssertionOptions =
  go_version :: "32 word"
  go_timeoutMilliseconds :: "32 word"
  go_allowCredentials :: credentials
  go_ext :: extensions
  go_authenticatorAttachment :: "32 word"
  go_userVerificationReq :: "32 word"
  go_flags :: "32 word"
  go_u2fAppID :: addr
  go_u2fAppIDUsed :: addr
  go_cancellationID :: addr
  go_allowCredentialList :: "credentialList option"
  go_credLargeBlobOperation :: "32 word"
  go_credLargeBlobLen :: "32 word"
  go_credLargeBlob :: addr
  go_hmacSecretSaltValues :: "hmacSecretSaltValues option"
  go_browserInPrivateMode :: "32 word"
  go_linkedDevice :: addr
  go_autoFill :: "32 word"
  go_jsonExtLen :: "32 word"
  go_jsonExt :: addr
  go_credentialHintsCount :: "32 word"
  go_credentialHints :: "utf16 list option"

text \<open>A call returns the HRESULT, the pointer it stored in \<open>out\<close> and the memory it points into.\<close>

record 'd winapi =
  UTF16PtrFromString :: "string \<Rightarrow> utf16 result"
  UTF16PtrToString :: "memory \<Rightarrow> addr \<Rightarrow> string"
  procGetConsoleWindow :: "'d \<Rightarrow> addr \<times> 'd"
  procGetApiVersionNumber :: "'d \<Rightarrow> addr \<times> 'd"
  procMakeCredential :: "addr \<Rightarrow> rpEntityInformation \<Rightarrow> userEntityInformation
    \<Rightarrow> coseCredentialParameters \<Rightarrow> clientData \<Rightarrow> makeCredentialOptions
    \<Rightarrow> 'd \<Rightarrow> (addr \<times> addr \<times> memory) \<times> 'd"
  procGetAssertion :: "addr \<Rightarrow> utf16 \<Rightarrow> clientData \<Rightarrow> getAssertionOptions
    \<Rightarrow> 'd \<Rightarrow> (addr \<times> addr \<times> memory) \<times> 'd"
  procFreeCredentialAttestation :: "addr \<Rightarrow> 'd \<Rightarrow> 'd"
  procFreeAssertion :: "addr \<Rightarrow> 'd \<Rightarrow> 'd"

section \<open>Helpers\<close>

definition bytePtr :: "bytes \<Rightarrow> bytes option" where
  "bytePtr b = (if length b = 0 then None else Some b)"

definition pointerToPointers :: "credentialEx list \<Rightarrow> credentialEx list option" where
  "pointerToPointers p = (if length p = 0 then None else Some p)"

definition uvReq :: "bool \<Rightarrow> 32 word" where
  "uvReq require = (if require then userVerificationRequired else userVerificationDiscouraged)"

definition hresultError :: "addr \<Rightarrow> goerror" where
  "hresultError hr = errorsNew ''winwebauthn: %s failed: %v (HRESULT 0x%08X)''"

definition ConsoleWindow :: "'d winapi \<Rightarrow> 'd \<Rightarrow> addr \<times> 'd" where
  "ConsoleWindow api d = procGetConsoleWindow api d"

definition APIVersion :: "'d winapi \<Rightarrow> 'd \<Rightarrow> 32 word \<times> 'd" where
  "APIVersion api d = (case procGetApiVersionNumber api d of (v, d') \<Rightarrow> (ucast v, d'))"

definition utf16E :: "'d winapi \<Rightarrow> string \<Rightarrow> (goerror, utf16, 'd) effect" where
  "utf16E api s = liftE (UTF16PtrFromString api s)"

text \<open>The client data is the same two bytes in every call.\<close>

definition clientJSON :: bytes where
  "clientJSON = bytes_of_string ''{}''"

definition clientDataFor :: "utf16 \<Rightarrow> clientData" where
  "clientDataFor hashAlg =
     \<lparr>cd_version = clientDataVersion, cd_jsonLen = uint32 (int (length clientJSON)), cd_json = bytePtr clientJSON,
      cd_hashAlgID = hashAlg\<rparr>"

section \<open>MakeCredential\<close>

record MakeCredentialRequest =
  mr_WindowHandle :: addr
  mr_RPID :: string
  mr_RPName :: string
  mr_UserID :: bytes
  mr_UserName :: string
  mr_RequireUserVerification :: bool
  mr_TimeoutMilliseconds :: "32 word"

record MakeCredentialResult =
  mc_CredentialID :: bytes
  mc_ResidentKey :: bool
  mc_ResidentKeyKnown :: bool
  mc_AuthenticatorData :: bytes
  mc_AttestationFormat :: string
  mc_AttestationAlg :: int
  mc_AttestationSignature :: bytes
  mc_AttestationCerts :: "bytes list"
  mc_ClientDataHash :: bytes

text \<open>The embedded list of credentials that stays empty, and the one extension: a BOOL that is true.\<close>

definition noCredentials :: credentials where
  "noCredentials = \<lparr>cs_count = 0, cs_credentials = 0\<rparr>"

definition hmacExtension :: "utf16 \<Rightarrow> extension" where
  "hmacExtension hmacID =
     \<lparr>ext_identifier = hmacID, ext_valueLen = of_nat (sizeOf I32), ext_value = Some [1, 0, 0, 0]\<rparr>"

definition makeOptions :: "MakeCredentialRequest \<Rightarrow> utf16 \<Rightarrow> makeCredentialOptions" where
  "makeOptions req hmacID =
     \<lparr>mo_version = makeCredentialOptionsVersion, mo_timeoutMilliseconds = mr_TimeoutMilliseconds req,
      mo_excludeCredentials = noCredentials,
      mo_ext = \<lparr>xs_count = 1, xs_extensions = Some (hmacExtension hmacID)\<rparr>,
      mo_authenticatorAttachment = attachmentCrossPlatform, mo_requireResidentKey = 0,
      mo_userVerificationReq = uvReq (mr_RequireUserVerification req),
      mo_attestationConveyance = attestationConveyanceDirect, mo_flags = 0\<rparr>"

definition rpEntity :: "utf16 \<Rightarrow> utf16 \<Rightarrow> rpEntityInformation" where
  "rpEntity rpID rpName =
     \<lparr>rp_version = rpEntityInformationVersion, rp_id = rpID, rp_name = rpName, rp_icon = 0\<rparr>"

definition userEntity :: "MakeCredentialRequest \<Rightarrow> utf16 \<Rightarrow> userEntityInformation" where
  "userEntity req userName =
     \<lparr>user_version = userEntityInformationVersion, user_idLen = uint32 (int (length (mr_UserID req))),
      user_id = bytePtr (mr_UserID req), user_name = userName, user_icon = 0, user_displayName = userName\<rparr>"

definition es256Only :: "utf16 \<Rightarrow> coseCredentialParameters" where
  "es256Only credType =
     \<lparr>cp_count = 1, cp_parameters = Some \<lparr>cose_version = coseCredentialParameterVersion,
        cose_credentialType = credType, cose_alg = coseAlgorithmES256\<rparr>\<rparr>"

text \<open>The loop over \<open>x5c\<close>: entry \<open>i\<close> of the array is a structure of its own size.\<close>

definition readCerts :: "memory \<Rightarrow> addr \<Rightarrow> nat \<Rightarrow> bytes list" where
  "readCerts m p n =
     map (\<lambda>i. let e = p + of_nat (i * sizeOf t_x5cEntry)
              in asBytes m (load64 m (field e t_x5cEntry ''data''))
                   (load32 m (field e t_x5cEntry ''dataLen''))) [0..<n]"

text \<open>The resident-key flag, read only from a structure whose version has it.\<close>

definition readResidentKey :: "memory \<Rightarrow> addr \<Rightarrow> bool \<times> bool" where
  "readResidentKey m p =
     (if credentialAttestationVersionResidentKey \<le> load32 m (field p t_credentialAttestation ''version'')
      then (True, load32 m (field p t_credentialAttestation ''residentKey'') \<noteq> 0)
      else (False, False))"

text \<open>Format, algorithm, signature and chain, when the DLL decoded the statement.\<close>

definition readAttestation ::
  "'d winapi \<Rightarrow> memory \<Rightarrow> addr \<Rightarrow> string \<times> int \<times> bytes \<times> bytes list" where
  "readAttestation api m p =
     (let att = load64 m (field p t_credentialAttestation ''attestationDecode'');
          fmt = load64 m (field p t_credentialAttestation ''formatType'') in
      if load32 m (field p t_credentialAttestation ''attestationDecodeType'') = attestationDecodeCommon
         \<and> att \<noteq> 0 then
        let x5c = load64 m (field att t_commonAttestation ''x5c'');
            x5cCount = load32 m (field att t_commonAttestation ''x5cCount'') in
        (if fmt \<noteq> 0 then UTF16PtrToString api m fmt else [],
         sint (load32 m (field att t_commonAttestation ''algID'')),
         asBytes m (load64 m (field att t_commonAttestation ''signature''))
           (load32 m (field att t_commonAttestation ''signatureLen'')),
         if x5c \<noteq> 0 \<and> 0 < x5cCount then readCerts m x5c (unat x5cCount) else [])
      else ([], 0, [], []))"

definition readCredential ::
  "'z prims_scheme \<Rightarrow> 'd winapi \<Rightarrow> memory \<Rightarrow> addr \<Rightarrow> MakeCredentialResult" where
  "readCredential p api m out =
     (case readAttestation api m out of (format, alg, signature, certs) \<Rightarrow>
      case readResidentKey m out of (known, resident) \<Rightarrow>
      \<lparr>mc_CredentialID = asBytes m (load64 m (field out t_credentialAttestation ''credentialID''))
         (load32 m (field out t_credentialAttestation ''credentialIDLen'')),
       mc_ResidentKey = resident, mc_ResidentKeyKnown = known,
       mc_AuthenticatorData = asBytes m (load64 m (field out t_credentialAttestation ''authenticatorData''))
         (load32 m (field out t_credentialAttestation ''authenticatorDataLen'')),
       mc_AttestationFormat = format, mc_AttestationAlg = alg, mc_AttestationSignature = signature,
       mc_AttestationCerts = certs, mc_ClientDataHash = sha256Sum p clientJSON\<rparr>)"

definition MakeCredential ::
  "'z prims_scheme \<Rightarrow> 'd winapi \<Rightarrow> MakeCredentialRequest \<Rightarrow> (goerror, MakeCredentialResult, 'd) effect" where
  "MakeCredential p api req =
     bindE (utf16E api (mr_RPID req)) (\<lambda>rpID.
     bindE (utf16E api (mr_RPName req)) (\<lambda>rpName.
     bindE (utf16E api (mr_UserName req)) (\<lambda>userName.
     bindE (utf16E api credentialTypePublicKey) (\<lambda>credType.
     bindE (utf16E api hashAlgorithmSHA256) (\<lambda>hashAlg.
     bindE (utf16E api extensionIdentifierHMACSecret) (\<lambda>hmacID. \<lambda>d.
     case procMakeCredential api (mr_WindowHandle req)
            (rpEntity rpID rpName) (userEntity req userName) (es256Only credType)
            (clientDataFor hashAlg) (makeOptions req hmacID) d of
       ((hr, out, m), d') \<Rightarrow>
         if hr \<noteq> 0 then (Inl (hresultError hr), d')
         else if out = 0 then
           (Inl (errorsNew ''winwebauthn: MakeCredential returned no attestation''), d')
         else (Inr (readCredential p api m out), procFreeCredentialAttestation api out d')))))))"

section \<open>GetAssertion\<close>

record GetAssertionRequest =
  gr_WindowHandle :: addr
  gr_RPID :: string
  gr_CredentialIDs :: "bytes list"
  gr_Salt :: bytes
  gr_RequireUserVerification :: bool
  gr_TimeoutMilliseconds :: "32 word"

record GetAssertionResult =
  ga_AuthenticatorData :: bytes
  ga_AnsweringCredential :: bytes
  ga_HMACSecret :: bytes

definition allowEntry :: "utf16 \<Rightarrow> bytes \<Rightarrow> credentialEx" where
  "allowEntry credType i =
     \<lparr>ce_version = credentialExVersion, ce_idLen = uint32 (int (length i)), ce_id = bytePtr i,
      ce_credentialType = credType, ce_transports = transportAny\<rparr>"

definition saltValuesFor :: "bytes \<Rightarrow> hmacSecretSaltValues" where
  "saltValuesFor salt =
     \<lparr>sv_globalSalt = Some \<lparr>hs_firstLen = uint32 (int (length salt)), hs_first = bytePtr salt,
        hs_secondLen = 0, hs_second = 0\<rparr>, sv_listCount = 0, sv_list = 0\<rparr>"

definition allowListFor :: "utf16 \<Rightarrow> bytes list \<Rightarrow> credentialList" where
  "allowListFor credType ids =
     (let pointers = map (allowEntry credType) ids
      in \<lparr>cl_count = uint32 (int (length pointers)), cl_credentials = pointerToPointers pointers\<rparr>)"

text \<open>The options, with the hints set where there are any.\<close>

definition assertionOptions ::
  "GetAssertionRequest \<Rightarrow> utf16 \<Rightarrow> 32 word \<Rightarrow> utf16 list \<Rightarrow> getAssertionOptions" where
  "assertionOptions req credType version hints =
     (let opts =
        \<lparr>go_version = version, go_timeoutMilliseconds = gr_TimeoutMilliseconds req,
         go_allowCredentials = noCredentials, go_ext = \<lparr>xs_count = 0, xs_extensions = None\<rparr>,
         go_authenticatorAttachment = attachmentCrossPlatform,
         go_userVerificationReq = uvReq (gr_RequireUserVerification req),
         go_flags = assertionHMACSecretValuesFlag,
         go_u2fAppID = 0, go_u2fAppIDUsed = 0, go_cancellationID = 0,
         go_allowCredentialList = Some (allowListFor credType (gr_CredentialIDs req)),
         go_credLargeBlobOperation = 0, go_credLargeBlobLen = 0, go_credLargeBlob = 0,
         go_hmacSecretSaltValues = Some (saltValuesFor (gr_Salt req)),
         go_browserInPrivateMode = 0, go_linkedDevice = 0, go_autoFill = 0, go_jsonExtLen = 0,
         go_jsonExt = 0, go_credentialHintsCount = 0, go_credentialHints = None\<rparr>
      in if 0 < length hints
         then opts\<lparr>go_credentialHintsCount := uint32 (int (length hints)), go_credentialHints := Some hints\<rparr>
         else opts)"

definition readAssertion :: "memory \<Rightarrow> addr \<Rightarrow> GetAssertionResult" where
  "readAssertion m out =
     (let cred = field out t_assertion ''credential'';
          hmac = load64 m (field out t_assertion ''hmacSecret'') in
      \<lparr>ga_AuthenticatorData = asBytes m (load64 m (field out t_assertion ''authenticatorData''))
         (load32 m (field out t_assertion ''authenticatorDataLen'')),
       ga_AnsweringCredential = asBytes m (load64 m (field cred t_credential ''id''))
         (load32 m (field cred t_credential ''idLen'')),
       ga_HMACSecret =
         (if hmac \<noteq> 0 then asBytes m (load64 m (field hmac t_hmacSecretSalt ''first''))
            (load32 m (field hmac t_hmacSecretSalt ''firstLen'')) else [])\<rparr>)"

text \<open>The version and the hints: 7 and \<open>security-key\<close> where the platform knows them, else 6.\<close>

definition versionAndHints :: "'d winapi \<Rightarrow> (goerror, 32 word \<times> utf16 list, 'd) effect" where
  "versionAndHints api = (\<lambda>d.
     case APIVersion api d of (v, d') \<Rightarrow>
       if apiVersionForHints \<le> v then
         bindE (utf16E api credentialHintSecurityKey) (\<lambda>hint.
           returnE (getAssertionOptionsVersionHints, [hint])) d'
       else (Inr (getAssertionOptionsVersionSalt, []), d'))"

definition GetAssertion :: "'d winapi \<Rightarrow> GetAssertionRequest \<Rightarrow> (goerror, GetAssertionResult, 'd) effect" where
  "GetAssertion api req =
     bindE (utf16E api (gr_RPID req)) (\<lambda>rpID.
     bindE (utf16E api credentialTypePublicKey) (\<lambda>credType.
     bindE (utf16E api hashAlgorithmSHA256) (\<lambda>hashAlg.
     bindE (versionAndHints api) (\<lambda>(version, hints). \<lambda>d.
     case procGetAssertion api (gr_WindowHandle req) rpID (clientDataFor hashAlg)
            (assertionOptions req credType version hints) d of
       ((hr, out, m), d') \<Rightarrow>
         if hr \<noteq> 0 then (Inl (hresultError hr), d')
         else if out = 0 then
           (Inl (errorsNew ''winwebauthn: GetAssertion returned no assertion''), d')
         else (Inr (readAssertion m out), procFreeAssertion api out d')))))"

section \<open>Facts\<close>

lemma assertionOptions_sel [simp]:
  "go_allowCredentialList (assertionOptions req credType version hints) =
     Some (allowListFor credType (gr_CredentialIDs req))"
  "go_hmacSecretSaltValues (assertionOptions req credType version hints) = Some (saltValuesFor (gr_Salt req))"
  "go_version (assertionOptions req credType version hints) = version"
  "go_userVerificationReq (assertionOptions req credType version hints) = uvReq (gr_RequireUserVerification req)"
  by (simp_all add: assertionOptions_def Let_def)

lemma allowListFor_ids:
  assumes "[] \<notin> set ids"
  shows "(case cl_credentials (allowListFor credType ids) of Some es \<Rightarrow> map ce_id es | None \<Rightarrow> []) = map Some ids"
  using assms by (auto simp: allowListFor_def Let_def pointerToPointers_def allowEntry_def bytePtr_def)

lemma utf16E_results [results]:
  "utf16E api s d = (Inr u, d') \<longleftrightarrow> UTF16PtrFromString api s = Inr u \<and> d' = d"
  "utf16E api s d = (Inl e, d') \<longleftrightarrow> UTF16PtrFromString api s = Inl e \<and> d' = d"
  by (auto simp: utf16E_def)

lemma MakeCredential_ok:
  assumes "MakeCredential p api req d = (Inr res, d')"
  shows "\<exists>rp user params client opts m out d1.
    procMakeCredential api (mr_WindowHandle req) rp user params client opts d = ((0, out, m), d1)
    \<and> out \<noteq> 0 \<and> res = readCredential p api m out \<and> d' = procFreeCredentialAttestation api out d1
    \<and> mo_requireResidentKey opts = 0 \<and> mo_attestationConveyance opts = 3
    \<and> mo_authenticatorAttachment opts = 2
    \<and> mo_userVerificationReq opts = (if mr_RequireUserVerification req then 1 else 3)
    \<and> mo_timeoutMilliseconds opts = mr_TimeoutMilliseconds req
    \<and> cp_count params = 1 \<and> map_option cose_alg (cp_parameters params) = Some (- 7) \<and> cd_json client = Some (bytes_of_string ''{}'')
    \<and> UTF16PtrFromString api (mr_RPID req) = Inr (rp_id rp)
    \<and> map_option (\<lambda>e. UTF16PtrFromString api ''hmac-secret'' = Inr (ext_identifier e)) (xs_extensions (mo_ext opts)) = Some True"
proof -
  obtain rpID rpName userName credType hashAlg hmacID where
      conv: "UTF16PtrFromString api (mr_RPID req) = Inr rpID"
        "UTF16PtrFromString api extensionIdentifierHMACSecret = Inr hmacID"
    and call: "(case procMakeCredential api (mr_WindowHandle req)
            (rpEntity rpID rpName) (userEntity req userName) (es256Only credType)
            (clientDataFor hashAlg) (makeOptions req hmacID) d of
       ((hr, out, m), d') \<Rightarrow>
         if hr \<noteq> 0 then (Inl (hresultError hr), d')
         else if out = 0 then
           (Inl (errorsNew ''winwebauthn: MakeCredential returned no attestation''), d')
         else (Inr (readCredential p api m out), procFreeCredentialAttestation api out d')) = (Inr res, d')"
    using assms unfolding MakeCredential_def by (auto simp only: results)
  obtain hr out m d1 where made: "procMakeCredential api (mr_WindowHandle req)
            (rpEntity rpID rpName) (userEntity req userName) (es256Only credType)
            (clientDataFor hashAlg) (makeOptions req hmacID) d = ((hr, out, m), d1)"
    by (metis prod.collapse)
  have "hr = 0 \<and> out \<noteq> 0 \<and> res = readCredential p api m out \<and> d' = procFreeCredentialAttestation api out d1"
    using call made by (auto split: if_splits)
  then show ?thesis
    using made conv
    by (intro exI conjI, fast)
      (simp_all add: makeOptions_def hmacExtension_def rpEntity_def es256Only_def uvReq_def clientDataFor_def clientJSON_def bytePtr_def coseAlgorithmES256_def
          attachmentCrossPlatform_def attestationConveyanceDirect_def userVerificationRequired_def
          userVerificationDiscouraged_def extensionIdentifierHMACSecret_def)
qed

lemma GetAssertion_ok:
  assumes "GetAssertion api req d = (Inr res, d')"
  shows "\<exists>rpID credType hashAlg version hints out m d1 d2.
    UTF16PtrFromString api (gr_RPID req) = Inr rpID
    \<and> versionAndHints api d = (Inr (version, hints), d1)
    \<and> procGetAssertion api (gr_WindowHandle req) rpID (clientDataFor hashAlg)
        (assertionOptions req credType version hints) d1 = ((0, out, m), d2)
    \<and> out \<noteq> 0 \<and> res = readAssertion m out \<and> d' = procFreeAssertion api out d2"
proof -
  obtain rpID credType hashAlg version hints d1 where
      conv: "UTF16PtrFromString api (gr_RPID req) = Inr rpID"
    and ver: "versionAndHints api d = (Inr (version, hints), d1)"
    and call: "(case procGetAssertion api (gr_WindowHandle req) rpID (clientDataFor hashAlg)
            (assertionOptions req credType version hints) d1 of
       ((hr, out, m), d') \<Rightarrow>
         if hr \<noteq> 0 then (Inl (hresultError hr), d')
         else if out = 0 then
           (Inl (errorsNew ''winwebauthn: GetAssertion returned no assertion''), d')
         else (Inr (readAssertion m out), procFreeAssertion api out d')) = (Inr res, d')"
    using assms unfolding GetAssertion_def by (fastforce simp only: results prod.case split_paired_Ex)
  obtain hr out m d2 where made: "procGetAssertion api (gr_WindowHandle req) rpID (clientDataFor hashAlg)
            (assertionOptions req credType version hints) d1 = ((hr, out, m), d2)"
    by (metis prod.collapse)
  have "hr = 0 \<and> out \<noteq> 0 \<and> res = readAssertion m out \<and> d' = procFreeAssertion api out d2"
    using call made by (auto split: if_splits)
  then show ?thesis using made conv ver by blast
qed

text \<open>Memory that agrees on \<open>n\<close> bytes from an address gives the same loads there.\<close>

lemma load_cong:
  "(\<And>i. i < 4 \<Longrightarrow> m (p + of_nat i) = m' (p + of_nat i)) \<Longrightarrow> load32 m p = load32 m' p"
  "(\<And>i. i < 8 \<Longrightarrow> m (p + of_nat i) = m' (p + of_nat i)) \<Longrightarrow> load64 m p = load64 m' p"
  using loadBytes_cong [of 4 m p m'] loadBytes_cong [of 8 m p m'] by (auto simp: load32_def load64_def)

lemma offset_values:
  "offsetOf t_credentialAttestation ''version'' = 0"
  "offsetOf t_credentialAttestation ''formatType'' = 8"
  "offsetOf t_credentialAttestation ''authenticatorDataLen'' = 16"
  "offsetOf t_credentialAttestation ''authenticatorData'' = 24"
  "offsetOf t_credentialAttestation ''attestationDecodeType'' = 48"
  "offsetOf t_credentialAttestation ''attestationDecode'' = 56"
  "offsetOf t_credentialAttestation ''credentialIDLen'' = 80"
  "offsetOf t_credentialAttestation ''credentialID'' = 88"
  "offsetOf t_credentialAttestation ''residentKey'' = 124"
  by (simp_all add: layouts alignUp_def)

text \<open>Below version 3 the flag is not read: the result does not depend on memory behind the fields of
  version 1, which end at offset 112.\<close>

lemma readResidentKey_gate:
  assumes "load32 m out < 3"
  shows "readResidentKey m out = (False, False)"
  using assms by (simp add: readResidentKey_def field_def offset_values
      credentialAttestationVersionResidentKey_def not_le)

end
