(* ===== verification/WinReads.thy ===== *)
theory WinReads
  imports WinCalls
begin

text \<open>
  What the two calls read of the memory of \<open>webauthn.dll\<close>, stated with the offsets of \<open>webauthn.h\<close> on a
  64-bit platform instead of the computed layouts: which bytes the result depends on, and, for an
  assertion, what the result is.
\<close>

section \<open>Sets of addresses\<close>

text \<open>The \<open>n\<close> bytes from \<open>p\<close> on, and the bytes of a buffer that is given by pointer and length.\<close>

definition span :: "addr \<Rightarrow> nat \<Rightarrow> addr set" where
  "span p n = {a. unat (a - p) < n}"

definition bufferAt :: "addr \<Rightarrow> 32 word \<Rightarrow> addr set" where
  "bufferAt p n = span p (if p = 0 then 0 else unat n)"

definition agreeOn :: "addr set \<Rightarrow> memory \<Rightarrow> memory \<Rightarrow> bool" where
  "agreeOn A m m' \<longleftrightarrow> (\<forall>a \<in> A. m' a = m a)"

lemma span_memI: "i < n \<Longrightarrow> p + of_nat i \<in> span p n"
proof -
  assume "i < n"
  have "unat (p + of_nat i - p) \<le> i" by (simp add: unat_of_nat)
  with \<open>i < n\<close> show ?thesis by (simp add: span_def del: add_diff_cancel_left')
qed

lemma agreeOn_Un [simp]: "agreeOn (A \<union> B) m m' \<longleftrightarrow> agreeOn A m m' \<and> agreeOn B m m'"
  by (auto simp: agreeOn_def)

lemma agreeOn_UN: "agreeOn (\<Union>i \<in> I. F i) m m' \<Longrightarrow> i \<in> I \<Longrightarrow> agreeOn (F i) m m'"
  by (auto simp: agreeOn_def)

lemma agreeOn_loads:
  "agreeOn (span p 4) m m' \<Longrightarrow> load32 m' p = load32 m p"
  "agreeOn (span p 8) m m' \<Longrightarrow> load64 m' p = load64 m p"
  "agreeOn (bufferAt p n) m m' \<Longrightarrow> asBytes m' p n = asBytes m p n"
proof -
  show "agreeOn (span p 4) m m' \<Longrightarrow> load32 m' p = load32 m p"
    by (rule load_cong) (simp add: agreeOn_def span_memI)
  show "agreeOn (span p 8) m m' \<Longrightarrow> load64 m' p = load64 m p"
    by (rule load_cong) (simp add: agreeOn_def span_memI)
  show "agreeOn (bufferAt p n) m m' \<Longrightarrow> asBytes m' p n = asBytes m p n"
    by (auto simp: asBytes_def bufferAt_def agreeOn_def intro!: loadBytes_cong span_memI)
qed

section \<open>What each read depends on\<close>

text \<open>The bytes of entry \<open>i\<close> of a chain of certificates, those of a decoded attestation, those of an
  attested credential: the resident-key flag at 124 only from version 3 on.\<close>

definition x5cFootprint :: "memory \<Rightarrow> addr \<Rightarrow> nat \<Rightarrow> addr set" where
  "x5cFootprint m x5c i =
     (let e = x5c + of_nat (i * 16) in span e 4 \<union> span (e + 8) 8 \<union> bufferAt (load64 m (e + 8)) (load32 m e))"

definition attestationFootprint :: "memory \<Rightarrow> addr \<Rightarrow> addr set" where
  "attestationFootprint m att =
     span (att + 16) 4 \<union> span (att + 20) 4 \<union> span (att + 24) 8 \<union> span (att + 32) 4 \<union> span (att + 40) 8
     \<union> bufferAt (load64 m (att + 24)) (load32 m (att + 20))
     \<union> (if load64 m (att + 40) = 0 then {}
        else \<Union>i \<in> {..<unat (load32 m (att + 32))}. x5cFootprint m (load64 m (att + 40)) i)"

definition credentialFootprint :: "memory \<Rightarrow> addr \<Rightarrow> addr set" where
  "credentialFootprint m out =
     span out 4 \<union> span (out + 8) 8 \<union> span (out + 16) 4 \<union> span (out + 24) 8 \<union> span (out + 48) 4
     \<union> span (out + 56) 8 \<union> span (out + 80) 4 \<union> span (out + 88) 8
     \<union> (if 3 \<le> load32 m out then span (out + 124) 4 else {})
     \<union> bufferAt (load64 m (out + 24)) (load32 m (out + 16))
     \<union> bufferAt (load64 m (out + 88)) (load32 m (out + 80))
     \<union> (if load32 m (out + 48) = 1 \<and> load64 m (out + 56) \<noteq> 0
        then attestationFootprint m (load64 m (out + 56)) else {})"

text \<open>An assertion: the credential is embedded at 32, the pointer to the hmac-secret output is at 112.\<close>

definition assertionFootprint :: "memory \<Rightarrow> addr \<Rightarrow> addr set" where
  "assertionFootprint m out =
     span (out + 4) 4 \<union> span (out + 8) 8 \<union> span (out + 36) 4 \<union> span (out + 40) 8 \<union> span (out + 112) 8
     \<union> bufferAt (load64 m (out + 8)) (load32 m (out + 4))
     \<union> bufferAt (load64 m (out + 40)) (load32 m (out + 36))
     \<union> (let hmac = load64 m (out + 112) in
        if hmac = 0 then {}
        else span hmac 4 \<union> span (hmac + 8) 8 \<union> bufferAt (load64 m (hmac + 8)) (load32 m hmac))"

definition assertionAt :: "memory \<Rightarrow> addr \<Rightarrow> GetAssertionResult" where
  "assertionAt m out =
     \<lparr>ga_AuthenticatorData = asBytes m (load64 m (out + 8)) (load32 m (out + 4)),
      ga_AnsweringCredential = asBytes m (load64 m (out + 40)) (load32 m (out + 36)),
      ga_HMACSecret = (let hmac = load64 m (out + 112) in
        if hmac = 0 then [] else asBytes m (load64 m (hmac + 8)) (load32 m hmac))\<rparr>"

lemma assertion_offsets:
  "offsetOf t_assertion ''credential'' = 32" "offsetOf t_assertion ''hmacSecret'' = 112"
  "offsetOf t_assertion ''authenticatorData'' = 8" "offsetOf t_assertion ''authenticatorDataLen'' = 4"
  "offsetOf t_credential ''id'' = 8" "offsetOf t_credential ''idLen'' = 4"
  "offsetOf t_hmacSecretSalt ''first'' = 8" "offsetOf t_hmacSecretSalt ''firstLen'' = 0"
  by (simp_all add: layouts alignUp_def)

lemma common_offsets:
  "offsetOf t_commonAttestation ''algID'' = 16" "offsetOf t_commonAttestation ''signatureLen'' = 20"
  "offsetOf t_commonAttestation ''signature'' = 24" "offsetOf t_commonAttestation ''x5cCount'' = 32"
  "offsetOf t_commonAttestation ''x5c'' = 40" "offsetOf t_x5cEntry ''dataLen'' = 0"
  "offsetOf t_x5cEntry ''data'' = 8" "sizeOf t_x5cEntry = 16"
  by (simp_all add: layouts alignUp_def)

lemma readAssertion_at: "readAssertion m out = assertionAt m out"
  by (simp add: readAssertion_def assertionAt_def field_def assertion_offsets Let_def add.assoc)

lemma readCerts_agree:
  assumes "agreeOn (\<Union>i \<in> {..<n}. x5cFootprint m x5c i) m m'"
  shows "readCerts m' x5c n = readCerts m x5c n"
proof -
  have "agreeOn (x5cFootprint m x5c i) m m'" if "i < n" for i
    using agreeOn_UN [OF assms] that by blast
  then show ?thesis
    by (auto simp: readCerts_def x5cFootprint_def Let_def field_def common_offsets agreeOn_loads [where m = m and m' = m'])
qed

lemma readAttestation_agree:
  assumes "agreeOn (span (out + 8) 8) m m'" "agreeOn (span (out + 48) 4) m m'" "agreeOn (span (out + 56) 8) m m'"
    and "load32 m (out + 48) = 1 \<Longrightarrow> load64 m (out + 56) \<noteq> 0
      \<Longrightarrow> agreeOn (attestationFootprint m (load64 m (out + 56))) m m'"
    and "load64 m (out + 8) \<noteq> 0
      \<Longrightarrow> UTF16PtrToString api m' (load64 m (out + 8)) = UTF16PtrToString api m (load64 m (out + 8))"
  shows "readAttestation api m' out = readAttestation api m out"
proof (cases "load32 m (out + 48) = 1 \<and> load64 m (out + 56) \<noteq> 0")
  case False
  then show ?thesis
    using agreeOn_loads(1) [OF assms(2)] agreeOn_loads(2) [OF assms(3)]
    by (auto simp: readAttestation_def Let_def field_def offset_values attestationDecodeCommon_def)
next
  case True
  define att where "att = load64 m (out + 56)"
  have own: "agreeOn (attestationFootprint m att) m m'" using assms(4) True by (simp add: att_def)
  then have fields: "load32 m' (att + 16) = load32 m (att + 16)" "load32 m' (att + 20) = load32 m (att + 20)"
      "load64 m' (att + 24) = load64 m (att + 24)" "load32 m' (att + 32) = load32 m (att + 32)"
      "load64 m' (att + 40) = load64 m (att + 40)"
      "asBytes m' (load64 m (att + 24)) (load32 m (att + 20)) = asBytes m (load64 m (att + 24)) (load32 m (att + 20))"
    by (simp_all add: attestationFootprint_def agreeOn_loads [where m = m and m' = m'])
  have "readCerts m' (load64 m (att + 40)) (unat (load32 m (att + 32))) =
      readCerts m (load64 m (att + 40)) (unat (load32 m (att + 32)))" if "load64 m (att + 40) \<noteq> 0"
    using own that by (intro readCerts_agree) (simp add: attestationFootprint_def)
  with fields assms(5) agreeOn_loads(1) [OF assms(2)] agreeOn_loads(2) [OF assms(3)] agreeOn_loads(2) [OF assms(1)]
  show ?thesis
    using True
    by (simp add: readAttestation_def Let_def field_def offset_values common_offsets attestationDecodeCommon_def
        flip: att_def)
qed

lemma readCredential_agree:
  assumes "agreeOn (credentialFootprint m out) m m'"
    and "load64 m (out + 8) \<noteq> 0
      \<Longrightarrow> UTF16PtrToString api m' (load64 m (out + 8)) = UTF16PtrToString api m (load64 m (out + 8))"
  shows "readCredential p api m' out = readCredential p api m out"
proof -
  have "readAttestation api m' out = readAttestation api m out"
    using assms by (intro readAttestation_agree) (simp_all add: credentialFootprint_def)
  moreover have "load32 m' out = load32 m out" "load64 m' (out + 24) = load64 m (out + 24)"
      "load32 m' (out + 16) = load32 m (out + 16)" "load32 m' (out + 80) = load32 m (out + 80)"
      "load64 m' (out + 88) = load64 m (out + 88)"
      "asBytes m' (load64 m (out + 24)) (load32 m (out + 16)) = asBytes m (load64 m (out + 24)) (load32 m (out + 16))"
      "asBytes m' (load64 m (out + 88)) (load32 m (out + 80)) = asBytes m (load64 m (out + 88)) (load32 m (out + 80))"
      "3 \<le> load32 m out \<Longrightarrow> load32 m' (out + 124) = load32 m (out + 124)"
    using assms(1) by (simp_all add: credentialFootprint_def agreeOn_loads [where m = m and m' = m'])
  ultimately show ?thesis
    by (simp add: readCredential_def readResidentKey_def field_def offset_values
        credentialAttestationVersionResidentKey_def)
qed

lemma readAssertion_agree:
  assumes "agreeOn (assertionFootprint m out) m m'"
  shows "readAssertion m' out = readAssertion m out"
  using assms by (simp add: readAssertion_at assertionAt_def assertionFootprint_def Let_def agreeOn_loads [where m = m and m' = m'] split: if_splits)

lemma agreeOn_upd: "a \<notin> A \<Longrightarrow> agreeOn A m (m(a := b))"
  by (auto simp: agreeOn_def)


end
