(* ===== verification/Fido.thy ===== *)
theory Fido
  imports WinReads
begin

text \<open>
  Package \<open>fido\<close>: the single door to hardware. \<open>refuse.go\<close> and \<open>fido.go\<close> are the guards in front of it
  and \<open>New\<close>; \<open>webauthn_windows.go\<close> is the provider, an \<open>Authenticator\<close> built on the two calls of
  \<open>WinCalls\<close>. Whether the process is a test binary, its environment and the platform it was built for
  are the \<open>host\<close>, an argument.
\<close>

section \<open>The guards\<close>

record host =
  h_testing :: bool
  h_env :: "string \<Rightarrow> string option"
  h_windows :: bool

definition agentEnvMarkers :: "string list" where
  "agentEnvMarkers =
     [''CLAUDECODE'', ''CLAUDE_CODE_ENTRYPOINT'', ''CLAUDE_CODE_SESSION_ID'', ''CLAUDE_CODE_EXECPATH'',
      ''QWEN_CODE'', ''GEMINI_CLI'']"

definition RefuseUnderTest :: "host \<Rightarrow> unit result" where
  "RefuseUnderTest h = (if h_testing h then failWith ErrUnderTest else Inr ())"

fun refuseMarkers :: "(string \<Rightarrow> string option) \<Rightarrow> string list \<Rightarrow> unit result" where
  "refuseMarkers env [] = Inr ()"
| "refuseMarkers env (name # rest) =
     (case env name of
        Some v \<Rightarrow> Inl (wrap ''%w: %s is set'' (Sentinel ErrUnderAgent))
      | None \<Rightarrow> refuseMarkers env rest)"

definition RefuseUnderAgent :: "host \<Rightarrow> unit result" where
  "RefuseUnderAgent h = refuseMarkers (h_env h) agentEnvMarkers"

definition RefuseAutomatedContext :: "host \<Rightarrow> unit result" where
  "RefuseAutomatedContext h = bindR (RefuseUnderTest h) (\<lambda>_. RefuseUnderAgent h)"

section \<open>The provider\<close>

text \<open>\<open>uint32(d.Milliseconds())\<close> of a duration in nanoseconds; the durations here are positive.\<close>

definition milliseconds32 :: "int \<Rightarrow> 32 word" where
  "milliseconds32 d = uint32 (d div 1000000)"

definition makeRequest :: "EnrollRequest \<Rightarrow> addr \<Rightarrow> MakeCredentialRequest" where
  "makeRequest req window =
     \<lparr>mr_WindowHandle = window, mr_RPID = eq_RPID req, mr_RPName = eq_RPName req,
      mr_UserID = eq_UserID req, mr_UserName = eq_UserName req,
      mr_RequireUserVerification = (eq_UV req = UVRequired),
      mr_TimeoutMilliseconds = milliseconds32 (EnrollRequest_TimeoutOrDefault req)\<rparr>"

definition Enroll ::
  "'z prims_scheme \<Rightarrow> 'd winapi \<Rightarrow> EnrollRequest \<Rightarrow> 'd \<Rightarrow> EnrollResult result \<times> 'd" where
  "Enroll p api req =
     bindE (\<lambda>d. case ConsoleWindow api d of (h, d') \<Rightarrow> (Inr h, d')) (\<lambda>window.
     bindE (MakeCredential p api (makeRequest req window)) (\<lambda>res.
     if length (mc_CredentialID res) = 0 then throwE (errorsNew ''fido: no credential ID returned'')
     else returnE
       \<lparr>er_CredentialID = mc_CredentialID res, er_PRFEnabled = True,
        er_ResidentKey = mc_ResidentKey res, er_AttestationFormat = mc_AttestationFormat res,
        er_AttestationAlg = mc_AttestationAlg res,
        er_AttestationSignature = mc_AttestationSignature res,
        er_AuthenticatorData = mc_AuthenticatorData res, er_ClientDataHash = mc_ClientDataHash res,
        er_AttestationCerts = mc_AttestationCerts res\<rparr>))"

text \<open>The flags byte of the signed authenticator data, bit 0 and bit 2.\<close>

definition flagsAt :: nat where
  "flagsAt = 32"

text \<open>The end of \<open>Derive\<close>: what it makes of the assertion.\<close>

definition decodeAssertion :: "DeriveRequest \<Rightarrow> GetAssertionResult \<Rightarrow> DeriveResult result" where
  "decodeAssertion req res =
     (if length (ga_HMACSecret res) = 0 then failWith ErrNoPRF
      else if length (ga_AuthenticatorData res) < 33 then failWith ErrNoAuthenticatorData
      else
      let flags = ga_AuthenticatorData res ! flagsAt in
      bindR (if length (ga_AnsweringCredential res) = 0 then
               if length (dq_CredentialIDs req) \<noteq> 1 then
                 Inl (errorsNew ''fido: assertion did not say which of %d credentials answered'')
               else Inr (dq_CredentialIDs req ! 0)
             else Inr (ga_AnsweringCredential res)) (\<lambda>answered.
      Inr \<lparr>dr_Secret = ga_HMACSecret res, dr_CredentialID = answered,
           dr_UserPresent = (flags AND 1 \<noteq> 0), dr_UserVerified = (flags AND 4 \<noteq> 0)\<rparr>))"

definition assertionRequest :: "DeriveRequest \<Rightarrow> addr \<Rightarrow> GetAssertionRequest" where
  "assertionRequest req window =
     \<lparr>gr_WindowHandle = window, gr_RPID = dq_RPID req, gr_CredentialIDs = dq_CredentialIDs req,
      gr_Salt = dq_Salt req, gr_RequireUserVerification = (dq_UV req = UVRequired),
      gr_TimeoutMilliseconds = milliseconds32 (DeriveRequest_TimeoutOrDefault req)\<rparr>"

definition Derive ::
  "'d winapi \<Rightarrow> DeriveRequest \<Rightarrow> 'd \<Rightarrow> DeriveResult result \<times> 'd" where
  "Derive api req =
     bindE (liftE (Validate req)) (\<lambda>_.
     bindE (\<lambda>d. case ConsoleWindow api d of (h, d') \<Rightarrow> (Inr h, d')) (\<lambda>window.
     bindE (GetAssertion api (assertionRequest req window)) (\<lambda>res.
     liftE (decodeAssertion req res))))"

definition windowsAuthenticator :: "'z prims_scheme \<Rightarrow> 'd winapi \<Rightarrow> 'd Authenticator" where
  "windowsAuthenticator p api = \<lparr>auth_Enroll = Enroll p api, auth_Derive = Derive api\<rparr>"

text \<open>The two builds: the provider above, and the one of \<open>unsupported_other.go\<close>.\<close>

definition unsupportedAvailable :: bool where
  "unsupportedAvailable = False"

definition unsupportedAuthenticator :: "'d Authenticator result" where
  "unsupportedAuthenticator = failWith ErrUnsupportedPlatform"

definition newAuthenticator :: "host \<Rightarrow> 'z prims_scheme \<Rightarrow> 'd winapi \<Rightarrow> 'd Authenticator result" where
  "newAuthenticator h p api =
     (if h_windows h then Inr (windowsAuthenticator p api) else unsupportedAuthenticator)"

definition Available :: "host \<Rightarrow> bool" where
  "Available h = (if h_windows h then True else unsupportedAvailable)"

definition New :: "host \<Rightarrow> 'z prims_scheme \<Rightarrow> 'd winapi \<Rightarrow> 'd Authenticator result" where
  "New h p api = bindR (RefuseAutomatedContext h) (\<lambda>_. newAuthenticator h p api)"

section \<open>Facts about the guards\<close>

lemma refuseMarkers_ok_iff: "refuseMarkers env ns = Inr u \<longleftrightarrow> (\<forall>n \<in> set ns. env n = None)"
  by (induction ns) (auto split: option.splits)

lemma refuseMarkers_error: "refuseMarkers env ns = Inl e \<Longrightarrow> errorsIs e ErrUnderAgent"
  by (induction ns) (auto split: option.splits)

text \<open>The door to hardware opens exactly for a Windows build that is not a test binary and whose
  environment holds none of the agent markers; a test binary is told so first, then an agent's shell,
  and only then is the platform looked at.\<close>

lemma New_cases:
  "New h p api =
     (if h_testing h then failWith ErrUnderTest
      else if \<exists>n \<in> {''CLAUDECODE'', ''CLAUDE_CODE_ENTRYPOINT'', ''CLAUDE_CODE_SESSION_ID'',
                      ''CLAUDE_CODE_EXECPATH'', ''QWEN_CODE'', ''GEMINI_CLI''}. h_env h n \<noteq> None
        then Inl (wrap ''%w: %s is set'' (Sentinel ErrUnderAgent))
      else if h_windows h then Inr (windowsAuthenticator p api)
      else failWith ErrUnsupportedPlatform)"
  by (simp add: New_def RefuseAutomatedContext_def RefuseUnderTest_def RefuseUnderAgent_def
      agentEnvMarkers_def newAuthenticator_def unsupportedAuthenticator_def split: option.splits)

section \<open>Facts about the provider\<close>

lemma ConsoleWindow_results [results]:
  "(case ConsoleWindow api d of (h, d') \<Rightarrow> (Inr h, d')) = (Inr w, d2) \<longleftrightarrow> ConsoleWindow api d = (w, d2)"
  "(case ConsoleWindow api d of (h, d') \<Rightarrow> (Inr h, d')) = (Inl e, d2) \<longleftrightarrow> False"
  by (auto split: prod.splits)

lemma flag_bits: "(f AND 1 \<noteq> 0) = bit f 0" "(f AND 4 \<noteq> 0) = bit f 2" for f :: byte
proof -
  have "(f AND push_bit 0 1 \<noteq> 0) = bit f 0" "(f AND push_bit 2 1 \<noteq> 0) = bit f 2"
    by (simp_all only: bit_iff_and_push_bit_not_eq_0)
  then show "(f AND 1 \<noteq> 0) = bit f 0" "(f AND 4 \<noteq> 0) = bit f 2" by (simp_all add: push_bit_eq_mult)
qed

lemma decodeAssertion_ok:
  assumes "decodeAssertion req res = Inr r"
  shows "dr_Secret r = ga_HMACSecret res" "ga_HMACSecret res \<noteq> []"
    "33 \<le> length (ga_AuthenticatorData res)"
    "dr_UserPresent r = bit (ga_AuthenticatorData res ! 32) 0"
    "dr_UserVerified r = bit (ga_AuthenticatorData res ! 32) 2"
    "dr_CredentialID r = (if ga_AnsweringCredential res = [] then dq_CredentialIDs req ! 0
        else ga_AnsweringCredential res)"
    "ga_AnsweringCredential res = [] \<Longrightarrow> length (dq_CredentialIDs req) = 1"
  using assms
  by (auto simp: decodeAssertion_def Let_def flagsAt_def flag_bits results split: if_splits)

lemma Derive_ok:
  assumes "Derive api req d = (Inr r, d')"
  obtains window d1 res where "Validate req = Inr ()" "ConsoleWindow api d = (window, d1)"
    "GetAssertion api (assertionRequest req window) d1 = (Inr res, d')" "decodeAssertion req res = Inr r"
  using assms by (auto simp: Derive_def results)

section \<open>The provider against the port\<close>

text \<open>
  Two documented behaviours of the platform, as hypotheses on the structure it returns, read at the
  offsets of \<open>webauthn.h\<close> (\<open>assertionAt\<close>): an assertion names no credential or one of the allow-list, and
  its hmac-secret output is a function of the answering credential, of the salt it was given and of the
  user-verified bit of the signed flags. Which credential answered is known (\<open>answeredBy\<close>) where the
  assertion names it, and where the allow-list has a single entry: an authenticator may leave the name out
  only then. Nothing is promised of an unnamed answer to a longer list.
\<close>

definition allowed :: "getAssertionOptions \<Rightarrow> bytes option list" where
  "allowed opts =
     (case Option.bind (go_allowCredentialList opts) cl_credentials of Some es \<Rightarrow> map ce_id es | None \<Rightarrow> [])"

definition saltGiven :: "getAssertionOptions \<Rightarrow> bytes option" where
  "saltGiven opts = Option.bind (Option.bind (go_hmacSecretSaltValues opts) sv_globalSalt) hs_first"

definition answeredBy :: "getAssertionOptions \<Rightarrow> GetAssertionResult \<Rightarrow> bytes option" where
  "answeredBy opts res =
     (if ga_AnsweringCredential res \<noteq> [] then Some (ga_AnsweringCredential res)
      else case allowed opts of [c] \<Rightarrow> c | _ \<Rightarrow> None)"

definition dll_answers :: "'d winapi \<Rightarrow> bool" where
  "dll_answers api \<longleftrightarrow>
     (\<forall>h rp c opts d out m d'. procGetAssertion api h rp c opts d = ((0, out, m), d') \<longrightarrow> out \<noteq> 0 \<longrightarrow>
        ga_AnsweringCredential (assertionAt m out) = []
        \<or> Some (ga_AnsweringCredential (assertionAt m out)) \<in> set (allowed opts))"

definition dll_derives :: "(bytes \<Rightarrow> bytes \<Rightarrow> bool \<Rightarrow> bytes) \<Rightarrow> 'd winapi \<Rightarrow> bool" where
  "dll_derives pf api \<longleftrightarrow>
     (\<forall>h rp client opts d out m d' salt c. procGetAssertion api h rp client opts d = ((0, out, m), d') \<longrightarrow> out \<noteq> 0 \<longrightarrow>
        saltGiven opts = Some salt \<longrightarrow> answeredBy opts (assertionAt m out) = Some c \<longrightarrow>
        ga_HMACSecret (assertionAt m out) \<noteq> [] \<longrightarrow> 33 \<le> length (ga_AuthenticatorData (assertionAt m out)) \<longrightarrow>
        ga_HMACSecret (assertionAt m out) =
          pf c salt (bit (ga_AuthenticatorData (assertionAt m out) ! 32) 2))"

lemma Derive_call:
  assumes "Derive api req d = (Inr r, d')"
  obtains h rp c opts d1 out m d2 where
    "procGetAssertion api h rp c opts d1 = ((0, out, m), d2)" "out \<noteq> 0"
    "decodeAssertion req (readAssertion m out) = Inr r" "Validate req = Inr ()"
    "allowed opts = map Some (dq_CredentialIDs req)"
    "saltGiven opts = Some (dq_Salt req)" "d' = procFreeAssertion api out d2"
    "UTF16PtrFromString api (dq_RPID req) = Inr rp"
    "go_userVerificationReq opts = uvReq (dq_UV req = UVRequired)"
    "answeredBy opts (readAssertion m out) = Some (dr_CredentialID r)"
proof -
  obtain window da res where "Validate req = Inr ()" "ConsoleWindow api d = (window, da)"
    and got: "GetAssertion api (assertionRequest req window) da = (Inr res, d')"
    and dec: "decodeAssertion req res = Inr r"
    using assms by (rule Derive_ok)
  obtain rpID credType hashAlg version hints out m d1 d2 where
      call: "procGetAssertion api (gr_WindowHandle (assertionRequest req window)) rpID (clientDataFor hashAlg)
        (assertionOptions (assertionRequest req window) credType version hints) d1 = ((0, out, m), d2)"
    and out: "out \<noteq> 0" and res: "res = readAssertion m out" "d' = procFreeAssertion api out d2"
    and rp: "UTF16PtrFromString api (gr_RPID (assertionRequest req window)) = Inr rpID"
    using GetAssertion_ok [OF got] by (elim exE conjE) (rule that)
  let ?opts = "assertionOptions (assertionRequest req window) credType version hints"
  have valid: "[] \<notin> set (dq_CredentialIDs req)" "dq_CredentialIDs req \<noteq> []" "length (dq_Salt req) = SaltLen"
    using \<open>Validate req = Inr ()\<close> by (simp_all add: Validate_ok_iff)
  have ids: "allowed ?opts = map Some (dq_CredentialIDs req)"
    using valid(1) by (simp add: allowed_def allowListFor_ids assertionRequest_def)
  show thesis
  proof (rule that [OF call out _ \<open>Validate req = Inr ()\<close> ids])
    show "decodeAssertion req (readAssertion m out) = Inr r" using dec res by simp
    show "saltGiven ?opts = Some (dq_Salt req)"
      using valid(3) by (auto simp: saltGiven_def saltValuesFor_def assertionRequest_def bytePtr_def SaltLen_def)
    show "d' = procFreeAssertion api out d2" by (rule res(2))
    show "UTF16PtrFromString api (dq_RPID req) = Inr rpID" using rp by (simp add: assertionRequest_def)
    show "go_userVerificationReq ?opts = uvReq (dq_UV req = UVRequired)" by (simp add: assertionRequest_def)
    show "answeredBy ?opts (readAssertion m out) = Some (dr_CredentialID r)"
      using decodeAssertion_ok(6,7) [OF dec] res(1) ids
      by (auto simp: answeredBy_def length_Suc_conv)
  qed
qed

lemma provider_honest:
  assumes "dll_answers api" and "dll_derives pf api"
  shows "answers_from_allow_list (windowsAuthenticator p api) \<and> derives_by pf (windowsAuthenticator p api)"
proof -
  have "dr_CredentialID r \<in> set (dq_CredentialIDs req)
      \<and> dr_Secret r = pf (dr_CredentialID r) (dq_Salt req) (dr_UserVerified r)"
    if derive: "Derive api req d = (Inr r, d')" for req d r d'
  proof -
    obtain h rp c opts d1 out m d2 where
        call: "procGetAssertion api h rp c opts d1 = ((0, out, m), d2)" "out \<noteq> 0"
      and dec: "decodeAssertion req (readAssertion m out) = Inr r"
      and valid: "Validate req = Inr ()"
      and ids: "allowed opts = map Some (dq_CredentialIDs req)"
      and salt: "saltGiven opts = Some (dq_Salt req)"
      and cred: "answeredBy opts (readAssertion m out) = Some (dr_CredentialID r)"
      using derive by (rule Derive_call)
    let ?res = "readAssertion m out"
    note dec = decodeAssertion_ok [OF dec]
    have ne: "dq_CredentialIDs req \<noteq> []" using valid by (simp add: Validate_ok_iff)
    have "dr_CredentialID r \<in> set (dq_CredentialIDs req)"
    proof (cases "ga_AnsweringCredential ?res = []")
      case True
      then show ?thesis using dec(6) ne by (simp add: hd_conv_nth [symmetric])
    next
      case False
      then have "Some (ga_AnsweringCredential ?res) \<in> set (allowed opts)"
        using assms(1) call unfolding dll_answers_def readAssertion_at by blast
      with False dec(6) ids show ?thesis by auto
    qed
    moreover have "ga_HMACSecret ?res =
        pf (dr_CredentialID r) (dq_Salt req) (bit (ga_AuthenticatorData ?res ! 32) 2)"
      using assms(2) call salt dec(2,3) cred unfolding dll_derives_def readAssertion_at by blast
    ultimately show ?thesis using dec(1,5) by simp
  qed
  then show ?thesis
    unfolding answers_from_allow_list_def derives_by_def windowsAuthenticator_def
    by (simp, metis prod.collapse)
qed

text \<open>C31: the Windows provider keeps the two promises of the port the core relies on. Let the platform
  name no credential or one of the allow-list, and let the output in its structure, at the offsets of
  \<open>webauthn.h\<close>, be a function of credential, salt and user verification wherever the structure names the
  credential or the list has one entry; of an unnamed answer to a longer list nothing is assumed. Then
  whatever the provider returns keeps the promise for every list: the credential it reports is one of
  those asked for, and the secret is that function of the reported credential, of exactly the requested
  salt and of the reported user verification. So it never guesses which of several credentials answered.\<close>

theorem provider_meets_port:
  assumes "dll_answers api" and "dll_derives pf api"
  shows "answers_from_allow_list (windowsAuthenticator p api) \<and> derives_by pf (windowsAuthenticator p api)"
  using assms by (rule provider_honest)

text \<open>A malformed request never reaches the platform, which is left as it was; and whatever the
  provider does return carries an output, reads both flags from byte 32 of the signed authenticator
  data, and frees the structure it read exactly once, after the last read.\<close>

lemma Derive_guarded:
  "(Validate req = Inl e \<longrightarrow> Derive api req d = (Inl e, d)) \<and>
   (Derive api req d = (Inr r, d') \<longrightarrow>
      Validate req = Inr () \<and> dr_Secret r \<noteq> [] \<and>
      (\<exists>out m d1. d' = procFreeAssertion api out d1 \<and> 33 \<le> length (ga_AuthenticatorData (readAssertion m out))
         \<and> dr_Secret r = ga_HMACSecret (readAssertion m out)
         \<and> dr_UserPresent r = bit (ga_AuthenticatorData (readAssertion m out) ! 32) 0
         \<and> dr_UserVerified r = bit (ga_AuthenticatorData (readAssertion m out) ! 32) 2))"
proof (intro conjI impI)
  show "Derive api req d = (Inl e, d)" if "Validate req = Inl e"
    using that by (simp add: Derive_def bindE_def)
next
  assume ok: "Derive api req d = (Inr r, d')"
  obtain h rp c opts d1 out m d2 where
      dec: "decodeAssertion req (readAssertion m out) = Inr r"
    and valid: "Validate req = Inr ()" and free: "d' = procFreeAssertion api out d2"
    using ok by (rule Derive_call)
  note dec = decodeAssertion_ok [OF dec]
  show "Validate req = Inr ()" by (rule valid)
  show "dr_Secret r \<noteq> []" using dec(1,2) by simp
  show "\<exists>out m d1. d' = procFreeAssertion api out d1 \<and> 33 \<le> length (ga_AuthenticatorData (readAssertion m out))
         \<and> dr_Secret r = ga_HMACSecret (readAssertion m out)
         \<and> dr_UserPresent r = bit (ga_AuthenticatorData (readAssertion m out) ! 32) 0
         \<and> dr_UserVerified r = bit (ga_AuthenticatorData (readAssertion m out) ! 32) 2"
    using free dec(1,3,4,5) by blast
qed

lemma milliseconds32_uint:
  "uint (milliseconds32 (orDefault t)) = (if t \<le> 0 then 60000 else t div 10 ^ 6 mod 2 ^ 32)"
  by (simp add: milliseconds32_def uint32_def orDefault_def DefaultTimeout_def uint_word_of_int take_bit_eq_mod)

lemma Enroll_ok:
  assumes "Enroll p api req d = (Inr cred, d')"
  obtains window d1 res where "ConsoleWindow api d = (window, d1)"
    "MakeCredential p api
       (makeRequest req window) d1 = (Inr res, d')"
    "mc_CredentialID res \<noteq> []" "er_CredentialID cred = mc_CredentialID res"
    "er_ResidentKey cred = mc_ResidentKey res" "er_ClientDataHash cred = mc_ClientDataHash res"
  using assms by (auto simp: Enroll_def results split: if_splits)

text \<open>C32: an enrollment asks the platform for a non-resident ES256 credential on a removable key, with
  direct attestation, the hmac-secret extension and the requested user verification, with a timeout of
  one minute or the one requested, in milliseconds and as far as 32 bits hold it: below one
  millisecond it is 0, and it wraps around after 49 days. The result has a credential ID; its resident flag is the platform's, and is read only from a structure whose
  version carries it; and the client data that is signed is the same two bytes every time.\<close>

theorem Enroll_asks:
  assumes "Enroll p api req d = (Inr cred, d')"
  shows "er_CredentialID cred \<noteq> [] \<and> er_ClientDataHash cred = sha256Sum p (bytes_of_string ''{}'') \<and>
    (\<exists>window rp user params client opts m out d1 d2.
       procMakeCredential api window rp user params client opts d1 = ((0, out, m), d2)
       \<and> mo_requireResidentKey opts = 0 \<and> mo_attestationConveyance opts = 3
       \<and> mo_authenticatorAttachment opts = 2 \<and> map_option cose_alg (cp_parameters params) = Some (- 7)
       \<and> mo_userVerificationReq opts = (if eq_UV req = UVRequired then 1 else 3)
       \<and> uint (mo_timeoutMilliseconds opts) = (if eq_Timeout req \<le> 0 then 60000 else eq_Timeout req div 10 ^ 6 mod 2 ^ 32)
       \<and> map_option (\<lambda>e. UTF16PtrFromString api ''hmac-secret'' = Inr (ext_identifier e)) (xs_extensions (mo_ext opts)) = Some True
       \<and> cd_json client = Some (bytes_of_string ''{}'')
       \<and> d' = procFreeCredentialAttestation api out d2
       \<and> er_ResidentKey cred = (3 \<le> load32 m (out + of_nat (offsetOf t_credentialAttestation ''version''))
            \<and> load32 m (out + of_nat (offsetOf t_credentialAttestation ''residentKey'')) \<noteq> 0))"
proof -
  obtain window d1 res where
      made: "MakeCredential p api
       (makeRequest req window) d1 = (Inr res, d')"
    and cred: "mc_CredentialID res \<noteq> []" "er_CredentialID cred = mc_CredentialID res"
      "er_ResidentKey cred = mc_ResidentKey res" "er_ClientDataHash cred = mc_ClientDataHash res"
    using assms by (rule Enroll_ok)
  have "mc_ResidentKey (readCredential p api m out) = (3 \<le> load32 m (field out t_credentialAttestation ''version'')
            \<and> load32 m (field out t_credentialAttestation ''residentKey'') \<noteq> 0)"
       "mc_ClientDataHash (readCredential p api m out) = sha256Sum p (bytes_of_string ''{}'')" for m out
    by (auto simp: readCredential_def readResidentKey_def clientJSON_def
        credentialAttestationVersionResidentKey_def split: prod.splits if_splits)
  note read = this
  obtain rp user params client opts m out d2 where
      call: "procMakeCredential api (mr_WindowHandle (makeRequest req window)) rp user params client opts d1
        = ((0, out, m), d2)"
    and res: "res = readCredential p api m out" and free: "d' = procFreeCredentialAttestation api out d2"
    and asks: "mo_requireResidentKey opts = 0" "mo_attestationConveyance opts = 3"
      "mo_authenticatorAttachment opts = 2" "map_option cose_alg (cp_parameters params) = Some (- 7)"
      "mo_userVerificationReq opts = (if mr_RequireUserVerification (makeRequest req window) then 1 else 3)"
      "map_option (\<lambda>e. UTF16PtrFromString api ''hmac-secret'' = Inr (ext_identifier e)) (xs_extensions (mo_ext opts)) = Some True"
      "cd_json client = Some (bytes_of_string ''{}'')" "mo_timeoutMilliseconds opts = mr_TimeoutMilliseconds (makeRequest req window)"
    using MakeCredential_ok [OF made] by (elim exE conjE) (rule that)
  have "er_ResidentKey cred = (3 \<le> load32 m (out + of_nat (offsetOf t_credentialAttestation ''version''))
            \<and> load32 m (out + of_nat (offsetOf t_credentialAttestation ''residentKey'')) \<noteq> 0)"
    using cred(3) res read(1) unfolding field_def by simp
  moreover have "er_CredentialID cred \<noteq> []" "er_ClientDataHash cred = sha256Sum p (bytes_of_string ''{}'')"
    using cred res read(2) by simp_all
  moreover have "mo_userVerificationReq opts = (if eq_UV req = UVRequired then 1 else 3)"
    using asks(5) by (simp add: makeRequest_def)
  moreover have "uint (mo_timeoutMilliseconds opts) = (if eq_Timeout req \<le> 0 then 60000 else eq_Timeout req div 10 ^ 6 mod 2 ^ 32)"
    using asks(8) by (simp add: makeRequest_def milliseconds32_uint EnrollRequest_TimeoutOrDefault_def)
  ultimately show ?thesis using call free asks(1-4,6,7) by (intro conjI exI) (assumption+)
qed

end
