(* ===== verification/FidoSamples.thy ===== *)
theory FidoSamples
  imports Fido Samples
begin

text \<open>
  A concrete \<open>webauthn.dll\<close>: it answers with structures laid out in a small memory, on which the
  theorems about the provider are applied.
\<close>

section \<open>Two answers in memory\<close>

text \<open>A memory from a list of non-zero cells.\<close>

definition cells :: "(nat \<times> byte) list \<Rightarrow> memory" where
  "cells cs = (\<lambda>a. case map_of cs (unat a) of Some b \<Rightarrow> b | None \<Rightarrow> 0)"

text \<open>
  The assertion at 4096: 33 bytes of authenticator data at 8192 whose flags byte is 5 (present and
  verified), no answering credential, and an hmac-secret structure at 12288 whose output is the two
  bytes at 16384. The attestation, also at 4096: version 3, a one-byte credential ID at 8192.
\<close>

definition toyAssertion :: memory where
  "toyAssertion = cells [(4100, 33), (4105, 32), (4209, 48), (8224, 5), (12288, 2), (12297, 64), (16384, 9), (16385, 7)]"

definition toyAttestation :: memory where
  "toyAttestation = cells [(4096, 3), (4176, 1), (4185, 32), (8192, 1)]"

definition toyDLL :: "unit winapi" where
  "toyDLL = \<lparr>UTF16PtrFromString = (\<lambda>s. Inr (map (\<lambda>c. of_char c) s)), UTF16PtrToString = (\<lambda>m p. []),
     procGetConsoleWindow = (\<lambda>d. (0, d)), procGetApiVersionNumber = (\<lambda>d. (7, d)),
     procMakeCredential = (\<lambda>h rp user params client opts d. ((0, 4096, toyAttestation), d)),
     procGetAssertion = (\<lambda>h rp client opts d. ((0, 4096, toyAssertion), d)),
     procFreeCredentialAttestation = (\<lambda>p d. d), procFreeAssertion = (\<lambda>p d. d)\<rparr>"

lemma loadBytes_few:
  "loadBytes m p (Suc 0) = [m p]"
  "loadBytes m p 2 = [m p, m (p + 1)]"
  "loadBytes m p 4 = [m p, m (p + 1), m (p + 2), m (p + 3)]"
  "loadBytes m p 8 = [m p, m (p + 1), m (p + 2), m (p + 3), m (p + 4), m (p + 5), m (p + 6), m (p + 7)]"
  by (simp_all add: loadBytes_def upt_conv_Cons eval_nat_numeral)

lemma toyAssertion_loads:
  "load64 toyAssertion 4208 = 12288" "load64 toyAssertion 4104 = 8192" "load32 toyAssertion 4100 = 33"
  "load64 toyAssertion 4136 = 0" "load64 toyAssertion 12296 = 16384" "load32 toyAssertion 12288 = 2"
  by (simp_all add: load32_def load64_def loadBytes_few toyAssertion_def cells_def)

lemma toyAssertion_read:
  "readAssertion toyAssertion 4096 =
     \<lparr>ga_AuthenticatorData = loadBytes toyAssertion 8192 33, ga_AnsweringCredential = [], ga_HMACSecret = [9, 7]\<rparr>"
  "toyAssertion 8224 = 5"
proof -
  have "loadBytes toyAssertion 16384 2 = [9, 7]" by (simp add: loadBytes_few toyAssertion_def cells_def)
  then show "readAssertion toyAssertion 4096 =
     \<lparr>ga_AuthenticatorData = loadBytes toyAssertion 8192 33, ga_AnsweringCredential = [], ga_HMACSecret = [9, 7]\<rparr>"
    by (simp add: readAssertion_def field_def assertion_offsets toyAssertion_loads asBytes_def)
  show "toyAssertion 8224 = 5" by (simp add: toyAssertion_def cells_def)
qed

lemma toyAssertion_flags: "loadBytes toyAssertion 8192 33 ! 32 = 5"
  using toyAssertion_read(2) by (simp add: loadBytes_def)

lemma toyAttestation_loads:
  "load32 toyAttestation 4096 = 3" "load32 toyAttestation 4220 = 0" "load32 toyAttestation 4144 = 0"
  "load64 toyAttestation 4184 = 8192" "load32 toyAttestation 4176 = 1" "loadBytes toyAttestation 8192 (Suc 0) = [1]"
  by (simp_all add: load32_def load64_def loadBytes_few toyAttestation_def cells_def)

section \<open>Instances\<close>

theorem provider_meets_port_witness:
  "answers_from_allow_list (windowsAuthenticator toyX toyDLL)
     \<and> derives_by (\<lambda>_ _ _. [9, 7]) (windowsAuthenticator toyX toyDLL)"
proof (rule provider_meets_port)
  show "dll_answers toyDLL" by (auto simp: dll_answers_def toyDLL_def toyAssertion_read simp flip: readAssertion_at)
  show "dll_derives (\<lambda>_ _ _. [9, 7]) toyDLL"
    by (auto simp: dll_derives_def toyDLL_def toyAssertion_read simp flip: readAssertion_at)
qed

lemma toyVersion1_loads:
  "load32 (toyAttestation(4096 := 1)) 4096 = 1" "load32 (toyAttestation(4096 := 1)) 4144 = 0"
  "load64 (toyAttestation(4096 := 1)) 4184 = 8192" "load32 (toyAttestation(4096 := 1)) 4176 = 1"
  "load64 (toyAttestation(4096 := 1)) 4120 = 0" "load64 (toyAttestation(4096 := 1)) 4104 = 0"
  "loadBytes (toyAttestation(4096 := 1)) 8192 (Suc 0) = [1]"
  by (simp_all add: load32_def load64_def loadBytes_few toyAttestation_def cells_def)


text \<open>The pointer to the hmac-secret output, a field of version 3 of the assertion, is read whatever
  version the structure reports: with version 0 the output still comes from behind offset 112.\<close>

lemma hmac_secret_ungated:
  "load32 toyAssertion 4096 = 0 \<and> ga_HMACSecret (readAssertion toyAssertion 4096) = [9, 7]
   \<and> ga_HMACSecret (readAssertion (toyAssertion(4209 := 0)) 4096) = []"
proof -
  have "load64 (toyAssertion(4209 := 0)) 4208 = 0" "load32 toyAssertion 4096 = 0"
    by (simp_all add: load64_def load32_def loadBytes_few toyAssertion_def cells_def)
  then show ?thesis by (simp add: toyAssertion_read(1)) (simp add: readAssertion_at assertionAt_def Let_def)
qed

definition toyRequest :: DeriveRequest where
  "toyRequest = \<lparr>dq_RPID = ''r'', dq_CredentialIDs = [[1]], dq_Salt = replicate 32 0, dq_UV = UVRequired,
     dq_Timeout = 0\<rparr>"

definition toyAnswer :: DeriveResult where
  "toyAnswer = \<lparr>dr_Secret = [9, 7], dr_CredentialID = [1], dr_UserPresent = True, dr_UserVerified = True\<rparr>"

lemma toy_derive: "Derive toyDLL toyRequest () = (Inr toyAnswer, ())"
proof -
  have "Validate toyRequest = Inr ()" by (simp add: Validate_ok_iff toyRequest_def SaltLen_def)
  moreover have "GetAssertion toyDLL (assertionRequest toyRequest 0) () = (Inr (readAssertion toyAssertion 4096), ())"
    by (simp add: GetAssertion_def versionAndHints_def APIVersion_def utf16E_def bindE_def toyDLL_def
        apiVersionForHints_def)
  moreover have "decodeAssertion toyRequest (readAssertion toyAssertion 4096) = Inr toyAnswer"
    by (simp add: decodeAssertion_def toyAssertion_read toyAssertion_flags flagsAt_def toyRequest_def toyAnswer_def Let_def)
  ultimately show ?thesis
    by (simp add: Derive_def bindE_def ConsoleWindow_def toyDLL_def)
qed

theorem Derive_guarded_witness:
  "dr_Secret toyAnswer \<noteq> [] \<and> Derive toyDLL (toyRequest\<lparr>dq_Salt := []\<rparr>) () = (failWith ErrSaltLength, ())"
proof -
  have "Validate (toyRequest\<lparr>dq_Salt := []\<rparr>) = failWith ErrSaltLength"
    by (simp add: Validate_def toyRequest_def SaltLen_def)
  then show ?thesis
    using Derive_guarded [of toyRequest _ toyDLL "()" toyAnswer "()"] toy_derive
      Derive_guarded [of "toyRequest\<lparr>dq_Salt := []\<rparr>" "Sentinel ErrSaltLength" toyDLL "()"] by blast
qed

definition toyEnrollRequest :: EnrollRequest where
  "toyEnrollRequest = \<lparr>eq_RPID = ''r'', eq_RPName = ''r'', eq_UserID = [5], eq_UserName = ''r'',
     eq_UV = UVDiscouraged, eq_Timeout = 0\<rparr>"

lemma toy_attestation_read:
  "mc_CredentialID (readCredential toyX toyDLL toyAttestation 4096) = [1]"
  by (simp add: readCredential_def readAttestation_def readResidentKey_def field_def offset_values
      toyAttestation_loads asBytes_def attestationDecodeCommon_def split: prod.split)

lemma toy_made: "\<exists>cred. Enroll toyX toyDLL toyEnrollRequest () = (Inr cred, ())"
proof -
  have "MakeCredential toyX toyDLL (makeRequest toyEnrollRequest 0) () =
      (Inr (readCredential toyX toyDLL toyAttestation 4096), ())"
    by (simp add: MakeCredential_def utf16E_def bindE_def toyDLL_def)
  then show ?thesis
    using toy_attestation_read by (simp add: Enroll_def bindE_def ConsoleWindow_def) (simp add: toyDLL_def)
qed

theorem Enroll_asks_witness:
  "\<exists>cred. Enroll toyX toyDLL toyEnrollRequest () = (Inr cred, ()) \<and> er_ClientDataHash cred = bytes_of_string ''{}''"
proof -
  obtain cred where ok: "Enroll toyX toyDLL toyEnrollRequest () = (Inr cred, ())" using toy_made by blast
  from Enroll_asks [OF ok] ok show ?thesis by auto
qed

lemma layout_sound_witness:
  "8 dvd offsetOf t_assertion ''hmacSecret'' \<and> offsetOf t_assertion ''hmacSecret'' + 8 \<le> sizeOf t_assertion"
  using layout_sound [of "''hmacSecret''"
      "[(''version'', U32), (''authenticatorDataLen'', U32), (''authenticatorData'', Ptr),
      (''signatureLen'', U32), (''signature'', Ptr), (''credential'', t_credential),
      (''userIDLen'', U32), (''userID'', Ptr), (''ext'', t_extensions), (''credLargeBlobLen'', U32),
      (''credLargeBlob'', Ptr), (''credLargeBlobStatus'', U32), (''hmacSecret'', Ptr)]"]
  by (auto simp: t_assertion_def)

end
