(* ===== verification/WinDevice.thy ===== *)
theory WinDevice
  imports FidoSamples Liveness
begin

text \<open>
  A \<open>webauthn.dll\<close> with a security key behind it: it makes a credential with a genuine attestation and
  derives \<open>toyPRF\<close>, answering with structures in memory. The provider on it is honest and conforms, so
  whole runs of the core can be carried out over the Windows provider.
\<close>

section \<open>Memory\<close>

definition block :: "nat \<Rightarrow> bytes \<Rightarrow> memory \<Rightarrow> memory" where
  "block p bs m = (\<lambda>a. if p \<le> unat a \<and> unat a < p + length bs then bs ! (unat a - p) else m a)"

lemma loadBytes_block:
  assumes "unat p + n \<le> 2 ^ 63"
  shows "unat p + n \<le> q \<or> q + length bs \<le> unat p \<Longrightarrow> loadBytes (block q bs m) p n = loadBytes m p n"
    and "q = unat p \<Longrightarrow> n = length bs \<Longrightarrow> loadBytes (block q bs m) p n = bs"
proof -
  have at: "unat (p + of_nat i) = unat p + i" if "i < n" for i
    using assms that by (simp add: unat_word_ariths unat_of_nat)
  show "unat p + n \<le> q \<or> q + length bs \<le> unat p \<Longrightarrow> loadBytes (block q bs m) p n = loadBytes m p n"
    by (auto simp: loadBytes_def block_def at)
  show "q = unat p \<Longrightarrow> n = length bs \<Longrightarrow> loadBytes (block q bs m) p n = bs"
    by (intro nth_equalityI) (auto simp: loadBytes_def block_def at)
qed

section \<open>The key\<close>

text \<open>Authenticator data of an assertion: 32 bytes, the flags (present, and verified when asked), a counter.\<close>

definition authDataFor :: "bool \<Rightarrow> bytes" where
  "authDataFor u = replicate 32 0 @ [if u then 5 else 1, 0, 0, 0, 0]"

definition keyAssertion :: "byte \<Rightarrow> bool \<Rightarrow> bytes \<Rightarrow> memory" where
  "keyAssertion i u salt =
     block 16384 (toyPRF [i] salt u) (block 8192 (authDataFor u)
       (cells [(4100, 37), (4105, 32), (4132, 1), (4137, 80), (4209, 48), (12288, 34), (12297, 64), (20480, i)]))"

definition keyAttestation :: "byte \<Rightarrow> memory" where
  "keyAttestation i = cells
     [(4096, 3), (4105, 16), (4112, 1), (4121, 32), (4144, 1), (4153, 48), (4176, 1), (4185, 32), (8192, i),
      (12304, 249), (12305, 255), (12306, 255), (12307, 255), (12308, 4), (12313, 64), (12320, 1), (12329, 80),
      (16384, 7), (16385, i), (16386, 123), (16387, 125), (20480, 1), (20489, 96), (24576, 1)]"

definition keyDLL :: "byte \<Rightarrow> unit winapi" where
  "keyDLL i = toyDLL\<lparr>UTF16PtrToString := (\<lambda>m p. ''packed''),
     procMakeCredential := (\<lambda>h rp user params client opts d. ((0, 4096, keyAttestation i), d)),
     procGetAssertion := (\<lambda>h rp client opts d.
       case saltGiven opts of
         Some salt \<Rightarrow>
           if length salt = 32 \<and> Some [i] \<in> set (allowed opts)
           then ((0, 4096, keyAssertion i (go_userVerificationReq opts = 1) salt), d)
           else ((0x80090011, 0, keyAttestation i), d)
       | None \<Rightarrow> ((0x80090011, 0, keyAttestation i), d))\<rparr>"

lemma keyAssertion_loads:
  assumes "length salt = 32"
  shows "load32 (keyAssertion i u salt) 4100 = 37" "load64 (keyAssertion i u salt) 4104 = 8192"
    "load32 (keyAssertion i u salt) 4132 = 1" "load64 (keyAssertion i u salt) 4136 = 20480"
    "load64 (keyAssertion i u salt) 4208 = 12288" "load32 (keyAssertion i u salt) 12288 = 34"
    "load64 (keyAssertion i u salt) 12296 = 16384" "loadBytes (keyAssertion i u salt) 20480 1 = [i]"
    "loadBytes (keyAssertion i u salt) 8192 37 = authDataFor u"
    "loadBytes (keyAssertion i u salt) 16384 34 = toyPRF [i] salt u"
  using assms
  by (simp_all add: load32_def load64_def keyAssertion_def loadBytes_block toyPRF_def authDataFor_def)
     (simp_all add: loadBytes_few cells_def)

lemma keyAssertion_read:
  assumes "length salt = 32"
  shows "readAssertion (keyAssertion i u salt) 4096 =
    \<lparr>ga_AuthenticatorData = authDataFor u, ga_AnsweringCredential = [i], ga_HMACSecret = toyPRF [i] salt u\<rparr>"
  using keyAssertion_loads [OF assms, of i u]
  by (simp add: readAssertion_def field_def assertion_offsets asBytes_def)

lemma keyAttestation_loads:
  "load32 (keyAttestation i) 4096 = 3" "load64 (keyAttestation i) 4104 = 4096"
  "load32 (keyAttestation i) 4112 = 1" "load64 (keyAttestation i) 4120 = 8192"
  "load32 (keyAttestation i) 4144 = 1" "load64 (keyAttestation i) 4152 = 12288"
  "load32 (keyAttestation i) 4176 = 1" "load64 (keyAttestation i) 4184 = 8192"
  "load32 (keyAttestation i) 4220 = 0" "loadBytes (keyAttestation i) 8192 (Suc 0) = [i]"
  "load32 (keyAttestation i) 12304 = - 7" "load32 (keyAttestation i) 12308 = 4"
  "load64 (keyAttestation i) 12312 = 16384" "load32 (keyAttestation i) 12320 = 1"
  "load64 (keyAttestation i) 12328 = 20480" "load32 (keyAttestation i) 20480 = 1"
  "load64 (keyAttestation i) 20488 = 24576" "loadBytes (keyAttestation i) 24576 (Suc 0) = [1]"
  "loadBytes (keyAttestation i) 16384 4 = [7, i, 123, 125]"
  by (simp_all add: load32_def load64_def keyAttestation_def loadBytes_few cells_def)

lemma keyAttestation_read:
  "readCredential toyX (keyDLL i) (keyAttestation i) 4096 =
    \<lparr>mc_CredentialID = [i], mc_ResidentKey = False, mc_ResidentKeyKnown = True, mc_AuthenticatorData = [i],
     mc_AttestationFormat = ''packed'', mc_AttestationAlg = - 7, mc_AttestationSignature = [7, i, 123, 125],
     mc_AttestationCerts = [[1]], mc_ClientDataHash = [123, 125]\<rparr>"
  by (simp add: readCredential_def readAttestation_def readResidentKey_def readCerts_def field_def offset_values
      common_offsets keyAttestation_loads asBytes_def attestationDecodeCommon_def clientJSON_def
      credentialAttestationVersionResidentKey_def keyDLL_def bytes_of_string_def)

section \<open>The provider on it\<close>

definition keyCredential :: "byte \<Rightarrow> EnrollResult" where
  "keyCredential i = \<lparr>er_CredentialID = [i], er_PRFEnabled = True, er_ResidentKey = False,
     er_AttestationFormat = ''packed'', er_AttestationAlg = -7, er_AttestationSignature = [7, i, 123, 125],
     er_AuthenticatorData = [i], er_ClientDataHash = [123, 125], er_AttestationCerts = [[1]]\<rparr>"

lemma keyCredential_genuine: "genuine toyX (keyCredential i) None"
  unfolding genuine_def
  by (intro conjI exI [of _ "[1]"] exI [of _ "[]"] exI [of _ toyLeaf] exI [of _ "[7]"])
     (simp_all add: keyCredential_def toyParse_def toyX_def toyVerify_def anchors_def trustedFIDORoots_def
        toyPEM_def toyLeaf_def toyRoot_def)

lemma keyDLL_enrolls: "Enroll toyX (keyDLL i) req d = (Inr (keyCredential i), d)"
  by (simp add: Enroll_def MakeCredential_def bindE_def utf16E_def ConsoleWindow_def)
     (simp add: keyDLL_def toyDLL_def keyAttestation_read [unfolded keyDLL_def toyDLL_def, simplified]
        keyCredential_def)

lemma authDataFor_flags: "authDataFor u ! 32 = (if u then 5 else 1)" "length (authDataFor u) = 37"
  by (simp_all add: authDataFor_def nth_append)

lemma keyDLL_assertion:
  assumes "procGetAssertion (keyDLL i) h rp c opts d = ((0, out, m), d')"
  obtains salt where "saltGiven opts = Some salt" "Some [i] \<in> set (allowed opts)" "d' = d" "out = 4096"
    "readAssertion m out = \<lparr>ga_AuthenticatorData = authDataFor (go_userVerificationReq opts = 1),
       ga_AnsweringCredential = [i], ga_HMACSecret = toyPRF [i] salt (go_userVerificationReq opts = 1)\<rparr>"
  using assms keyAssertion_read by (auto simp: keyDLL_def split: option.splits if_splits)

lemma keyDLL_derives:
  assumes "Validate req = Inr ()" "[i] \<in> set (dq_CredentialIDs req)"
  shows "Derive (keyDLL i) req d =
    (Inr \<lparr>dr_Secret = toyPRF [i] (dq_Salt req) (dq_UV req = UVRequired), dr_CredentialID = [i],
       dr_UserPresent = True, dr_UserVerified = (dq_UV req = UVRequired)\<rparr>, d)"
proof -
  let ?u = "dq_UV req = UVRequired"
  let ?res = "\<lparr>ga_AuthenticatorData = authDataFor ?u, ga_AnsweringCredential = [i],
      ga_HMACSecret = toyPRF [i] (dq_Salt req) ?u\<rparr>"
  have valid: "length (dq_Salt req) = 32" "[] \<notin> set (dq_CredentialIDs req)"
    using assms(1) by (simp_all add: Validate_ok_iff SaltLen_def)
  have "saltGiven (assertionOptions (assertionRequest req 0) t v h) = Some (dq_Salt req)"
    "Some [i] \<in> set (allowed (assertionOptions (assertionRequest req 0) t v h))"
    "(go_userVerificationReq (assertionOptions (assertionRequest req 0) t v h) = 1) = ?u" for t v h
    using valid assms(2)
    by (auto simp: saltGiven_def saltValuesFor_def allowed_def allowListFor_ids assertionRequest_def bytePtr_def
        uvReq_def userVerificationRequired_def userVerificationDiscouraged_def)
  then have "GetAssertion (keyDLL i) (assertionRequest req 0) d = (Inr ?res, d)"
    using valid(1)
    by (simp add: GetAssertion_def versionAndHints_def APIVersion_def utf16E_def bindE_def keyDLL_def toyDLL_def
        apiVersionForHints_def keyAssertion_read)
  moreover have "decodeAssertion req ?res = Inr \<lparr>dr_Secret = toyPRF [i] (dq_Salt req) ?u, dr_CredentialID = [i],
       dr_UserPresent = True, dr_UserVerified = ?u\<rparr>"
    by (simp add: decodeAssertion_def authDataFor_flags flagsAt_def toyPRF_def Let_def)
  ultimately show ?thesis
    using assms(1) by (simp add: Derive_def bindE_def ConsoleWindow_def) (simp add: keyDLL_def toyDLL_def)
qed

lemma keyDLL_conforms:
  "conforms toyX (toyPRF [i]) (\<lambda>uv. uv = UVRequired) [i] None (windowsAuthenticator toyX (keyDLL i))"
proof -
  have "flipLast salt \<noteq> salt" if "length salt = 32" for salt :: bytes
    using that flipLast_neq [of salt] by fastforce
  then show ?thesis
    using keyCredential_genuine [of i]
    by (simp add: conforms_def windowsAuthenticator_def keyDLL_enrolls keyDLL_derives toyPRF_def)
       (simp add: keyCredential_def)
qed

lemma keyDLL_answers: "dll_answers (keyDLL i)"
  unfolding dll_answers_def readAssertion_at [symmetric] by (auto elim!: keyDLL_assertion)

lemma keyDLL_derives_by: "dll_derives toyPRF (keyDLL i)"
  unfolding dll_derives_def answeredBy_def readAssertion_at [symmetric] by (auto elim!: keyDLL_assertion simp: authDataFor_flags)

lemma keyDLL_honest: "honest toyX toyPRF (windowsAuthenticator toyX (keyDLL i))"
  by (simp add: honest_def provider_honest [OF keyDLL_answers keyDLL_derives_by])

end
