(* ===== verification/WinVault.thy ===== *)
theory WinVault
  imports WinDevice StorageGuarantees
begin

text \<open>
  The core over the Windows provider, end to end: what \<open>New\<close> returns, handed to \<open>Unlock\<close> and to
  \<open>Create\<close>, down to the calls of \<open>webauthn.dll\<close> and the bytes read from its answers; and the Windows provider as
  a device that meets the contract of the port.
\<close>

section \<open>Through the door\<close>

lemma New_ok:
  assumes "New h p api = Inr auth"
  shows "h_windows h" "\<not> h_testing h" "auth = windowsAuthenticator p api"
  using assms
  by (auto simp: New_def RefuseAutomatedContext_def RefuseUnderTest_def newAuthenticator_def unsupportedAuthenticator_def results
      split: if_splits)

lemma callDerive_windows:
  assumes "callDerive (windowsAuthenticator p api) req w = (Inr r, w')"
  shows "Derive api req (w_device w) = (Inr r, w_device w')"
  using assms by (auto simp: callDerive_def windowsAuthenticator_def split: prod.splits)

text \<open>C7: an unlock goes all the way to the platform. With the authenticator \<open>New\<close> returns, a session
  exists only after one call of \<open>webauthn.dll\<close> that was asked for the relying party, the enrolled
  credentials, the salt and the user verification of the document, and whose answer has the touch in its
  signed flags, the recorded user verification, the credential of an enrolled key, and an hmac-secret
  under which the entry of that key unwraps to the data key of the session; and only outside a test
  binary on Windows. Nothing is assumed of the platform.\<close>

theorem unlock_reaches_platform:
  assumes "New h p api = Inr auth" and "unlock p v auth w = (Inr s, w')"
  shows "h_windows h \<and> \<not> h_testing h \<and>
    (\<exists>window rp client opts d1 out m d2 entry dk.
       procGetAssertion api window rp client opts d1 = ((0, out, m), d2) \<and> out \<noteq> 0
       \<and> UTF16PtrFromString api (v_RPID (vt_doc v)) = Inr rp
       \<and> allowed opts = map (\<lambda>k. Some (k_CredentialID k)) (v_Keys (vt_doc v))
       \<and> saltGiven opts = Some (v_Salt (vt_doc v))
       \<and> go_userVerificationReq opts = (if v_UserVerified (vt_doc v) then 1 else 3)
       \<and> bit (ga_AuthenticatorData (readAssertion m out) ! 32) 0
       \<and> bit (ga_AuthenticatorData (readAssertion m out) ! 32) 2 = v_UserVerified (vt_doc v)
       \<and> entry \<in> set (v_Keys (vt_doc v)) \<and> answeredBy opts (readAssertion m out) = Some (k_CredentialID entry)
       \<and> unwrapDataKey p (vt_doc v) entry (ga_HMACSecret (readAssertion m out)) = Inr dk
       \<and> ses_dataKey s = nilIfEmpty dk \<and> w_device w' = procFreeAssertion api out d2)"
proof -
  let ?doc = "vt_doc v"
  note door = New_ok [OF assms(1)]
  obtain derived entry dk where
      call: "callDerive auth (unlockRequest ?doc) w = (Inr derived, w')"
    and ok: "dr_UserPresent derived" "dr_UserVerified derived = v_UserVerified ?doc"
    and found: "findKey ?doc (dr_CredentialID derived) = Some entry"
    and opened: "unwrapDataKey p ?doc entry (dr_Secret derived) = Inr dk"
    and s: "ses_dataKey s = nilIfEmpty dk"
    using unlock_ok [OF assms(2)] by auto
  have "Derive api (unlockRequest ?doc) (w_device w) = (Inr derived, w_device w')"
    using call unfolding door(3) by (rule callDerive_windows)
  then obtain window rp client opts d1 out m d2 where
      asked: "procGetAssertion api window rp client opts d1 = ((0, out, m), d2)" "out \<noteq> 0"
    and dec: "decodeAssertion (unlockRequest ?doc) (readAssertion m out) = Inr derived"
    and ids: "allowed opts = map Some (dq_CredentialIDs (unlockRequest ?doc))"
    and salt: "saltGiven opts = Some (dq_Salt (unlockRequest ?doc))" and freed: "w_device w' = procFreeAssertion api out d2"
    and rp: "UTF16PtrFromString api (dq_RPID (unlockRequest ?doc)) = Inr rp"
    and uv: "go_userVerificationReq opts = uvReq (dq_UV (unlockRequest ?doc) = UVRequired)"
    and cred: "answeredBy opts (readAssertion m out) = Some (dr_CredentialID derived)"
    by (rule Derive_call)
  have "entry \<in> set (v_Keys ?doc)" "answeredBy opts (readAssertion m out) = Some (k_CredentialID entry)"
    using findKeyIn_Some [OF found [unfolded findKey_def]] cred by simp_all
  moreover have "allowed opts = map (\<lambda>k. Some (k_CredentialID k)) (v_Keys ?doc)"
      "saltGiven opts = Some (v_Salt ?doc)" "UTF16PtrFromString api (v_RPID ?doc) = Inr rp"
      "go_userVerificationReq opts = (if v_UserVerified ?doc then 1 else 3)"
    using ids salt rp uv
    by (simp_all add: unlockRequest_def credentialIDs_def uvRequirement_def uvReq_def comp_def
        userVerificationRequired_def userVerificationDiscouraged_def)
  moreover note decodeAssertion_ok(1,4,5) [OF dec] ok opened s freed asked door(1,2)
  ultimately show ?thesis by (intro conjI exI) (simp, simp, assumption | simp)+
qed

definition toyHost :: host where
  "toyHost = \<lparr>h_testing = False, h_env = (\<lambda>_. None), h_windows = True\<rparr>"

lemma toyHost_opens: "New toyHost p api = Inr (windowsAuthenticator p api)"
  by (simp add: New_def RefuseAutomatedContext_def RefuseUnderTest_def RefuseUnderAgent_def agentEnvMarkers_def
      newAuthenticator_def toyHost_def)

theorem unlock_reaches_platform_witness:
  "\<exists>s w'. unlock toyX toyVault (windowsAuthenticator toyX (keyDLL 1)) (toyAt 4) = (Inr s, w')
     \<and> (\<exists>window rp client opts m. procGetAssertion (keyDLL 1) window rp client opts () = ((0, 4096, m), ())
          \<and> allowed opts = [Some [1]] \<and> saltGiven opts = Some (replicate 32 0))"
proof -
  let ?req = "unlockRequest (vt_doc toyVault)"
  have "Validate ?req = Inr ()" "[1] \<in> set (dq_CredentialIDs ?req)"
    by (simp_all add: Validate_ok_iff unlockRequest_def credentialIDs_def SaltLen_def)
  from keyDLL_derives [OF this] obtain derived where
      "callDerive (windowsAuthenticator toyX (keyDLL 1)) ?req (toyAt 4)
        = (Inr derived, (toyAt 4)\<lparr>w_gestures := [GDerive ?req]\<rparr>)"
      "dr_UserPresent derived" "dr_UserVerified derived = v_UserVerified (vt_doc toyVault)"
    by (simp add: callDerive_def windowsAuthenticator_def unlockRequest_def uvRequirement_def toyWorldTo_def)
  from unlock_live [OF keyDLL_honest _ this, of toyDataKey "\<lambda>_. None"] toySession_coherent [of 1]
  obtain s where s: "unlock toyX toyVault (windowsAuthenticator toyX (keyDLL 1)) (toyAt 4)
      = (Inr s, (toyAt 4)\<lparr>w_gestures := [GDerive ?req]\<rparr>)"
    by auto
  obtain window rp client opts d1 out m d2 where
    *: "procGetAssertion (keyDLL 1) window rp client opts d1 = ((0, out, m), d2)"
      "allowed opts = [Some [1]]" "saltGiven opts = Some (replicate 32 0)"
    using unlock_reaches_platform [OF toyHost_opens s] by (auto simp: toyEntry_def toyDoc0_def)
  moreover have "out = 4096" using *(1) by (rule keyDLL_assertion)
  ultimately have "procGetAssertion (keyDLL 1) window rp client opts () = ((0, 4096, m), ())" by simp
  with s *(2,3) show ?thesis by blast
qed

section \<open>Creating\<close>

text \<open>A platform call that answers a derivation request: what it was asked, and that it was freed.\<close>

definition platformAsserts ::
  "'d winapi \<Rightarrow> DeriveRequest \<Rightarrow> GetAssertionResult \<Rightarrow> 'd \<Rightarrow> bool" where
  "platformAsserts api req res d' \<longleftrightarrow>
     (\<exists>window rp client opts d1 out m d2.
        procGetAssertion api window rp client opts d1 = ((0, out, m), d2) \<and> out \<noteq> 0
        \<and> res = readAssertion m out \<and> d' = procFreeAssertion api out d2
        \<and> UTF16PtrFromString api (dq_RPID req) = Inr rp
        \<and> allowed opts = map Some (dq_CredentialIDs req) \<and> saltGiven opts = Some (dq_Salt req)
        \<and> go_userVerificationReq opts = (if dq_UV req = UVRequired then 1 else 3))"

lemma Derive_platform:
  assumes "Derive api req d = (Inr r, d')"
  obtains res where "platformAsserts api req res d'" "decodeAssertion req res = Inr r"
  using assms
proof (rule Derive_call)
  fix h rp c opts d1 out m d2
  assume *: "procGetAssertion api h rp c opts d1 = ((0, out, m), d2)" "out \<noteq> 0"
    "allowed opts = map Some (dq_CredentialIDs req)" "saltGiven opts = Some (dq_Salt req)"
    "d' = procFreeAssertion api out d2" "UTF16PtrFromString api (dq_RPID req) = Inr rp"
    "go_userVerificationReq opts = uvReq (dq_UV req = UVRequired)"
    and dec: "decodeAssertion req (readAssertion m out) = Inr r"
  have "platformAsserts api req (readAssertion m out) d'"
    unfolding platformAsserts_def
    using * by (intro exI conjI) (assumption | rule refl | simp add: uvReq_def userVerificationRequired_def
      userVerificationDiscouraged_def)+
  then show thesis using dec by (rule that)
qed

text \<open>C8: so does a creation. With the authenticator \<open>New\<close> returns, a created vault has one key, whose
  credential came from the platform with a genuine attestation; the platform was asked to derive over
  the stored salt and over the salt with its last byte flipped, for that credential alone, and answered
  both times with a touch, the recorded user verification, and two different outputs; and the data key
  of the session is sealed under the key derived from the first.\<close>

theorem create_reaches_platform:
  assumes "New h p api = Inr auth" and "Create p auth opts w = (Inr s, w')"
  shows "\<exists>k cred dk kek res probe d. v_Keys (ses_doc s) = [k] \<and> k_CredentialID k = er_CredentialID cred
    \<and> (\<exists>req d1 d2. Enroll p api req d1 = (Inr cred, d2)) \<and> genuine p cred (o_Roots opts)
    \<and> platformAsserts api \<lparr>dq_RPID = o_RPID opts, dq_CredentialIDs = [k_CredentialID k],
         dq_Salt = v_Salt (ses_doc s), dq_UV = UVDiscouraged, dq_Timeout = 0\<rparr> res d
    \<and> platformAsserts api \<lparr>dq_RPID = o_RPID opts, dq_CredentialIDs = [k_CredentialID k],
         dq_Salt = flipLast (v_Salt (ses_doc s)), dq_UV = UVDiscouraged, dq_Timeout = 0\<rparr> probe (w_device w')
    \<and> ga_HMACSecret probe \<noteq> ga_HMACSecret res
    \<and> bit (ga_AuthenticatorData res ! 32) 0 \<and> bit (ga_AuthenticatorData probe ! 32) 0
    \<and> bit (ga_AuthenticatorData res ! 32) 2 = v_UserVerified (ses_doc s)
    \<and> bit (ga_AuthenticatorData probe ! 32) 2 = v_UserVerified (ses_doc s)
    \<and> ses_dataKey s = Some dk \<and> deriveKEK p (ga_HMACSecret res) (v_Salt (ses_doc s)) = Inr kek
    \<and> k_Wrapped k = gcmSeal p kek (k_Nonce k) dk (keyAAD (ses_doc s) 0 (k_CredentialID k))"
proof -
  note door = New_ok [OF assms(1)]
  obtain salt w1 cred derived w2 w3 dk w4 entry where
      enrolled: "enrollAndDerive p auth (createdDoc opts salt False False) opts UVDiscouraged w1
        = (Inr (cred, derived), w2)"
    and gate: "verifyDerivationDependsOnSalt auth (o_RPID opts) (er_CredentialID cred) salt
        (dr_Secret derived) UVDiscouraged (dr_UserVerified derived) w2 = (Inr (), w3)"
    and dk: "randomBytes 32 w3 = (Inr dk, w4)"
    and wrapped: "wrapDataKey p (createdDoc opts salt (dr_UserVerified derived) True) dk
        (er_CredentialID cred) (dr_Secret derived) 0 (optsLabel opts) w4 = (Inr entry, w')"
    and s: "s = \<lparr>ses_doc = (createdDoc opts salt (dr_UserVerified derived) True)\<lparr>v_Keys := [entry]\<rparr>,
           ses_opts = opts, ses_dataKey = Some dk\<rparr>"
    using Create_ok [OF assms(2)] by (elim exE conjE) (rule that)
  let ?first = "firstDerive (createdDoc opts salt False False) UVDiscouraged (er_CredentialID cred)"
  let ?second = "probeRequest (o_RPID opts) (er_CredentialID cred) salt UVDiscouraged"
  obtain req wa wb where made: "callEnroll auth req wa = (Inr cred, wb)"
    and genuine: "genuine p cred (o_Roots opts)"
    and first: "callDerive auth ?first wb = (Inr derived, w2)" and present: "dr_UserPresent derived"
    using enrollAndDerive_ok [OF enrolled] by (auto simp: verifyGenuineHardware_ok)
  obtain got where second: "callDerive auth ?second w2 = (Inr got, w3)"
    and got: "dr_UserPresent got" "dr_UserVerified got = dr_UserVerified derived" "dr_Secret got \<noteq> dr_Secret derived"
    using gate by (auto simp: gate_ok_iff)
  have enroll: "\<exists>req d1 d2. Enroll p api req d1 = (Inr cred, d2)"
    using made unfolding door(3) by (auto simp: callEnroll_def windowsAuthenticator_def split: prod.splits)
  obtain res where res: "platformAsserts api ?first res (w_device w2)" "decodeAssertion ?first res = Inr derived"
    using Derive_platform [OF callDerive_windows [OF first [unfolded door(3)]]] .
  obtain probe where probe: "platformAsserts api ?second probe (w_device w3)" "decodeAssertion ?second probe = Inr got"
    using Derive_platform [OF callDerive_windows [OF second [unfolded door(3)]]] .
  obtain kek where kek: "deriveKEK p (dr_Secret derived) salt = Inr kek" "k_CredentialID entry = er_CredentialID cred"
      "k_Wrapped entry = gcmSeal p kek (k_Nonce entry) dk (keyAAD (ses_doc s) 0 (er_CredentialID cred))"
    and device: "w_device w' = w_device w3"
    using wrapped randomBytes_world [OF dk] randomBytes_world
    by (fastforce simp: wrapDataKey_ok seal_ok s keyAAD_def aad_def)
  then show ?thesis
    using genuine enroll res(1) probe(1) decodeAssertion_ok(1,4,5) [OF res(2)] decodeAssertion_ok(1,4,5) [OF probe(2)]
      present got
    by (intro exI [of _ entry] exI [of _ cred] exI [of _ dk] exI [of _ kek] exI [of _ res] exI [of _ probe]
          exI [of _ "w_device w2"])
       (simp add: s firstDerive_def probeRequest_def createdDoc_def)
qed

theorem create_reaches_platform_witness:
  "\<exists>s w' k res probe d. Create toyX (windowsAuthenticator toyX (keyDLL 1)) toyOpts
       ((toyWorldTo 100)\<lparr>w_entropy := \<lambda>d. Some (\<lambda>i. of_nat d)\<rparr>) = (Inr s, w')
     \<and> v_Keys (ses_doc s) = [k] \<and> k_CredentialID k = [1]
     \<and> platformAsserts (keyDLL 1) \<lparr>dq_RPID = ''v.invalid'', dq_CredentialIDs = [[1]],
         dq_Salt = v_Salt (ses_doc s), dq_UV = UVDiscouraged, dq_Timeout = 0\<rparr> res d
     \<and> ga_HMACSecret (probe :: GetAssertionResult) \<noteq> ga_HMACSecret res"
proof -
  let ?w = "(toyWorldTo 100)\<lparr>w_entropy := \<lambda>d. Some (\<lambda>i. of_nat d)\<rparr>"
  have "conforms toyX (toyPRF [1]) (\<lambda>uv. uv = UVRequired) [1] (o_Roots toyOpts)
      (windowsAuthenticator toyX (keyDLL 1))"
    using keyDLL_conforms by (simp add: toyOpts_def)
  moreover have "entropyLasts ?w" "o_RPID toyOpts = ''v.invalid''"
    "noNUL (o_RPID toyOpts)" "noNUL (o_RPName toyOpts)"
    by (simp_all add: entropyLasts_def toyOpts_def noNUL_def)
  ultimately obtain s w' where s: "Create toyX (windowsAuthenticator toyX (keyDLL 1)) toyOpts ?w = (Inr s, w')"
      "map k_CredentialID (v_Keys (ses_doc s)) = [[1]]"
    using Create_live [OF _ toyX_hkdf_total] by (metis list.distinct(1))
  obtain k res and probe :: GetAssertionResult and d where k: "v_Keys (ses_doc s) = [k]"
    and asserted: "platformAsserts (keyDLL 1) \<lparr>dq_RPID = o_RPID toyOpts, dq_CredentialIDs = [k_CredentialID k],
         dq_Salt = v_Salt (ses_doc s), dq_UV = UVDiscouraged, dq_Timeout = 0\<rparr> res d"
      "ga_HMACSecret probe \<noteq> ga_HMACSecret res"
    using create_reaches_platform [OF toyHost_opens s(1)] by (elim exE conjE) (rule that)
  moreover have "k_CredentialID k = [1]" using s(2) k by simp
  ultimately show ?thesis using s(1) by (auto simp: toyOpts_def)
qed

section \<open>The provider meets the contract of the port\<close>

interpretation windows: authenticator_port
  "\<lambda>(p, api, pf). dll_answers api \<and> dll_derives pf api"
  "\<lambda>(p, api, pf). windowsAuthenticator p api" "\<lambda>(p, api, pf). pf"
  by unfold_locales (auto simp: provider_honest)

text \<open>C6: a vault made elsewhere opens on Windows. If the platform keeps the two promises of
  \<open>provider_meets_port\<close> (it names no credential or one of the allow-list, and its output is a function
  of the answering credential, the salt and the user verification, where the answer is named or the
  list has one entry), then a vault created and changed with any
  devices that derive the same function, and stored, is opened from its bytes with the authenticator
  \<open>New\<close> returns, unlocked by one answer of the platform with a touch and the recorded user verification,
  and every name reads what was stored under it. The condition on the caller is that of a vault that
  persists at all: the RP ID, the labels and the names passed in are valid UTF-8 and the slots are in the
  range of an \<open>int64\<close> (\<open>plainOpts\<close>, \<open>plainOp\<close>).\<close>

theorem windows_vault_reopens:
  assumes "New h x api = Inr opener" and "dll_answers api" "dll_derives pf api"
    and "honest x pf creator" "honest x pf operator" "plainOpts opts" "list_all plainOp ops"
    and "Create x creator opts w0 = (Inr s0, w1)"
    and "runOps (runOp x operator) ops (s0, w2) = (Inr (), (s, w3))"
    and "session_Sealed nils s = Inr data" and "o_RPID opts' = [] \<or> o_RPID opts' = o_RPID opts"
    and "Derive api (unlockRequest (ses_doc s)) (w_device w4) = (Inr derived, d)"
    and "dr_UserPresent derived" "dr_UserVerified derived = v_UserVerified (ses_doc s)"
  shows "\<exists>v s' w5. OpenWith data opts' = Inr v \<and> unlock x v opener w4 = (Inr s', w5) \<and> w_device w5 = d
    \<and> ReadString x n (s', w6) =
        (case absOps ops (\<lambda>_. None) n of Some pt \<Rightarrow> Inr (string_of_bytes pt)
         | None \<Rightarrow> Inl (wrap ''%w: %q'' (Sentinel ErrNoSuchSecret)), (s', w6))"
proof -
  let ?w5 = "w4\<lparr>w_device := d, w_gestures := w_gestures w4 @ [GDerive (unlockRequest (ses_doc s))]\<rparr>"
  have "callDerive (windowsAuthenticator x api) (unlockRequest (ses_doc s)) w4 = (Inr derived, ?w5)"
    using assms(12) by (simp add: callDerive_def windowsAuthenticator_def)
  moreover have "dll_answers api \<and> dll_derives pf api" using assms(2,3) by blast
  ultimately have "\<exists>v s'. OpenWith data opts' = Inr v \<and> unlock x v opener w4 = (Inr s', ?w5)
    \<and> ReadString x n (s', w6) =
        (case absOps ops (\<lambda>_. None) n of Some pt \<Rightarrow> Inr (string_of_bytes pt)
         | None \<Rightarrow> Inl (wrap ''%w: %q'' (Sentinel ErrNoSuchSecret)), (s', w6))"
    unfolding New_ok(3) [OF assms(1)]
    using windows.device_reopens [of "(x, api, pf)", unfolded prod.case, OF _ assms(4-11) _ assms(13,14)]
    by blast
  then show ?thesis by auto
qed

theorem windows_vault_reopens_witness:
  "\<exists>data v s' w5. OpenWith data zeroOptions = Inr v
     \<and> unlock toyX v (windowsAuthenticator toyX (keyDLL 2)) (toyAt 60) = (Inr s', w5)
     \<and> ReadString toyX ''a'' (s', toyAt 9) = (Inr (string_of_bytes [1, 2]), (s', toyAt 9))"
proof -
  obtain w1 where created: "Create toyX (toyKey 1) toyOpts (toyWorldTo 100) = (Inr (toySession 1), w1)"
    using toy_create by blast
  obtain s w2 where run: "runOps (runOp toyX (toyKey 2)) toyOps (toySession 1, toyAt 4) = (Inr (), (s, w2))"
    and ids: "credentialIDs (ses_doc s) = [[1], [2]]" "v_UserVerified (ses_doc s) = False"
    using toy_ops_run by blast
  obtain data where data: "session_Sealed (\<lambda>_. True) s = Inr data" by (simp add: session_Sealed_def marshal_def)
  let ?req = "unlockRequest (ses_doc s)"
  have "Validate ?req = Inr ()" "[2] \<in> set (dq_CredentialIDs ?req)"
    using ids run.runOps_keeps_frame [OF run]
    by (simp_all add: Validate_ok_iff unlockRequest_def SaltLen_def sameFrame_def)
  from keyDLL_derives [OF this] obtain derived where
      touch: "Derive (keyDLL 2) ?req (w_device (toyAt 60)) = (Inr derived, ())"
      "dr_UserPresent derived" "dr_UserVerified derived = v_UserVerified (ses_doc s)"
    using ids(2) by (simp add: unlockRequest_def uvRequirement_def)
  have read: "absOps toyOps (\<lambda>_. None) ''a'' = Some [1, 2]" by (simp add: absOps_def toyOps_def)
  have "o_RPID zeroOptions = [] \<or> o_RPID zeroOptions = o_RPID toyOpts" by (simp add: zeroOptions_def)
  from windows_vault_reopens [OF toyHost_opens keyDLL_answers keyDLL_derives_by toyKey_honest toyKey_honest
      toyOpts_plain toyOps_plain created run data this touch, of "''a''" "toyAt 9"]
  show ?thesis unfolding read by auto
qed

end
