(* ===== verification/WinLiveness.thy ===== *)
theory WinLiveness
  imports WinVault
begin

text \<open>
  A platform that does what it documents: it converts strings without \<open>NUL\<close>, makes the credential it is
  asked for and asserts it over the salt it is given. Over such a platform the whole program works, from
  \<open>New\<close> down to the structures in memory and back.
\<close>

section \<open>The platform\<close>

text \<open>What a call to make a credential asks for, when the platform need not refuse it.\<close>

definition asksProperly :: "coseCredentialParameters \<Rightarrow> clientData \<Rightarrow> makeCredentialOptions \<Rightarrow> bool" where
  "asksProperly params client opts \<longleftrightarrow>
     mo_requireResidentKey opts = 0 \<and> mo_attestationConveyance opts = 3 \<and> mo_authenticatorAttachment opts = 2
     \<and> cp_count params = 1 \<and> map_option cose_alg (cp_parameters params) = Some (- 7)
     \<and> cd_json client = Some (bytes_of_string ''{}'') \<and> xs_count (mo_ext opts) = 1 \<and> xs_extensions (mo_ext opts) \<noteq> None"

definition enrolledAs :: "MakeCredentialResult \<Rightarrow> EnrollResult" where
  "enrolledAs res =
     \<lparr>er_CredentialID = mc_CredentialID res, er_PRFEnabled = True, er_ResidentKey = mc_ResidentKey res,
      er_AttestationFormat = mc_AttestationFormat res, er_AttestationAlg = mc_AttestationAlg res,
      er_AttestationSignature = mc_AttestationSignature res, er_AuthenticatorData = mc_AuthenticatorData res,
      er_ClientDataHash = mc_ClientDataHash res, er_AttestationCerts = mc_AttestationCerts res\<rparr>"

definition platform_makes ::
  "'z x509_scheme \<Rightarrow> bytes \<Rightarrow> certPool option \<Rightarrow> 'd winapi \<Rightarrow> bool" where
  "platform_makes p c roots api \<longleftrightarrow>
     (\<forall>h rp user params client opts d. asksProperly params client opts \<longrightarrow>
        (\<exists>out m d'. procMakeCredential api h rp user params client opts d = ((0, out, m), d') \<and> out \<noteq> 0
           \<and> mc_CredentialID (readCredential p api m out) = c \<and> \<not> mc_ResidentKey (readCredential p api m out)
           \<and> genuine p (enrolledAs (readCredential p api m out)) roots))"

text \<open>An assertion, with the user verified as \<open>obs\<close> says for the requirement it is given.\<close>

definition asserts :: "(bytes \<Rightarrow> bytes \<Rightarrow> bool \<Rightarrow> bytes) \<Rightarrow> bytes \<Rightarrow> bytes \<Rightarrow> bool \<Rightarrow> GetAssertionResult \<Rightarrow> bool" where
  "asserts pf c salt u res \<longleftrightarrow> ga_AnsweringCredential res = c \<and> 33 \<le> length (ga_AuthenticatorData res)
     \<and> bit (ga_AuthenticatorData res ! 32) 0 \<and> bit (ga_AuthenticatorData res ! 32) 2 = u
     \<and> ga_HMACSecret res = pf c salt u"

definition platform_asserts ::
  "(bytes \<Rightarrow> bytes \<Rightarrow> bool \<Rightarrow> bytes) \<Rightarrow> (32 word \<Rightarrow> bool) \<Rightarrow> bytes \<Rightarrow> 'd winapi \<Rightarrow> bool" where
  "platform_asserts pf obs c api \<longleftrightarrow>
     (\<forall>h rp client opts d salt. Some c \<in> set (allowed opts) \<longrightarrow> saltGiven opts = Some salt \<longrightarrow> length salt = 32 \<longrightarrow>
        (\<exists>out m d'. procGetAssertion api h rp client opts d = ((0, out, m), d') \<and> out \<noteq> 0
           \<and> asserts pf c salt (obs (go_userVerificationReq opts)) (readAssertion m out)))"

definition converts_text :: "'d winapi \<Rightarrow> bool" where
  "converts_text api \<longleftrightarrow> (\<forall>s. noNUL s \<longrightarrow> (\<exists>u. UTF16PtrFromString api s = Inr u))"

text \<open>A key that derives from every salt, and differently when its last byte is flipped.\<close>

definition keyed_by :: "(bytes \<Rightarrow> bytes \<Rightarrow> bool \<Rightarrow> bytes) \<Rightarrow> bytes \<Rightarrow> bool" where
  "keyed_by pf c \<longleftrightarrow> c \<noteq> []
     \<and> (\<forall>salt u. pf c salt u \<noteq> [] \<and> (length salt = 32 \<longrightarrow> pf c (flipLast salt) u \<noteq> pf c salt u))"

section \<open>The provider on it conforms\<close>

lemma noNUL_literals:
  "noNUL credentialTypePublicKey" "noNUL hashAlgorithmSHA256" "noNUL extensionIdentifierHMACSecret"
  "noNUL credentialHintSecurityKey"
  by (simp_all add: noNUL_def credentialTypePublicKey_def hashAlgorithmSHA256_def extensionIdentifierHMACSecret_def
      credentialHintSecurityKey_def)

lemma utf16E_converts:
  assumes "converts_text api" "noNUL s"
  obtains u where "\<And>d. utf16E api s d = (Inr u, d)"
  using assms by (auto simp: converts_text_def utf16E_def liftE_def)

lemma makeOptions_proper: "asksProperly (es256Only t) (clientDataFor ha) (makeOptions req hm)"
  by (simp add: asksProperly_def makeOptions_def hmacExtension_def es256Only_def clientDataFor_def clientJSON_def
      bytePtr_def coseAlgorithmES256_def attachmentCrossPlatform_def attestationConveyanceDirect_def bytes_of_string_def)

lemma Enroll_live:
  assumes "converts_text api" "platform_makes p c roots api" "c \<noteq> []"
    and "noNUL (eq_RPID req)" "noNUL (eq_RPName req)" "noNUL (eq_UserName req)"
  shows "\<exists>cred. fst (Enroll p api req d) = Inr cred \<and> er_CredentialID cred = c \<and> \<not> er_ResidentKey cred
    \<and> genuine p cred roots"
proof -
  obtain window d1 where w: "ConsoleWindow api d = (window, d1)" by (cases "ConsoleWindow api d")
  let ?r = "makeRequest req window"
  have names: "noNUL (mr_RPID ?r)" "noNUL (mr_RPName ?r)" "noNUL (mr_UserName ?r)"
    using assms(4-6) by (simp_all add: makeRequest_def)
  obtain rp where rp: "\<And>d. utf16E api (mr_RPID ?r) d = (Inr rp, d)" using utf16E_converts [OF assms(1) names(1)] by metis
  obtain rn where rn: "\<And>d. utf16E api (mr_RPName ?r) d = (Inr rn, d)" using utf16E_converts [OF assms(1) names(2)] by metis
  obtain un where un: "\<And>d. utf16E api (mr_UserName ?r) d = (Inr un, d)" using utf16E_converts [OF assms(1) names(3)] by metis
  obtain t where t: "\<And>d. utf16E api credentialTypePublicKey d = (Inr t, d)"
    using utf16E_converts [OF assms(1) noNUL_literals(1)] by metis
  obtain ha where ha: "\<And>d. utf16E api hashAlgorithmSHA256 d = (Inr ha, d)"
    using utf16E_converts [OF assms(1) noNUL_literals(2)] by metis
  obtain hm where hm: "\<And>d. utf16E api extensionIdentifierHMACSecret d = (Inr hm, d)"
    using utf16E_converts [OF assms(1) noNUL_literals(3)] by metis
  obtain out m d2 where
    made: "procMakeCredential api (mr_WindowHandle ?r) (rpEntity rp rn) (userEntity ?r un) (es256Only t)
      (clientDataFor ha) (makeOptions ?r hm) d1 = ((0, out, m), d2)" "out \<noteq> 0"
    and good: "mc_CredentialID (readCredential p api m out) = c" "\<not> mc_ResidentKey (readCredential p api m out)"
      "genuine p (enrolledAs (readCredential p api m out)) roots"
    using assms(2) makeOptions_proper unfolding platform_makes_def by blast
  have "MakeCredential p api ?r d1 = (Inr (readCredential p api m out), procFreeCredentialAttestation api out d2)"
    using made by (simp add: MakeCredential_def bindE_def rp rn un t ha hm)
  then have "fst (Enroll p api req d) = Inr (enrolledAs (readCredential p api m out))"
    using w good(1) assms(3) by (simp add: Enroll_def bindE_def enrolledAs_def returnE_def)
  then show ?thesis using good by (simp add: enrolledAs_def)
qed

lemma versionAndHints_live:
  assumes "converts_text api"
  obtains v hs d' where "versionAndHints api d = (Inr (v, hs), d')"
proof -
  obtain u where u: "\<And>d. utf16E api credentialHintSecurityKey d = (Inr u, d)"
    using utf16E_converts [OF assms noNUL_literals(4)] by metis
  obtain v d1 where v: "APIVersion api d = (v, d1)" by (cases "APIVersion api d")
  have "\<exists>v hs d'. versionAndHints api d = (Inr (v, hs), d')"
    by (cases "apiVersionForHints \<le> v") (simp_all add: versionAndHints_def v u bindE_def returnE_def)
  then show thesis using that by blast
qed

lemma Derive_live:
  assumes "converts_text api" "platform_asserts pf obs c api" "keyed_by pf c"
    and "noNUL (dq_RPID req)" "Validate req = Inr ()" "c \<in> set (dq_CredentialIDs req)"
  shows "\<exists>r. fst (Derive api req d) = Inr r \<and> dr_CredentialID r = c \<and> dr_UserPresent r
    \<and> dr_UserVerified r = obs (uvReq (dq_UV req = UVRequired))
    \<and> dr_Secret r = pf c (dq_Salt req) (obs (uvReq (dq_UV req = UVRequired)))"
proof -
  obtain window d1 where w: "ConsoleWindow api d = (window, d1)" by (cases "ConsoleWindow api d")
  let ?r = "assertionRequest req window" and ?u = "obs (uvReq (dq_UV req = UVRequired))"
  have "noNUL (gr_RPID ?r)" using assms(4) by (simp add: assertionRequest_def)
  then obtain rp where rp: "\<And>d. utf16E api (gr_RPID ?r) d = (Inr rp, d)" using utf16E_converts [OF assms(1)] by metis
  obtain t where t: "\<And>d. utf16E api credentialTypePublicKey d = (Inr t, d)"
    using utf16E_converts [OF assms(1) noNUL_literals(1)] by metis
  obtain ha where ha: "\<And>d. utf16E api hashAlgorithmSHA256 d = (Inr ha, d)"
    using utf16E_converts [OF assms(1) noNUL_literals(2)] by metis
  obtain v hs d2 where v: "versionAndHints api d1 = (Inr (v, hs), d2)" using versionAndHints_live [OF assms(1)] by metis
  let ?opts = "assertionOptions ?r t v hs"
  have valid: "[] \<notin> set (dq_CredentialIDs req)" "length (dq_Salt req) = 32"
    using assms(5) by (simp_all add: Validate_ok_iff SaltLen_def)
  have asked: "Some c \<in> set (allowed ?opts)" "saltGiven ?opts = Some (dq_Salt req)"
    "go_userVerificationReq ?opts = uvReq (dq_UV req = UVRequired)"
    using valid assms(6)
    by (auto simp: saltGiven_def saltValuesFor_def allowed_def allowListFor_ids assertionRequest_def bytePtr_def)
  then obtain out m d3 where
    call: "procGetAssertion api (gr_WindowHandle ?r) rp (clientDataFor ha) ?opts d2 = ((0, out, m), d3)" "out \<noteq> 0"
    and res: "asserts pf c (dq_Salt req) ?u (readAssertion m out)"
    using assms(2) valid(2) unfolding platform_asserts_def by (metis (no_types, lifting))
  have "GetAssertion api ?r d1 = (Inr (readAssertion m out), procFreeAssertion api out d3)"
    using call by (simp add: GetAssertion_def bindE_def rp t ha v)
  then have "fst (Derive api req d) = decodeAssertion req (readAssertion m out)"
    using w assms(5) by (simp add: Derive_def bindE_def liftE_def)
  then show ?thesis
    using res assms(3)
    by (simp add: asserts_def decodeAssertion_def keyed_by_def flagsAt_def flag_bits Let_def)
qed

lemma windows_conforms:
  assumes "converts_text api" "platform_makes p c roots api" "platform_asserts pf obs c api" "keyed_by pf c"
  shows "conforms p (pf c) (\<lambda>uv. obs (uvReq (uv = UVRequired))) c roots (windowsAuthenticator p api)"
  using assms(4) Enroll_live [OF assms(1,2)] Derive_live [OF assms(1,3,4)]
  by (simp add: conforms_def keyed_by_def windowsAuthenticator_def)

section \<open>Creating and unlocking on Windows\<close>

lemma New_opens:
  "h_windows h \<Longrightarrow> \<not> h_testing h \<Longrightarrow> \<forall>n \<in> set agentEnvMarkers. h_env h n = None \<Longrightarrow>
     New h p api = Inr (windowsAuthenticator p api)"
  by (simp add: New_cases agentEnvMarkers_def)

lemma unlock_request:
  "v_Keys d = [k] \<Longrightarrow> k_CredentialID k \<noteq> [] \<Longrightarrow> length (v_Salt d) = 32 \<Longrightarrow>
     Validate (unlockRequest d) = Inr () \<and> k_CredentialID k \<in> set (dq_CredentialIDs (unlockRequest d))"
  by (simp add: Validate_ok_iff unlockRequest_def credentialIDs_def SaltLen_def)


section \<open>A platform with these properties\<close>

lemma keyDLL_platform:
  "converts_text (keyDLL i)" "platform_makes toyX [i] None (keyDLL i)" "keyed_by toyPRF [i]"
  "platform_asserts toyPRF (\<lambda>r. r = 1) [i] (keyDLL i)"
proof -
  show "converts_text (keyDLL i)" by (simp add: converts_text_def keyDLL_def toyDLL_def)
  have "enrolledAs (readCredential toyX (keyDLL i) (keyAttestation i) 4096) = keyCredential i"
    by (simp add: enrolledAs_def keyAttestation_read keyCredential_def)
  then show "platform_makes toyX [i] None (keyDLL i)"
    using keyCredential_genuine [of i] keyAttestation_read [of i]
    by (auto simp: platform_makes_def keyDLL_def)
  have "flipLast salt \<noteq> salt" if "length salt = 32" for salt :: bytes
    using that flipLast_neq [of salt] by fastforce
  then show "keyed_by toyPRF [i]" by (simp add: keyed_by_def toyPRF_def)
  show "platform_asserts toyPRF (\<lambda>r. r = 1) [i] (keyDLL i)"
    by (auto simp: platform_asserts_def asserts_def keyDLL_def keyAssertion_read authDataFor_flags)
qed


end
