(* ===== verification/Procedures.thy ===== *)
theory Procedures
  imports Prelude
begin

text \<open>
  Procedures that run in small steps. A method body is a sequence of accesses to the shared state, each
  of which another goroutine may come between: an access updates the state and goes on with what it
  has read. \<open>exec\<close> runs a procedure alone. Threads call procedures on objects that have a mutex each;
  the pool interleaves their steps in any order and records every call with its answer.
\<close>

section \<open>Procedures\<close>

datatype ('s, 'a) proc = Ret 'a | Act "'s \<Rightarrow> 's" "'s \<Rightarrow> ('s, 'a) proc"

primrec exec :: "('s, 'a) proc \<Rightarrow> 's \<Rightarrow> 'a \<times> 's" where
  "exec (Ret a) = (\<lambda>s. (a, s))"
| "exec (Act u k) = (\<lambda>s. exec (k s) (u s))"

primrec andThen :: "('s, 'a) proc \<Rightarrow> ('a \<Rightarrow> ('s, 'b) proc) \<Rightarrow> ('s, 'b) proc" where
  "andThen (Ret a) f = f a"
| "andThen (Act u k) f = Act u (\<lambda>s. andThen (k s) f)"

lemma exec_andThen: "exec (andThen p f) s = (case exec p s of (a, s') \<Rightarrow> exec (f a) s')"
  by (induction p arbitrary: s) auto

lemma exec_cong: "exec p s = (a, s') \<Longrightarrow> exec (andThen p f) s = exec (f a) s'"
  by (simp add: exec_andThen)

text \<open>A procedure that can fail: with an error it returns, or with a panic.\<close>

datatype 'e fault = Panic | Err 'e

type_synonym ('s, 'e, 'a) failing = "('s, 'e fault + 'a) proc"

definition retP :: "'a \<Rightarrow> ('s, 'e, 'a) failing" where
  "retP a = Ret (Inr a)"

definition failP :: "'e \<Rightarrow> ('s, 'e, 'a) failing" where
  "failP e = Ret (Inl (Err e))"

definition panicP :: "('s, 'e, 'a) failing" where
  "panicP = Ret (Inl Panic)"

definition bindP :: "('s, 'e, 'a) failing \<Rightarrow> ('a \<Rightarrow> ('s, 'e, 'b) failing) \<Rightarrow> ('s, 'e, 'b) failing" where
  "bindP p f = andThen p (\<lambda>r. case r of Inl e \<Rightarrow> Ret (Inl e) | Inr a \<Rightarrow> f a)"

definition readP :: "('s \<Rightarrow> 'a) \<Rightarrow> ('s, 'e, 'a) failing" where
  "readP g = Act (\<lambda>s. s) (\<lambda>s. Ret (Inr (g s)))"

definition writeP :: "('s \<Rightarrow> 's) \<Rightarrow> ('s, 'e, unit) failing" where
  "writeP u = Act u (\<lambda>_. Ret (Inr ()))"

fun outcome :: "'e + 'a \<Rightarrow> 'e fault + 'a" where
  "outcome (Inl e) = Inl (Err e)"
| "outcome (Inr a) = Inr a"

definition liftP :: "'e + 'a \<Rightarrow> ('s, 'e, 'a) failing" where
  "liftP r = Ret (outcome r)"

lemma outcome_simps [simp]:
  "outcome r = Inl f \<longleftrightarrow> (\<exists>e. r = Inl e \<and> f = Err e)" "outcome r = Inr a \<longleftrightarrow> r = Inr a"
  "outcome r \<noteq> Inl Panic"
  by (cases r; auto)+

lemma exec_failing [simp]:
  "exec (retP a) s = (Inr a, s)" "exec (failP e) s = (Inl (Err e), s)" "exec panicP s = (Inl Panic, s)"
  "exec (readP g) s = (Inr (g s), s)" "exec (writeP u) s = (Inr (), u s)" "exec (liftP r) s = (outcome r, s)"
  by (simp_all add: retP_def failP_def panicP_def readP_def writeP_def liftP_def)

lemma exec_bindP:
  "exec (bindP p f) s = (case exec p s of (Inl e, s') \<Rightarrow> (Inl e, s') | (Inr a, s') \<Rightarrow> exec (f a) s')"
  by (simp add: bindP_def exec_andThen split: prod.split sum.split)

section \<open>Threads and mutexes\<close>

text \<open>
  A thread is idle, or waits for the mutex of an object, or holds it and has some of the body left. The
  answer is recorded, with the object, the thread and the call, when the mutex is released.
\<close>

datatype ('s, 'c, 'a) thread = Idle | Waiting nat 'c | Holding nat 'c "('s, 'a) proc"

record ('s, 'c, 'a) pool =
  p_shared :: 's
  p_mutex :: "nat \<Rightarrow> nat option"
  p_threads :: "nat \<Rightarrow> ('s, 'c, 'a) thread"
  p_history :: "(nat \<times> nat \<times> 'c \<times> 'a) list"

definition startPool :: "'s \<Rightarrow> ('s, 'c, 'a) pool" where
  "startPool s = \<lparr>p_shared = s, p_mutex = (\<lambda>_. None), p_threads = (\<lambda>_. Idle), p_history = []\<rparr>"

inductive poolStep ::
  "(nat \<Rightarrow> 'c \<Rightarrow> ('s, 'a) proc) \<Rightarrow> (nat \<Rightarrow> 'c \<Rightarrow> bool) \<Rightarrow> ('s, 'c, 'a) pool \<Rightarrow> ('s, 'c, 'a) pool \<Rightarrow> bool"
  for body allowed where
  calls: "p_threads y t = Idle \<Longrightarrow> allowed m c \<Longrightarrow>
    poolStep body allowed y (y\<lparr>p_threads := (p_threads y)(t := Waiting m c)\<rparr>)"
| acquires: "p_threads y t = Waiting m c \<Longrightarrow> p_mutex y m = None \<Longrightarrow>
    poolStep body allowed y
      (y\<lparr>p_mutex := (p_mutex y)(m \<mapsto> t), p_threads := (p_threads y)(t := Holding m c (body m c))\<rparr>)"
| acts: "p_threads y t = Holding m c (Act u k) \<Longrightarrow>
    poolStep body allowed y
      (y\<lparr>p_shared := u (p_shared y), p_threads := (p_threads y)(t := Holding m c (k (p_shared y)))\<rparr>)"
| returns: "p_threads y t = Holding m c (Ret a) \<Longrightarrow>
    poolStep body allowed y
      (y\<lparr>p_mutex := (p_mutex y)(m := None), p_threads := (p_threads y)(t := Idle),
         p_history := p_history y @ [(m, t, c, a)]\<rparr>)"

inductive_cases poolStepE: "poolStep body allowed y y'"

text \<open>Only allowed calls are made and recorded.\<close>

definition onlyAllowed :: "(nat \<Rightarrow> 'c \<Rightarrow> bool) \<Rightarrow> ('s, 'c, 'a) pool \<Rightarrow> bool" where
  "onlyAllowed allowed y \<longleftrightarrow> (\<forall>t m c. p_threads y t = Waiting m c \<longrightarrow> allowed m c)
     \<and> (\<forall>t m c p. p_threads y t = Holding m c p \<longrightarrow> allowed m c)
     \<and> (\<forall>(m, t, c, a) \<in> set (p_history y). allowed m c)"

interpretation allowedCalls: invariant_system "\<lambda>y. y = startPool s0" "poolStep body allowed" "onlyAllowed allowed"
proof unfold_locales
  show "y = startPool s0 \<Longrightarrow> onlyAllowed allowed y" for y
    by (simp add: startPool_def onlyAllowed_def)
  show "onlyAllowed allowed y'" if "poolStep body allowed y y'" "onlyAllowed allowed y" for y y'
    using that by cases (auto simp: onlyAllowed_def split: if_splits; blast)+
qed

lemma recorded_allowed:
  "(poolStep body allowed)\<^sup>*\<^sup>* (startPool s0) y \<Longrightarrow> (m, t, c, a) \<in> set (p_history y) \<Longrightarrow> allowed m c"
  using allowedCalls.reachable [OF refl] unfolding onlyAllowed_def by fast

section \<open>Objects that keep to their part of the state\<close>

text \<open>
  Each object of \<open>M\<close> owns a part of the state: its procedures read and write only what \<open>part m\<close> shows,
  and leave what the other objects of \<open>M\<close> see. Several parts may show the same data, which then nobody
  writes; with one object the part may be the whole state.
\<close>

inductive ownPart :: "(nat \<Rightarrow> 's \<Rightarrow> 'p) \<Rightarrow> nat set \<Rightarrow> nat \<Rightarrow> ('s, 'a) proc \<Rightarrow> bool" for part M m where
  ownRet [simp, intro]: "ownPart part M m (Ret a)"
| ownAct: "(\<And>s. ownPart part M m (k s)) \<Longrightarrow>
    (\<And>s s'. part m s = part m s' \<Longrightarrow> k s = k s' \<and> part m (u s) = part m (u s')) \<Longrightarrow>
    (\<And>s n. n \<in> M \<Longrightarrow> n \<noteq> m \<Longrightarrow> part n (u s) = part n s) \<Longrightarrow> ownPart part M m (Act u k)"

lemma ownActD:
  assumes "ownPart part M m (Act u k)"
  shows "ownPart part M m (k s)" "part m s = part m s' \<Longrightarrow> k s = k s'"
    "part m s = part m s' \<Longrightarrow> part m (u s) = part m (u s')"
    "n \<in> M \<Longrightarrow> n \<noteq> m \<Longrightarrow> part n (u s) = part n s"
  using assms by (cases rule: ownPart.cases; blast)+

lemma ownPart_andThen:
  "ownPart part M m p \<Longrightarrow> (\<And>a. ownPart part M m (f a)) \<Longrightarrow> ownPart part M m (andThen p f)"
proof (induction rule: ownPart.induct)
  case (ownAct k u)
  show ?case unfolding andThen.simps
  proof (rule ownPart.ownAct)
    show "ownPart part M m (andThen (k s) f)" for s using ownAct by blast
    show "andThen (k s) f = andThen (k s') f \<and> part m (u s) = part m (u s')" if "part m s = part m s'" for s s'
      using ownAct(2) [OF that] by simp
  qed (rule ownAct(3))
qed simp

lemma ownPart_bindP:
  "ownPart part M m p \<Longrightarrow> (\<And>a. ownPart part M m (f a)) \<Longrightarrow> ownPart part M m (bindP p f)"
  unfolding bindP_def by (rule ownPart_andThen) (auto split: sum.split)

lemma ownPart_failing [simp]:
  "ownPart part M m (retP a)" "ownPart part M m (failP e)" "ownPart part M m panicP" "ownPart part M m (liftP r)"
  by (simp_all add: retP_def failP_def panicP_def liftP_def)

lemma ownPart_readP: "(\<And>s s'. part m s = part m s' \<Longrightarrow> g s = g s') \<Longrightarrow> ownPart part M m (readP g)"
  unfolding readP_def by (rule ownAct, rule ownRet) metis+

lemma ownPart_writeP:
  "(\<And>s s'. part m s = part m s' \<Longrightarrow> part m (u s) = part m (u s')) \<Longrightarrow>
     (\<And>s n. n \<in> M \<Longrightarrow> n \<noteq> m \<Longrightarrow> part n (u s) = part n s) \<Longrightarrow> ownPart part M m (writeP u)"
  unfolding writeP_def by (rule ownAct, rule ownRet) metis+

lemma ownPart_whole: "ownPart (\<lambda>_ s. s) {m} m p"
proof (induction p)
  case (Act u k)
  show ?case by (rule ownAct) (use Act in auto)
qed simp

section \<open>A mutex makes the calls of its object atomic\<close>

text \<open>The calls of a history, run one after the other, give the recorded answers and this state.\<close>

fun replay :: "(nat \<Rightarrow> 'c \<Rightarrow> ('s, 'a) proc) \<Rightarrow> (nat \<times> nat \<times> 'c \<times> 'a) list \<Rightarrow> 's \<Rightarrow> 's option" where
  "replay body [] s = Some s"
| "replay body ((m, t, c, a) # h) s =
     (case exec (body m c) s of (a', s') \<Rightarrow> if a' = a then replay body h s' else None)"

lemma replay_append:
  "replay body (h @ h') s = Option.bind (replay body h s) (replay body h')"
  by (induction h arbitrary: s) (auto split: prod.split)

definition callsOf :: "nat \<Rightarrow> (nat \<times> 'r) list \<Rightarrow> (nat \<times> 'r) list" where
  "callsOf m = filter (\<lambda>e. fst e = m)"

text \<open>
  The invariant. Whoever is inside an object holds its mutex. The calls an object has answered are a
  run of that object alone; if somebody is inside, what is left of the body, run alone from a state
  that looks the same to the object, is the whole body run from where the answered calls ended.
\<close>

definition objectAt ::
  "(nat \<Rightarrow> 's \<Rightarrow> 'p) \<Rightarrow> nat set \<Rightarrow> (nat \<Rightarrow> 'c \<Rightarrow> ('s, 'a) proc) \<Rightarrow> nat \<Rightarrow> 's \<Rightarrow> ('s, 'c, 'a) pool \<Rightarrow> bool" where
  "objectAt part M body m s y \<longleftrightarrow>
     (case p_mutex y m of
        None \<Rightarrow> part m (p_shared y) = part m s
      | Some t \<Rightarrow> \<exists>c p s1. p_threads y t = Holding m c p \<and> ownPart part M m p
          \<and> part m s1 = part m (p_shared y) \<and> exec p s1 = exec (body m c) s)"

definition atomicSoFar ::
  "(nat \<Rightarrow> 's \<Rightarrow> 'p) \<Rightarrow> nat set \<Rightarrow> (nat \<Rightarrow> 'c \<Rightarrow> ('s, 'a) proc) \<Rightarrow> (nat \<Rightarrow> 'c \<Rightarrow> bool) \<Rightarrow> 's
     \<Rightarrow> ('s, 'c, 'a) pool \<Rightarrow> bool" where
  "atomicSoFar part M body ok s0 y \<longleftrightarrow>
     (\<forall>t n c. p_threads y t = Waiting n c \<longrightarrow> n \<in> M \<and> ok n c)
     \<and> (\<forall>t n c p. p_threads y t = Holding n c p \<longrightarrow> n \<in> M \<and> p_mutex y n = Some t)
     \<and> (\<forall>m \<in> M. \<exists>s. replay body (callsOf m (p_history y)) s0 = Some s \<and> objectAt part M body m s y)"

locale separate_objects =
  fixes part :: "nat \<Rightarrow> 's \<Rightarrow> 'p" and M :: "nat set" and body :: "nat \<Rightarrow> 'c \<Rightarrow> ('s, 'a) proc"
    and ok :: "nat \<Rightarrow> 'c \<Rightarrow> bool"
  assumes own: "m \<in> M \<Longrightarrow> ok m c \<Longrightarrow> ownPart part M m (body m c)"
begin

lemma step:
  assumes "poolStep body (\<lambda>m c. m \<in> M \<and> ok m c) y y'" "atomicSoFar part M body ok s0 y"
  shows "atomicSoFar part M body ok s0 y'"
proof -
  have waits: "\<And>t n c. p_threads y t = Waiting n c \<Longrightarrow> n \<in> M \<and> ok n c"
    and holds: "\<And>t n c p. p_threads y t = Holding n c p \<Longrightarrow> n \<in> M \<and> p_mutex y n = Some t"
    and at: "\<And>m. m \<in> M \<Longrightarrow> \<exists>s. replay body (callsOf m (p_history y)) s0 = Some s \<and> objectAt part M body m s y"
    using assms(2) unfolding atomicSoFar_def by blast+
  from assms(1) show ?thesis
  proof cases
    case (calls t n c)
    have "objectAt part M body m s y'" if "objectAt part M body m s y" for m s
      using that calls by (fastforce simp: objectAt_def split: option.splits)
    with calls waits holds at show ?thesis
      unfolding atomicSoFar_def by simp blast
  next
    case (acquires t n c)
    have n: "n \<in> M" "ok n c" using waits acquires(2) by auto
    have "objectAt part M body m s y'" if "objectAt part M body m s y" for m s
    proof (cases "m = n")
      case True
      with that acquires(3) have "part n (p_shared y) = part n s" by (simp add: objectAt_def)
      with True own [OF n] acquires(1) show ?thesis by (auto simp: objectAt_def)
    next
      case False
      with that acquires show ?thesis by (fastforce simp: objectAt_def split: option.splits)
    qed
    with acquires n waits holds at show ?thesis
      unfolding atomicSoFar_def by simp (metis option.distinct(1))
  next
    case (acts t n c u k)
    have n: "n \<in> M" "p_mutex y n = Some t" using holds acts(2) by auto
    have "objectAt part M body m s y'" if "objectAt part M body m s y" "m \<in> M" for m s
    proof (cases "m = n")
      case True
      with that n acts(2) obtain s1 where s1: "ownPart part M n (Act u k)"
        "part n s1 = part n (p_shared y)" "exec (k s1) (u s1) = exec (body n c) s"
        by (auto simp: objectAt_def)
      note later = ownActD(1) [OF s1(1)] ownActD(2,3) [OF s1(1,2)]
      with True s1 n acts(1) show ?thesis by (auto simp: objectAt_def)
    next
      case False
      obtain s where "objectAt part M body n s y" using at n by blast
      with n acts(2) have "ownPart part M n (Act u k)" by (auto simp: objectAt_def)
      then have "part m (u (p_shared y)) = part m (p_shared y)"
        using False that(2) ownActD(4) by metis
      with False that acts(1,2) holds show ?thesis
        by (fastforce simp: objectAt_def split: option.splits)
    qed
    with acts n waits holds at show ?thesis
      unfolding atomicSoFar_def by simp metis
  next
    case (returns t n c a)
    have n: "n \<in> M" "p_mutex y n = Some t" using holds returns(2) by auto
    have "\<exists>s. replay body (callsOf m (p_history y')) s0 = Some s \<and> objectAt part M body m s y'"
      if m: "m \<in> M" for m
    proof -
      obtain s where s: "replay body (callsOf m (p_history y)) s0 = Some s" "objectAt part M body m s y"
        using at m by blast
      show ?thesis
      proof (cases "m = n")
        case True
        with s(2) n returns(2) obtain s1 where
          s1: "part n s1 = part n (p_shared y)" "exec (body n c) s = (a, s1)"
          by (auto simp: objectAt_def)
        then have "replay body (callsOf m (p_history y')) s0 = Some s1"
          using True s(1) returns(1) by (simp add: callsOf_def replay_append)
        with True s1(1) returns(1) show ?thesis by (auto simp: objectAt_def)
      next
        case False
        then have "objectAt part M body m s y'"
          using s(2) returns(1,2) holds by (fastforce simp: objectAt_def split: option.splits)
        with False s(1) returns(1) show ?thesis by (auto simp: callsOf_def)
      qed
    qed
    moreover have "n' \<in> M \<and> p_mutex y' n' = Some t'" if "p_threads y' t' = Holding n' c' p'" for t' n' c' p'
      using that returns(1) holds [of t' n' c' p'] n by (auto split: if_splits)
    moreover have "n' \<in> M \<and> ok n' c'" if "p_threads y' t' = Waiting n' c'" for t' n' c'
      using that returns(1) waits [of t' n' c'] by (auto split: if_splits)
    ultimately show ?thesis using returns(1) n(1) unfolding atomicSoFar_def by auto
  qed
qed

end

sublocale separate_objects \<subseteq> pools: invariant_system "\<lambda>y. y = startPool s0"
  "poolStep body (\<lambda>m c. m \<in> M \<and> ok m c)" "atomicSoFar part M body ok s0" for s0
proof unfold_locales
  show "y = startPool s0 \<Longrightarrow> atomicSoFar part M body ok s0 y" for y
    by (simp add: startPool_def atomicSoFar_def objectAt_def callsOf_def)
qed (rule step)

context separate_objects
begin

lemma atomic:
  assumes "(poolStep body (\<lambda>m c. m \<in> M \<and> ok m c))\<^sup>*\<^sup>* (startPool s0) y" "m \<in> M"
  shows "\<exists>s. replay body (callsOf m (p_history y)) s0 = Some s
    \<and> (p_mutex y m = None \<longrightarrow> part m (p_shared y) = part m s)"
  using pools.reachable [OF refl assms(1)] assms(2)
  by (fastforce simp: atomicSoFar_def objectAt_def split: option.splits)

end

section \<open>Schedules\<close>

text \<open>The next step of a thread that is inside or waits, if it has one.\<close>

definition poolTurn :: "(nat \<Rightarrow> 'c \<Rightarrow> ('s, 'a) proc) \<Rightarrow> ('s, 'c, 'a) pool \<Rightarrow> nat \<Rightarrow> ('s, 'c, 'a) pool" where
  "poolTurn body y t =
     (case p_threads y t of
        Idle \<Rightarrow> y
      | Waiting m c \<Rightarrow>
          (if p_mutex y m = None
           then y\<lparr>p_mutex := (p_mutex y)(m \<mapsto> t), p_threads := (p_threads y)(t := Holding m c (body m c))\<rparr> else y)
      | Holding m c p \<Rightarrow>
          (case p of
             Act u k \<Rightarrow> y\<lparr>p_shared := u (p_shared y), p_threads := (p_threads y)(t := Holding m c (k (p_shared y)))\<rparr>
           | Ret a \<Rightarrow> y\<lparr>p_mutex := (p_mutex y)(m := None), p_threads := (p_threads y)(t := Idle),
               p_history := p_history y @ [(m, t, c, a)]\<rparr>))"

lemma poolTurn_step: "poolTurn body y t = y \<or> poolStep body allowed y (poolTurn body y t)"
  by (auto simp: poolTurn_def split: thread.split proc.split intro: poolStep.intros)

text \<open>Following a schedule as long as every state on the way satisfies \<open>P\<close>.\<close>

fun follow :: "(('s, 'c, 'a) pool \<Rightarrow> bool) \<Rightarrow> (nat \<Rightarrow> 'c \<Rightarrow> ('s, 'a) proc) \<Rightarrow> ('s, 'c, 'a) pool \<Rightarrow> nat list
    \<Rightarrow> ('s, 'c, 'a) pool option" where
  "follow P body y [] = (if P y then Some y else None)"
| "follow P body y (t # ts) = (if P y then follow P body (poolTurn body y t) ts else None)"

definition stepWithin ::
  "(('s, 'c, 'a) pool \<Rightarrow> bool) \<Rightarrow> (nat \<Rightarrow> 'c \<Rightarrow> ('s, 'a) proc) \<Rightarrow> (nat \<Rightarrow> 'c \<Rightarrow> bool)
     \<Rightarrow> ('s, 'c, 'a) pool \<Rightarrow> ('s, 'c, 'a) pool \<Rightarrow> bool" where
  "stepWithin P body allowed y y' \<longleftrightarrow> poolStep body allowed y y' \<and> P y \<and> P y'"

lemma within_steps: "(stepWithin P body allowed)\<^sup>*\<^sup>* y y' \<Longrightarrow> (poolStep body allowed)\<^sup>*\<^sup>* y y'"
  by (erule rtranclp_mono [THEN predicate2D, rotated]) (auto simp: stepWithin_def)

lemma follow_start: "follow P body y ts = Some y' \<Longrightarrow> P y"
  by (cases ts) (auto split: if_splits)

lemma follow_steps: "follow P body y ts = Some y' \<Longrightarrow> (stepWithin P body allowed)\<^sup>*\<^sup>* y y'"
proof (induction ts arbitrary: y)
  case (Cons t ts)
  then have y: "P y" "follow P body (poolTurn body y t) ts = Some y'" by (auto split: if_splits)
  from Cons.IH [OF y(2)] have rest: "(stepWithin P body allowed)\<^sup>*\<^sup>* (poolTurn body y t) y'" .
  from poolTurn_step [of body y t allowed] show ?case
  proof
    assume "poolStep body allowed y (poolTurn body y t)"
    then have "stepWithin P body allowed y (poolTurn body y t)"
      using y(1) follow_start [OF y(2)] by (simp add: stepWithin_def)
    then show ?thesis using rest by (rule converse_rtranclp_into_rtranclp)
  qed (use rest in simp)
qed (auto split: if_splits)

section \<open>Whole segments\<close>

text \<open>A thread may run as much of its body as it likes before another one comes.\<close>

lemma andThen_assoc: "andThen (andThen p f) g = andThen p (\<lambda>r. andThen (f r) g)"
  by (induction p) auto

lemma bindP_assoc: "bindP (bindP p f) g = bindP p (\<lambda>a. bindP (f a) g)"
  unfolding bindP_def andThen_assoc by (rule arg_cong [where f = "andThen p"], rule ext) (simp split: sum.split)

lemma segment:
  assumes "p_threads y t = Holding m c (andThen p f)" "exec p (p_shared y) = (a, s')"
  shows "(poolStep body allowed)\<^sup>*\<^sup>* y
    (y\<lparr>p_shared := s', p_threads := (p_threads y)(t := Holding m c (f a))\<rparr>)"
  using assms
proof (induction p arbitrary: y)
  case (Ret b)
  then have "y\<lparr>p_shared := s', p_threads := (p_threads y)(t := Holding m c (f a))\<rparr> = y"
    by (cases y) auto
  then show ?case by (metis rtranclp.rtrancl_refl)
next
  case (Act u k)
  let ?y = "y\<lparr>p_shared := u (p_shared y), p_threads := (p_threads y)(t := Holding m c (andThen (k (p_shared y)) f))\<rparr>"
  have "poolStep body allowed y ?y" using Act.prems(1) by (intro poolStep.acts) simp
  moreover have "(poolStep body allowed)\<^sup>*\<^sup>* ?y
      (?y\<lparr>p_shared := s', p_threads := (p_threads ?y)(t := Holding m c (f a))\<rparr>)"
    using Act.prems(2) by (intro Act.IH) simp_all
  ultimately show ?case by (simp add: converse_rtranclp_into_rtranclp del: fun_upd_apply)
qed

text \<open>\<open>turnsTo\<close>: steps lead to a pool with this state, these mutexes, these threads and this history.\<close>

definition turnsTo ::
  "(nat \<Rightarrow> 'c \<Rightarrow> ('s, 'a) proc) \<Rightarrow> (nat \<Rightarrow> 'c \<Rightarrow> bool) \<Rightarrow> ('s, 'c, 'a) pool
     \<Rightarrow> 's \<Rightarrow> (nat \<Rightarrow> nat option) \<Rightarrow> (nat \<Rightarrow> ('s, 'c, 'a) thread) \<Rightarrow> (nat \<times> nat \<times> 'c \<times> 'a) list \<Rightarrow> bool" where
  "turnsTo body allowed y s mu th h \<longleftrightarrow>
     (poolStep body allowed)\<^sup>*\<^sup>* y \<lparr>p_shared = s, p_mutex = mu, p_threads = th, p_history = h\<rparr>"

lemma turns_start: "turnsTo body allowed y (p_shared y) (p_mutex y) (p_threads y) (p_history y)"
  by (cases y) (simp add: turnsTo_def)

lemma turns_segment:
  assumes "turnsTo body allowed y s mu th h" "th t = Holding m c (bindP p f)" "exec p s = (Inr a, s')"
  shows "turnsTo body allowed y s' mu (th(t := Holding m c (f a))) h"
proof -
  let ?y = "\<lparr>p_shared = s, p_mutex = mu, p_threads = th, p_history = h\<rparr>"
  have "p_threads ?y t = Holding m c (andThen p (\<lambda>r. case r of Inl e \<Rightarrow> Ret (Inl e) | Inr a \<Rightarrow> f a))"
    using assms(2) by (simp add: bindP_def)
  from segment [OF this, of "Inr a" s' body allowed] assms(1,3) show ?thesis
    unfolding turnsTo_def by simp
qed

lemma turns_enter:
  assumes "turnsTo body allowed y s mu th h" "th t = Idle" "mu m = None" "allowed m c"
  shows "turnsTo body allowed y s (mu(m \<mapsto> t)) (th(t := Holding m c (body m c))) h"
proof -
  let ?y = "\<lparr>p_shared = s, p_mutex = mu, p_threads = th, p_history = h\<rparr>"
  let ?z = "\<lparr>p_shared = s, p_mutex = mu, p_threads = th(t := Waiting m c), p_history = h\<rparr>"
  have "poolStep body allowed ?y ?z" using poolStep.calls [of ?y t allowed m c body] assms by simp
  moreover have "poolStep body allowed ?z
      \<lparr>p_shared = s, p_mutex = mu(m \<mapsto> t), p_threads = th(t := Holding m c (body m c)), p_history = h\<rparr>"
    using poolStep.acquires [of ?z t m c body allowed] assms by simp
  ultimately show ?thesis using assms(1) unfolding turnsTo_def by (meson rtranclp.rtrancl_into_rtrancl)
qed

lemma turns_leave:
  assumes "turnsTo body allowed y s mu th h" "th t = Holding m c p" "exec p s = (a, s')"
  shows "turnsTo body allowed y s' (mu(m := None)) (th(t := Idle)) (h @ [(m, t, c, a)])"
proof -
  let ?y = "\<lparr>p_shared = s, p_mutex = mu, p_threads = th, p_history = h\<rparr>"
  let ?z = "\<lparr>p_shared = s', p_mutex = mu, p_threads = th(t := Holding m c (Ret a)), p_history = h\<rparr>"
  have "andThen p Ret = p" by (induction p) simp_all
  then have "p_threads ?y t = Holding m c (andThen p Ret)" using assms(2) by simp
  from segment [OF this, of a s' body allowed] assms(3) have "(poolStep body allowed)\<^sup>*\<^sup>* ?y ?z" by simp
  moreover have "poolStep body allowed ?z
      \<lparr>p_shared = s', p_mutex = mu(m := None), p_threads = th(t := Idle), p_history = h @ [(m, t, c, a)]\<rparr>"
    using poolStep.returns [of ?z t m c a body allowed] by simp
  ultimately show ?thesis using assms(1) unfolding turnsTo_def
    by (meson rtranclp.rtrancl_into_rtrancl rtranclp_trans)
qed

text \<open>Runs between pools in which nobody is inside or waits.\<close>

definition quietRun ::
  "(nat \<Rightarrow> 'c \<Rightarrow> ('s, 'a) proc) \<Rightarrow> (nat \<Rightarrow> 'c \<Rightarrow> bool) \<Rightarrow> 's \<Rightarrow> (nat \<times> nat \<times> 'c \<times> 'a) list \<Rightarrow> 's \<Rightarrow> bool" where
  "quietRun body allowed s0 h s \<longleftrightarrow> turnsTo body allowed (startPool s0) s (\<lambda>_. None) (\<lambda>_. Idle) h"

lemma quietRun_start: "quietRun body allowed s0 [] s0"
  using turns_start [of body allowed "startPool s0"] by (simp add: quietRun_def startPool_def)

lemma quietRun_reached:
  "quietRun body allowed s0 h s \<Longrightarrow> \<exists>y. (poolStep body allowed)\<^sup>*\<^sup>* (startPool s0) y \<and> p_history y = h \<and> p_shared y = s"
  unfolding quietRun_def turnsTo_def by (intro exI conjI) (assumption, simp_all)

lemma call_alone:
  assumes "quietRun body allowed s0 h s" "allowed m c" "exec (body m c) s = (a, s')"
  shows "quietRun body allowed s0 (h @ [(m, t, c, a)]) s'"
  using turns_leave [OF turns_enter [OF assms(1) [unfolded quietRun_def], where t = t and m = m and c = c],
      where t = t and m = m and c = c and p = "body m c"] assms(2,3)
  by (simp add: quietRun_def fun_upd_idem)

text \<open>Two calls on different objects: each runs a first part before either runs the rest, or one runs
  between the two parts of the other.\<close>

lemma calls_overlap:
  assumes "quietRun body allowed s0 h s" "m \<noteq> n" "t \<noteq> u" "allowed m c" "allowed n d"
    and "body m c = bindP p f" "body n d = bindP q g"
    and "exec p s = (Inr a, s1)" "exec q s1 = (Inr b, s2)"
    and "exec (f a) s2 = (r, s3)" "exec (g b) s3 = (r', s4)"
  shows "quietRun body allowed s0 (h @ [(m, t, c, r), (n, u, d, r')]) s4"
proof -
  note turns_enter [OF assms(1) [unfolded quietRun_def], where t = t and m = m and c = c]
  then have "turnsTo body allowed (startPool s0) s [m \<mapsto> t] ((\<lambda>_. Idle)(t := Holding m c (bindP p f))) h"
    using assms(4,6) by simp
  from turns_segment [OF this _ assms(8), where t = t and m = m and c = c and f = f]
  have "turnsTo body allowed (startPool s0) s1 [m \<mapsto> t] ((\<lambda>_. Idle)(t := Holding m c (f a))) h" by simp
  from turns_enter [OF this, where t = u and m = n and c = d]
  have "turnsTo body allowed (startPool s0) s1 [m \<mapsto> t, n \<mapsto> u]
      ((\<lambda>_. Idle)(t := Holding m c (f a), u := Holding n d (bindP q g))) h" using assms(2,3,5,7) by simp
  from turns_segment [OF this _ assms(9), where t = u and m = n and c = d and f = g]
  have "turnsTo body allowed (startPool s0) s2 [m \<mapsto> t, n \<mapsto> u]
      ((\<lambda>_. Idle)(t := Holding m c (f a), u := Holding n d (g b))) h" by simp
  from turns_leave [OF this _ assms(10), where t = t and m = m and c = c]
  have "turnsTo body allowed (startPool s0) s3 [n \<mapsto> u] ((\<lambda>_. Idle)(u := Holding n d (g b))) (h @ [(m, t, c, r)])"
    using assms(2,3) by (simp add: fun_upd_twist fun_upd_idem)
  from turns_leave [OF this _ assms(11), where t = u and m = n and c = d] show ?thesis
    by (simp add: quietRun_def fun_upd_idem)
qed

lemma call_between:
  assumes "quietRun body allowed s0 h s" "m \<noteq> n" "t \<noteq> u" "allowed m c" "allowed n d"
    and "body m c = bindP p f"
    and "exec p s = (Inr a, s1)" "exec (body n d) s1 = (r', s2)" "exec (f a) s2 = (r, s3)"
  shows "quietRun body allowed s0 (h @ [(n, u, d, r'), (m, t, c, r)]) s3"
proof -
  note turns_enter [OF assms(1) [unfolded quietRun_def], where t = t and m = m and c = c]
  then have "turnsTo body allowed (startPool s0) s [m \<mapsto> t] ((\<lambda>_. Idle)(t := Holding m c (bindP p f))) h"
    using assms(4,6) by simp
  from turns_segment [OF this _ assms(7), where t = t and m = m and c = c and f = f]
  have "turnsTo body allowed (startPool s0) s1 [m \<mapsto> t] ((\<lambda>_. Idle)(t := Holding m c (f a))) h" by simp
  from turns_enter [OF this, where t = u and m = n and c = d]
  have "turnsTo body allowed (startPool s0) s1 [m \<mapsto> t, n \<mapsto> u]
      ((\<lambda>_. Idle)(t := Holding m c (f a), u := Holding n d (body n d))) h" using assms(2,3,5) by simp
  from turns_leave [OF this _ assms(8), where t = u and m = n and c = d]
  have "turnsTo body allowed (startPool s0) s2 [m \<mapsto> t] ((\<lambda>_. Idle)(t := Holding m c (f a))) (h @ [(n, u, d, r')])"
    using assms(2,3) by (simp add: fun_upd_idem)
  from turns_leave [OF this _ assms(9), where t = t and m = m and c = c] show ?thesis
    by (simp add: quietRun_def fun_upd_idem)
qed

end
