(* ===== verification/Slices.thy ===== *)
theory Slices
  imports Procedures
begin

text \<open>
  Go slices in shared memory. A slice is a header that points into a backing array; arrays are never
  freed and their length is their capacity. Slices that share a state are reached through a \<open>field\<close>: how
  the memory of the slice is read from the state and written back. All loops and updates of the program
  over its two slices are instances of the procedures of this theory; \<open>slice_field\<close> proves once, for any
  field that reads what it wrote, what they do when nothing comes between their steps.
\<close>

section \<open>Memory\<close>

record 'e memory =
  m_arrays :: "'e list list"
  m_header :: "nat \<times> nat"

definition contents :: "'e memory \<Rightarrow> 'e list" where
  "contents m = (case m_header m of (a, n) \<Rightarrow> take n (m_arrays m ! a))"

definition wfMemory :: "'e memory \<Rightarrow> bool" where
  "wfMemory m \<longleftrightarrow> (case m_header m of (a, n) \<Rightarrow> a < length (m_arrays m) \<and> n \<le> length (m_arrays m ! a))"

definition sliceOf :: "'e list \<Rightarrow> 'e list \<Rightarrow> 'e memory" where
  "sliceOf es room = \<lparr>m_arrays = [es @ room], m_header = (0, length es)\<rparr>"

definition setArray :: "nat \<Rightarrow> 'e list \<Rightarrow> 'e memory \<Rightarrow> 'e memory" where
  "setArray a es m = m\<lparr>m_arrays := (m_arrays m)[a := es]\<rparr>"

definition setCell :: "nat \<Rightarrow> nat \<Rightarrow> 'e \<Rightarrow> 'e memory \<Rightarrow> 'e memory" where
  "setCell a i e m = setArray a ((m_arrays m ! a)[i := e]) m"

lemma sliceOf_simps [simp]: "contents (sliceOf es room) = es" "wfMemory (sliceOf es room)"
  by (simp_all add: contents_def wfMemory_def sliceOf_def)

lemma wfMemory_contents:
  assumes "wfMemory m"
  shows "\<exists>a room. m_header m = (a, length (contents m)) \<and> a < length (m_arrays m)
    \<and> m_arrays m ! a = contents m @ room"
proof -
  obtain a n where h: "m_header m = (a, n)" by (cases "m_header m")
  with assms have "n \<le> length (m_arrays m ! a)" "a < length (m_arrays m)" "contents m = take n (m_arrays m ! a)"
    by (simp_all add: wfMemory_def contents_def)
  then show ?thesis using h by (intro exI [of _ a] exI [of _ "drop n (m_arrays m ! a)"]) simp
qed

lemma setArray_simps [simp]:
  "a < length (m_arrays m) \<Longrightarrow> m_arrays (setArray a es m) ! a = es"
  "length (m_arrays (setArray a es m)) = length (m_arrays m)"
  "m_header (setArray a es m) = m_header m"
  "setArray a es' (setArray a es m) = setArray a es' m"
  "setArray a (m_arrays m ! a) m = m"
  by (simp_all add: setArray_def)

section \<open>Fields\<close>

type_synonym ('s, 'e) field = "('s \<Rightarrow> 'e memory) \<times> ('e memory \<Rightarrow> 's \<Rightarrow> 's)"

definition getM :: "('s, 'e) field \<Rightarrow> 's \<Rightarrow> 'e memory" where
  "getM F = fst F"

definition putM :: "('s, 'e) field \<Rightarrow> 'e memory \<Rightarrow> 's \<Rightarrow> 's" where
  "putM F = snd F"

definition changeM :: "('s, 'e) field \<Rightarrow> ('e memory \<Rightarrow> 'e memory) \<Rightarrow> 's \<Rightarrow> 's" where
  "changeM F f s = putM F (f (getM F s)) s"

section \<open>Accesses\<close>

definition cellP :: "('s, 'e) field \<Rightarrow> nat \<Rightarrow> nat \<Rightarrow> ('s, 'err, 'e) failing" where
  "cellP F a i = readP (\<lambda>s. m_arrays (getM F s) ! a ! i)"

definition setCellP :: "('s, 'e) field \<Rightarrow> nat \<Rightarrow> nat \<Rightarrow> 'e \<Rightarrow> ('s, 'err, unit) failing" where
  "setCellP F a i e = writeP (changeM F (setCell a i e))"

text \<open>The header with its capacity, and accesses through the header, which is loaded again and checked.\<close>

definition headerP :: "('s, 'e) field \<Rightarrow> ('s, 'err, nat \<times> nat \<times> nat) failing" where
  "headerP F = readP (\<lambda>s. case m_header (getM F s) of (a, n) \<Rightarrow> (a, n, length (m_arrays (getM F s) ! a)))"

definition setHeaderP :: "('s, 'e) field \<Rightarrow> nat \<Rightarrow> nat \<Rightarrow> ('s, 'err, unit) failing" where
  "setHeaderP F a n = writeP (changeM F (\<lambda>m. m\<lparr>m_header := (a, n)\<rparr>))"

definition loadP :: "('s, 'e) field \<Rightarrow> nat \<Rightarrow> ('s, 'err, 'e) failing" where
  "loadP F i = bindP (headerP F) (\<lambda>(a, n, cap). if i < n then cellP F a i else panicP)"

definition storeP :: "('s, 'e) field \<Rightarrow> nat \<Rightarrow> 'e \<Rightarrow> ('s, 'err, unit) failing" where
  "storeP F i e = bindP (headerP F) (\<lambda>(a, n, cap). if i < n then setCellP F a i e else panicP)"

text \<open>\<open>k\<close> elements from \<open>i\<close> on: of the array at hand, and each through the header.\<close>

fun cellsP :: "('s, 'e) field \<Rightarrow> nat \<Rightarrow> nat \<Rightarrow> nat \<Rightarrow> ('s, 'err, 'e list) failing" where
  "cellsP F a i 0 = retP []"
| "cellsP F a i (Suc k) = bindP (cellP F a i) (\<lambda>e. bindP (cellsP F a (Suc i) k) (\<lambda>es. retP (e # es)))"

fun loadsP :: "('s, 'e) field \<Rightarrow> nat \<Rightarrow> nat \<Rightarrow> ('s, 'err, 'e list) failing" where
  "loadsP F i 0 = retP []"
| "loadsP F i (Suc k) = bindP (loadP F i) (\<lambda>e. bindP (loadsP F (Suc i) k) (\<lambda>es. retP (e # es)))"

section \<open>Loops\<close>

text \<open>\<open>for _, e := range xs\<close> evaluates \<open>xs\<close> once; it may end at the first element that satisfies \<open>P\<close>.\<close>

definition rangeP :: "('s, 'e) field \<Rightarrow> ('s, 'err, 'e list) failing" where
  "rangeP F = bindP (headerP F) (\<lambda>(a, n, cap). cellsP F a 0 n)"

fun searchP :: "('s, 'e) field \<Rightarrow> nat \<Rightarrow> nat \<Rightarrow> nat \<Rightarrow> ('e \<Rightarrow> bool) \<Rightarrow> ('s, 'err, 'e option) failing" where
  "searchP F a i 0 P = retP None"
| "searchP F a i (Suc k) P =
     bindP (cellP F a i) (\<lambda>e. if P e then retP (Some e) else searchP F a (Suc i) k P)"

definition rangeFindP :: "('s, 'e) field \<Rightarrow> ('e \<Rightarrow> bool) \<Rightarrow> ('s, 'err, 'e option) failing" where
  "rangeFindP F P = bindP (headerP F) (\<lambda>(a, n, cap). searchP F a 0 n P)"

text \<open>Reflection takes the length once and indexes the field for every element.\<close>

definition reflectP :: "('s, 'e) field \<Rightarrow> ('s, 'err, 'e list) failing" where
  "reflectP F = bindP (headerP F) (\<lambda>(a, n, cap). loadsP F 0 n)"

section \<open>Updates\<close>

text \<open>\<open>memmove\<close> to a lower position, and a new array with as much room to spare as the runtime likes.\<close>

fun moveP :: "('s, 'e) field \<Rightarrow> nat \<Rightarrow> nat \<Rightarrow> nat \<Rightarrow> nat \<Rightarrow> nat \<Rightarrow> ('s, 'err, unit) failing" where
  "moveP F a i b l 0 = retP ()"
| "moveP F a i b l (Suc k) =
     bindP (cellP F b l) (\<lambda>e. bindP (setCellP F a i e) (\<lambda>_. moveP F a (Suc i) b (Suc l) k))"

definition allocP :: "('s, 'e) field \<Rightarrow> 'e list \<Rightarrow> ('s, 'err, nat) failing" where
  "allocP F es = Act (changeM F (\<lambda>m. m\<lparr>m_arrays := m_arrays m @ [es]\<rparr>))
     (\<lambda>s. Ret (Inr (length (m_arrays (getM F s)))))"

definition newSliceP :: "('s, 'e) field \<Rightarrow> 'e list \<Rightarrow> 'e list \<Rightarrow> ('s, 'err, unit) failing" where
  "newSliceP F es room = bindP (allocP F (es @ room)) (\<lambda>a. setHeaderP F a (length es))"

text \<open>\<open>xs = append(xs, e)\<close>\<close>

definition appendP :: "(nat \<Rightarrow> nat) \<Rightarrow> ('s, 'e) field \<Rightarrow> 'e \<Rightarrow> 'e \<Rightarrow> ('s, 'err, unit) failing" where
  "appendP spare F blank e =
     bindP (headerP F) (\<lambda>(a, n, cap).
       if n < cap then bindP (setCellP F a n e) (\<lambda>_. setHeaderP F a (Suc n))
       else bindP (cellsP F a 0 n) (\<lambda>es. newSliceP F (es @ [e]) (replicate (spare (Suc n)) blank)))"

text \<open>\<open>xs = append(xs[:i], xs[i+1:]...)\<close>\<close>

definition spliceP :: "(nat \<Rightarrow> nat) \<Rightarrow> ('s, 'e) field \<Rightarrow> 'e \<Rightarrow> nat \<Rightarrow> ('s, 'err, unit) failing" where
  "spliceP spare F blank i =
     bindP (headerP F) (\<lambda>(a, n, cap). if cap < i then panicP else
     bindP (headerP F) (\<lambda>(b, m, cap'). if m < Suc i then panicP else
       let k = m - Suc i in
       if i + k \<le> cap then bindP (moveP F a i b (Suc i) k) (\<lambda>_. setHeaderP F a (i + k))
       else bindP (cellsP F a 0 i) (\<lambda>xs. bindP (cellsP F b (Suc i) k) (\<lambda>ys.
         newSliceP F (xs @ ys) (replicate (spare (i + k)) blank)))))"

text \<open>\<open>kept := make([]T, 0, len(xs))\<close>, filled with the elements of \<open>xs\<close> that satisfy \<open>P\<close>, and \<open>xs = kept\<close>.\<close>

definition publishP :: "(nat \<Rightarrow> nat) \<Rightarrow> ('s, 'e) field \<Rightarrow> 'e \<Rightarrow> nat \<Rightarrow> 'e list \<Rightarrow> ('s, 'err, unit) failing" where
  "publishP spare F blank made kept =
     newSliceP F kept
       (replicate (if length kept \<le> made then made - length kept else spare (length kept)) blank)"

definition filterP :: "(nat \<Rightarrow> nat) \<Rightarrow> ('s, 'e) field \<Rightarrow> 'e \<Rightarrow> ('e \<Rightarrow> bool) \<Rightarrow> ('s, 'err, unit) failing" where
  "filterP spare F blank P =
     bindP (headerP F) (\<lambda>(a, made, cap). bindP (rangeP F) (\<lambda>es. publishP spare F blank made (filter P es)))"

text \<open>\<open>for i := range xs\<close> with \<open>xs[i]\<close> in the body: the first element that satisfies \<open>P\<close> is replaced, or removed.\<close>

fun replaceFromP :: "('s, 'e) field \<Rightarrow> nat \<Rightarrow> nat \<Rightarrow> ('e \<Rightarrow> bool) \<Rightarrow> 'e \<Rightarrow> ('s, 'err, bool) failing" where
  "replaceFromP F i 0 P e' = retP False"
| "replaceFromP F i (Suc k) P e' =
     bindP (loadP F i) (\<lambda>e.
       if P e then bindP (storeP F i e') (\<lambda>_. retP True) else replaceFromP F (Suc i) k P e')"

definition replaceP :: "('s, 'e) field \<Rightarrow> ('e \<Rightarrow> bool) \<Rightarrow> 'e \<Rightarrow> ('s, 'err, bool) failing" where
  "replaceP F P e' = bindP (headerP F) (\<lambda>(a, n, cap). replaceFromP F 0 n P e')"

fun removeFromP ::
  "(nat \<Rightarrow> nat) \<Rightarrow> ('s, 'e) field \<Rightarrow> 'e \<Rightarrow> nat \<Rightarrow> nat \<Rightarrow> ('e \<Rightarrow> bool) \<Rightarrow> ('s, 'err, bool) failing" where
  "removeFromP spare F blank i 0 P = retP False"
| "removeFromP spare F blank i (Suc k) P =
     bindP (loadP F i) (\<lambda>e.
       if P e then bindP (spliceP spare F blank i) (\<lambda>_. retP True)
       else removeFromP spare F blank (Suc i) k P)"

definition removeP :: "(nat \<Rightarrow> nat) \<Rightarrow> ('s, 'e) field \<Rightarrow> 'e \<Rightarrow> ('e \<Rightarrow> bool) \<Rightarrow> ('s, 'err, bool) failing" where
  "removeP spare F blank P = bindP (headerP F) (\<lambda>(a, n, cap). removeFromP spare F blank 0 n P)"

section \<open>What they do to a list\<close>

fun replaceFirst :: "('e \<Rightarrow> bool) \<Rightarrow> 'e \<Rightarrow> 'e list \<Rightarrow> 'e list option" where
  "replaceFirst P e' [] = None"
| "replaceFirst P e' (e # es) = (if P e then Some (e' # es) else map_option (\<lambda>es'. e # es') (replaceFirst P e' es))"

fun removeFirst :: "('e \<Rightarrow> bool) \<Rightarrow> 'e list \<Rightarrow> 'e list option" where
  "removeFirst P [] = None"
| "removeFirst P (e # es) = (if P e then Some es else map_option (\<lambda>es'. e # es') (removeFirst P es))"

lemma replaceFirst_length: "replaceFirst P e' es = Some es' \<Longrightarrow> length es' = length es"
  by (induction es arbitrary: es') (auto split: if_splits)

section \<open>Reading\<close>

lemma exec_cell [simp]: "exec (cellP F a i) s = (Inr (m_arrays (getM F s) ! a ! i), s)"
  by (simp add: cellP_def)

lemma exec_header [simp]:
  "exec (headerP F) s = (Inr (fst (m_header (getM F s)), snd (m_header (getM F s)),
     length (m_arrays (getM F s) ! fst (m_header (getM F s)))), s)"
  by (simp add: headerP_def split: prod.split)

lemma exec_cells:
  "i + k \<le> length (m_arrays (getM F s) ! a) \<Longrightarrow>
     exec (cellsP F a i k) s = (Inr (take k (drop i (m_arrays (getM F s) ! a))), s)"
  by (induction k arbitrary: i) (simp_all add: exec_bindP Cons_nth_drop_Suc [symmetric])

lemma exec_search:
  "i + k \<le> length (m_arrays (getM F s) ! a) \<Longrightarrow>
     exec (searchP F a i k P) s = (Inr (find P (take k (drop i (m_arrays (getM F s) ! a)))), s)"
  by (induction k arbitrary: i) (simp_all add: exec_bindP Cons_nth_drop_Suc [symmetric])

lemma exec_range: "wfMemory (getM F s) \<Longrightarrow> exec (rangeP F) s = (Inr (contents (getM F s)), s)"
  by (simp add: rangeP_def exec_bindP exec_cells wfMemory_def contents_def split: prod.splits)

lemma exec_rangeFind: "wfMemory (getM F s) \<Longrightarrow> exec (rangeFindP F P) s = (Inr (find P (contents (getM F s))), s)"
  by (simp add: rangeFindP_def exec_bindP exec_search wfMemory_def contents_def split: prod.splits)

lemma exec_loads:
  assumes "m_header (getM F s) = (a, n)"
  shows "i + k \<le> n \<Longrightarrow> n \<le> length (m_arrays (getM F s) ! a) \<Longrightarrow>
    exec (loadsP F i k) s = (Inr (take k (drop i (m_arrays (getM F s) ! a))), s)"
  using assms
  by (induction k arbitrary: i) (simp_all add: exec_bindP loadP_def Cons_nth_drop_Suc [symmetric])

lemma exec_reflect: "wfMemory (getM F s) \<Longrightarrow> exec (reflectP F) s = (Inr (contents (getM F s)), s)"
  by (simp add: reflectP_def exec_bindP exec_loads wfMemory_def contents_def split: prod.splits)

section \<open>Writing\<close>

text \<open>\<open>leaves F s out r es\<close>: run from \<open>s\<close>, the answer is \<open>r\<close>, the slice holds \<open>es\<close>, and nothing else has changed.\<close>

definition leaves :: "('s, 'e) field \<Rightarrow> 's \<Rightarrow> 'r \<times> 's \<Rightarrow> 'r \<Rightarrow> 'e list \<Rightarrow> bool" where
  "leaves F s out r es \<longleftrightarrow> (\<exists>m. out = (r, putM F m s) \<and> wfMemory m \<and> contents m = es)"

lemma leavesI: "out = (r, putM F m s) \<Longrightarrow> wfMemory m \<Longrightarrow> contents m = es \<Longrightarrow> leaves F s out r es"
  unfolding leaves_def by blast

locale slice_field =
  fixes F :: "('s, 'e) field"
  assumes get_put [simp]: "getM F (putM F m s) = m"
    and put_get [simp]: "putM F (getM F s) s = s"
    and put_put [simp]: "putM F m (putM F m' s) = putM F m s"
begin

lemma exec_setCell [simp]: "exec (setCellP F a i e) s = (Inr (), putM F (setCell a i e (getM F s)) s)"
  by (simp add: setCellP_def changeM_def)

lemma exec_setHeader [simp]: "exec (setHeaderP F a n) s = (Inr (), putM F ((getM F s)\<lparr>m_header := (a, n)\<rparr>) s)"
  by (simp add: setHeaderP_def changeM_def)

lemma exec_newSlice: "leaves F s (exec (newSliceP F es room) s) (Inr ()) es"
  by (rule leavesI)
    (auto simp: newSliceP_def allocP_def exec_bindP changeM_def wfMemory_def contents_def nth_append)

lemma exec_filter:
  "wfMemory (getM F s) \<Longrightarrow> leaves F s (exec (filterP spare F blank P) s) (Inr ()) (filter P (contents (getM F s)))"
  unfolding filterP_def publishP_def by (simp add: exec_bindP exec_range exec_newSlice)

lemma exec_append:
  assumes "wfMemory (getM F s)"
  shows "leaves F s (exec (appendP spare F blank e) s) (Inr ()) (contents (getM F s) @ [e])"
proof -
  let ?m = "getM F s"
  obtain a room where h: "m_header ?m = (a, length (contents ?m))" "a < length (m_arrays ?m)"
    "m_arrays ?m ! a = contents ?m @ room" using wfMemory_contents [OF assms] by blast
  show ?thesis
  proof (cases room)
    case (Cons e' room')
    show ?thesis
      by (rule leavesI [where m = "setArray a (contents ?m @ e # room') ?m\<lparr>m_header := (a, Suc (length (contents ?m)))\<rparr>"])
        (simp_all add: h Cons appendP_def exec_bindP setCell_def list_update_append wfMemory_def contents_def [of "_ \<lparr>m_header := _\<rparr>"])
  next
    case Nil
    with h exec_newSlice show ?thesis by (simp add: appendP_def exec_bindP exec_cells)
  qed
qed

lemma exec_move:
  assumes "a < length (m_arrays (getM F s))" "i < l" "l + k \<le> length (m_arrays (getM F s) ! a)"
  shows "\<exists>junk. length junk = length (m_arrays (getM F s) ! a) - (i + k)
    \<and> exec (moveP F a i a l k) s = (Inr () :: 'err fault + unit, putM F (setArray a
        (take i (m_arrays (getM F s) ! a) @ take k (drop l (m_arrays (getM F s) ! a)) @ junk) (getM F s)) s)"
  using assms
proof (induction k arbitrary: i l s)
  case 0
  let ?xs = "m_arrays (getM F s) ! a"
  have "take i ?xs @ drop i ?xs = ?xs" by simp
  then show ?case using 0 by (intro exI [of _ "drop i ?xs"]) simp
next
  case (Suc k)
  let ?xs = "m_arrays (getM F s) ! a"
  let ?m = "setCell a i (?xs ! l) (getM F s)"
  let ?s = "putM F ?m s"
  have at: "m_arrays (getM F ?s) ! a = ?xs[i := ?xs ! l]" using Suc.prems(1) by (simp add: setCell_def)
  have "a < length (m_arrays (getM F ?s))" "Suc i < Suc l" "Suc l + k \<le> length (m_arrays (getM F ?s) ! a)"
    using Suc.prems at by (simp_all add: setCell_def)
  from Suc.IH [OF this] obtain junk where junk: "length junk = length ?xs - (Suc i + k)"
    "exec (moveP F a (Suc i) a (Suc l) k) ?s
      = (Inr () :: 'err fault + unit, putM F (setArray a (take (Suc i) (?xs[i := ?xs ! l]) @ take k (drop (Suc l) (?xs[i := ?xs ! l])) @ junk) (getM F ?s)) ?s)"
    unfolding at by auto
  have "take (Suc i) (?xs[i := ?xs ! l]) = take i ?xs @ [?xs ! l]"
    using Suc.prems by (simp add: take_Suc_conv_app_nth)
  moreover have "drop (Suc l) (?xs[i := ?xs ! l]) = drop (Suc l) ?xs" using Suc.prems by simp
  moreover have "take (Suc k) (drop l ?xs) = ?xs ! l # take k (drop (Suc l) ?xs)"
    using Suc.prems by (simp add: Cons_nth_drop_Suc [symmetric])
  moreover have "setArray a es ?m = setArray a es (getM F s)" for es by (simp add: setCell_def)
  ultimately show ?case
    using junk by (intro exI [of _ junk]) (simp add: exec_bindP)
qed

text \<open>The two loops that change the slice, on an array split into what is before the index, the part
  the loop still has to see, and the room behind the length.\<close>

lemma exec_replaceFrom:
  assumes "a < length (m_arrays (getM F s))" "m_arrays (getM F s) ! a = pre @ es @ room"
    and "m_header (getM F s) = (a, length pre + length es)"
  shows "exec (replaceFromP F (length pre) (length es) P e') s =
    (case replaceFirst P e' es of None \<Rightarrow> (Inr False :: 'err fault + bool, s)
     | Some es' \<Rightarrow> (Inr True, putM F (setArray a (pre @ es' @ room) (getM F s)) s))"
  using assms(2,3)
proof (induction es arbitrary: pre)
  case Nil
  then show ?case by simp
next
  case (Cons e es)
  have "m_arrays (getM F s) ! a = (pre @ [e]) @ es @ room"
    "m_header (getM F s) = (a, length (pre @ [e]) + length es)" using Cons.prems by simp_all
  note IH = Cons.IH [OF this]
  show ?case using Cons.prems IH
    by (auto simp: exec_bindP loadP_def storeP_def nth_append setCell_def list_update_append split: option.split)
qed

lemma exec_removeFrom:
  assumes "a < length (m_arrays (getM F s))" "m_arrays (getM F s) ! a = pre @ es @ room"
    and "m_header (getM F s) = (a, length pre + length es)"
  shows "case removeFirst P es of
      None \<Rightarrow> exec (removeFromP spare F blank (length pre) (length es) P) s = (Inr False, s)
    | Some es' \<Rightarrow> (\<exists>room'. exec (removeFromP spare F blank (length pre) (length es) P) s
        = (Inr True :: 'err fault + bool, putM F (setArray a (pre @ es' @ room') (getM F s)\<lparr>m_header := (a, length pre + length es')\<rparr>) s))"
  using assms(2,3)
proof (induction es arbitrary: pre)
  case Nil
  then show ?case by simp
next
  case (Cons e es)
  have eq: "m_arrays (getM F s) ! a = (pre @ [e]) @ es @ room"
    "m_header (getM F s) = (a, length (pre @ [e]) + length es)" using Cons.prems by simp_all
  note IH = Cons.IH [OF this]
  show ?case
  proof (cases "P e")
    case True
    obtain room' where "exec (moveP F a (length pre) a (Suc (length pre)) (length es)) s
        = (Inr () :: 'err fault + unit, putM F (setArray a (pre @ es @ room') (getM F s)) s)"
      using exec_move [OF assms(1), of "length pre" "Suc (length pre)" "length es"] eq by auto
    with True Cons.prems assms(1) show ?thesis
      by (auto simp: exec_bindP loadP_def spliceP_def nth_append Let_def)
  next
    case False
    with IH Cons.prems assms(1) show ?thesis
      by (auto simp: exec_bindP loadP_def nth_append split: option.splits)
  qed
qed

lemma exec_replace:
  assumes "wfMemory (getM F s)"
  shows "case replaceFirst P e' (contents (getM F s)) of
      None \<Rightarrow> exec (replaceP F P e') s = (Inr False :: 'err fault + bool, s)
    | Some es' \<Rightarrow> leaves F s (exec (replaceP F P e') s) (Inr True :: 'err fault + bool) es'"
proof -
  let ?es = "contents (getM F s)"
  obtain a room where m: "m_header (getM F s) = (a, length ?es)" "a < length (m_arrays (getM F s))"
    "m_arrays (getM F s) ! a = ?es @ room" using wfMemory_contents [OF assms] by blast
  note run = exec_replaceFrom [where 'err = 'err and pre = "[]" and es = ?es and room = room and P = P and e' = e', OF m(2)]
  show ?thesis
  proof (cases "replaceFirst P e' ?es")
    case None
    with run m show ?thesis by (simp add: replaceP_def exec_bindP)
  next
    case (Some es')
    from replaceFirst_length [OF Some] run Some m show ?thesis
      by (simp add: replaceP_def exec_bindP leavesI wfMemory_def contents_def [of "setArray _ _ _"])
  qed
qed

lemma exec_remove:
  assumes "wfMemory (getM F s)"
  shows "case removeFirst P (contents (getM F s)) of
      None \<Rightarrow> exec (removeP spare F blank P) s = (Inr False :: 'err fault + bool, s)
    | Some es' \<Rightarrow> leaves F s (exec (removeP spare F blank P) s) (Inr True :: 'err fault + bool) es'"
proof -
  let ?es = "contents (getM F s)"
  obtain a room where m: "m_header (getM F s) = (a, length ?es)" "a < length (m_arrays (getM F s))"
    "m_arrays (getM F s) ! a = ?es @ room" using wfMemory_contents [OF assms] by blast
  note run = exec_removeFrom [where 'err = 'err and pre = "[]" and es = ?es and room = room and P = P and spare = spare
      and blank = blank, OF m(2)]
  show ?thesis
  proof (cases "removeFirst P ?es")
    case None
    with run m show ?thesis by (simp add: removeP_def exec_bindP)
  next
    case (Some es')
    with run m obtain room' where "exec (removeFromP spare F blank 0 (length ?es) P) s
        = (Inr True :: 'err fault + bool, putM F (setArray a (es' @ room') (getM F s)\<lparr>m_header := (a, length es')\<rparr>) s)" by auto
    with Some m show ?thesis
      by (simp add: removeP_def exec_bindP leavesI wfMemory_def contents_def [of "_ \<lparr>m_header := _\<rparr>"])
  qed
qed

end

end
