(* ===== verification/SessionCalls.thy ===== *)
theory SessionCalls
  imports Slices SealedJson Refine
begin

text \<open>
  The methods of \<open>session\<close> in \<open>vault.go\<close> again, this time in small steps: every load and store of the
  memory that other goroutines can reach is a step of its own. The secrets and the keys of the document
  are slices of \<open>Slices\<close>: \<open>Put\<close>, \<open>Delete\<close> and \<open>EnrollKey\<close> change their arrays in place. Each body is
  proved to implement the atomic method of \<open>Vault\<close> when nothing comes between its steps.
\<close>

section \<open>The shared memory\<close>

text \<open>
  \<open>sh_secrets\<close> and \<open>sh_keys\<close> are the memory of \<open>doc.Secrets\<close> and \<open>doc.Keys\<close>, \<open>sh_doc\<close> holds the other fields
  of the document, which nothing writes, \<open>sh_sessions\<close> what is private to each session unlocked from the
  vault.
\<close>

record 'd shared =
  sh_secrets :: "sealedSecret memory"
  sh_keys :: "sealedKey memory"
  sh_doc :: sealedVault
  sh_sessions :: "(Options \<times> bytes option) list"
  sh_world :: "'d world"

type_synonym ('d, 'a) body = "('d shared, goerror, 'a) failing"

definition Secrets :: "('d shared, sealedSecret) field" where
  "Secrets = (sh_secrets, \<lambda>m sh. sh\<lparr>sh_secrets := m\<rparr>)"

definition Keys :: "('d shared, sealedKey) field" where
  "Keys = (sh_keys, \<lambda>m sh. sh\<lparr>sh_keys := m\<rparr>)"

lemma fields_simps [simp]:
  "getM Secrets = sh_secrets" "putM Secrets m sh = sh\<lparr>sh_secrets := m\<rparr>"
  "getM Keys = sh_keys" "putM Keys m' sh = sh\<lparr>sh_keys := m'\<rparr>"
  by (simp_all add: getM_def putM_def Secrets_def Keys_def)

interpretation secrets: slice_field Secrets
  by unfold_locales simp_all

interpretation keys: slice_field Keys
  by unfold_locales simp_all

definition emptySecret :: sealedSecret where
  "emptySecret = \<lparr>s_Name = [], s_Nonce = [], s_Ciphertext = []\<rparr>"

definition emptyKey :: sealedKey where
  "emptyKey = \<lparr>k_Slot = 0, k_Label = [], k_CredentialID = [], k_Nonce = [], k_Wrapped = []\<rparr>"

definition docOf :: "'d shared \<Rightarrow> sealedVault" where
  "docOf sh = (sh_doc sh)\<lparr>v_Keys := contents (sh_keys sh), v_Secrets := contents (sh_secrets sh)\<rparr>"

definition viewOf :: "nat \<Rightarrow> 'd shared \<Rightarrow> session \<times> 'd world" where
  "viewOf j sh = (\<lparr>ses_doc = docOf sh, ses_opts = fst (sh_sessions sh ! j), ses_dataKey = snd (sh_sessions sh ! j)\<rparr>,
     sh_world sh)"

definition fieldsOf :: "sealedVault \<Rightarrow> sealedVault" where
  "fieldsOf v = v\<lparr>v_Keys := [], v_Secrets := []\<rparr>"

definition wfShared :: "'d shared \<Rightarrow> bool" where
  "wfShared sh \<longleftrightarrow> fieldsOf (sh_doc sh) = sh_doc sh \<and> wfMemory (sh_secrets sh) \<and> wfMemory (sh_keys sh)"

section \<open>Other accesses\<close>

definition headP :: "('d, sealedVault) body" where
  "headP = readP sh_doc"

definition optsP :: "nat \<Rightarrow> ('d, Options) body" where
  "optsP j = readP (\<lambda>sh. fst (sh_sessions sh ! j))"

definition worldP :: "(goerror, 'a, 'd world) effect \<Rightarrow> ('d, 'a) body" where
  "worldP m = Act (\<lambda>sh. sh\<lparr>sh_world := snd (m (sh_world sh))\<rparr>) (\<lambda>sh. Ret (outcome (fst (m (sh_world sh)))))"

definition setKeyP :: "nat \<Rightarrow> (bytes option \<Rightarrow> bytes option) \<Rightarrow> ('d, unit) body" where
  "setKeyP j f = writeP (\<lambda>sh. sh\<lparr>sh_sessions := (sh_sessions sh)
     [j := (fst (sh_sessions sh ! j), f (snd (sh_sessions sh ! j)))]\<rparr>)"

section \<open>The bodies of the methods\<close>

definition keyP :: "nat \<Rightarrow> ('d, bytes) body" where
  "keyP j = bindP (readP (\<lambda>sh. snd (sh_sessions sh ! j)))
     (\<lambda>key. case key of None \<Rightarrow> failP (Sentinel ErrLocked) | Some dataKey \<Rightarrow> retP dataKey)"

definition findSecretP :: "string \<Rightarrow> ('d, sealedSecret option) body" where
  "findSecretP name = rangeFindP Secrets (\<lambda>s. s_Name s = name)"

definition findKeyP :: "bytes \<Rightarrow> ('d, sealedKey option) body" where
  "findKeyP credentialID = rangeFindP Keys (\<lambda>k. k_CredentialID k = credentialID)"

definition slotOccupiedP :: "int \<Rightarrow> ('d, bool) body" where
  "slotOccupiedP slot = bindP (rangeFindP Keys (\<lambda>k. k_Slot k = slot)) (\<lambda>found. retP (found \<noteq> None))"

definition namesP :: "('d, string list) body" where
  "namesP = bindP (rangeP Secrets) (\<lambda>ss. retP (sort (map s_Name ss)))"

definition slotsP :: "('d, SlotInfo list) body" where
  "slotsP = bindP (rangeP Keys) (\<lambda>ks. retP (sort_key si_Slot (map slotInfo ks)))"

definition sealedP :: "nils \<Rightarrow> ('d, bytes) body" where
  "sealedP nils =
     bindP headP (\<lambda>doc. bindP (reflectP Keys) (\<lambda>ks. bindP (reflectP Secrets) (\<lambda>ss.
       liftP (marshal nils (doc\<lparr>v_Keys := ks, v_Secrets := ss\<rparr>)))))"

definition lockP :: "nat \<Rightarrow> ('d, unit) body" where
  "lockP j = bindP (setKeyP j (map_option zero)) (\<lambda>_. setKeyP j (\<lambda>_. None))"

definition openP :: "'z x509_scheme \<Rightarrow> nat \<Rightarrow> string \<Rightarrow> ('d, secretReader) body" where
  "openP x j name =
     bindP (keyP j) (\<lambda>dataKey.
     bindP (findSecretP name) (\<lambda>found.
     case found of
       None \<Rightarrow> failP (wrap ''%w: %q'' (Sentinel ErrNoSuchSecret))
     | Some entry \<Rightarrow>
         bindP headP (\<lambda>doc. bindP (liftP (openSecret x doc dataKey entry)) (\<lambda>plaintext.
         retP \<lparr>rd_buf = plaintext, rd_src = True, rd_pos = 0, rd_once = False\<rparr>))))"

definition putP :: "(nat \<Rightarrow> nat) \<Rightarrow> 'z x509_scheme \<Rightarrow> nat \<Rightarrow> string \<Rightarrow> reader \<Rightarrow> ('d, unit) body" where
  "putP spare x j name secret =
     bindP (keyP j) (\<lambda>dataKey.
     if name = [] then failP (errorsNew ''touchvault: a secret must have a name'')
     else case secret of
       None \<Rightarrow> failP (errorsNew ''touchvault: a secret must have a value'')
     | Some rd \<Rightarrow>
         bindP (liftP (wrapErr (wrap ''touchvault: reading the secret %q: %w'') rd)) (\<lambda>plaintext.
         bindP headP (\<lambda>doc.
         bindP (worldP (sealSecret x doc dataKey name plaintext)) (\<lambda>entry.
         bindP (replaceP Secrets (\<lambda>s. s_Name s = name) entry) (\<lambda>replaced.
         if replaced then retP () else appendP spare Secrets emptySecret entry)))))"

definition deleteP :: "(nat \<Rightarrow> nat) \<Rightarrow> nat \<Rightarrow> string \<Rightarrow> ('d, unit) body" where
  "deleteP spare j name =
     bindP (keyP j) (\<lambda>_.
     bindP (removeP spare Secrets emptySecret (\<lambda>s. s_Name s = name)) (\<lambda>removed.
     if removed then retP () else failP (wrap ''%w: %q'' (Sentinel ErrNoSuchSecret))))"

text \<open>\<open>EnrollKey\<close> up to the last statement, which appends the new entry.\<close>

definition newKeyP :: "'z x509_scheme \<Rightarrow> 'd Authenticator \<Rightarrow> nat \<Rightarrow> int \<Rightarrow> string \<Rightarrow> ('d, sealedKey) body" where
  "newKeyP x auth j slot label0 =
     bindP (keyP j) (\<lambda>dataKey.
     if slot < 0 then failP (errorsNew ''touchvault: slot must not be negative, got %d'')
     else bindP (slotOccupiedP slot) (\<lambda>occupied.
     if occupied then failP (wrap ''%w: slot %d'' (Sentinel ErrSlotOccupied))
     else
     let label = (if label0 = [] then DefaultLabel else label0) in
     bindP headP (\<lambda>doc.
     let uv = uvRequirement doc in
     bindP (optsP j) (\<lambda>opts.
     bindP (worldP (enrollAndDerive x auth doc opts uv)) (\<lambda>(cred, derived).
     bindP (findKeyP (er_CredentialID cred)) (\<lambda>exists.
     if exists \<noteq> None then
       failP (errorsNew ''touchvault: that security key is already enrolled in another slot'')
     else bindP headP (\<lambda>doc.
     if dr_UserVerified derived \<noteq> v_UserVerified doc then
       failP (wrap ''%w: this key reported user_verified=%v, the vault was enrolled with %v''
                (Sentinel ErrUserVerificationMismatch))
     else
     bindP (worldP (verifyDerivationDependsOnSalt auth (v_RPID doc) (er_CredentialID cred) (v_Salt doc)
              (dr_Secret derived) uv (dr_UserVerified derived))) (\<lambda>_.
     worldP (wrapDataKey x doc dataKey (er_CredentialID cred) (dr_Secret derived) slot label)))))))))"

definition enrollKeyP ::
  "(nat \<Rightarrow> nat) \<Rightarrow> 'z x509_scheme \<Rightarrow> 'd Authenticator \<Rightarrow> nat \<Rightarrow> int \<Rightarrow> string \<Rightarrow> ('d, unit) body" where
  "enrollKeyP spare x auth j slot label0 =
     bindP (newKeyP x auth j slot label0) (\<lambda>entry. appendP spare Keys emptyKey entry)"

definition dropKeyP :: "(nat \<Rightarrow> nat) \<Rightarrow> int \<Rightarrow> ('d, unit) body" where
  "dropKeyP spare slot = filterP spare Keys emptyKey (\<lambda>k. k_Slot k \<noteq> slot)"

text \<open>The guards of \<open>RemoveKey\<close>, and the whole.\<close>

definition mayRemoveP :: "nat \<Rightarrow> int \<Rightarrow> ('d, unit) body" where
  "mayRemoveP j slot =
     bindP (keyP j) (\<lambda>_.
     bindP (slotOccupiedP slot) (\<lambda>occupied.
     if \<not> occupied then failP (wrap ''%w: slot %d'' (Sentinel ErrNoSuchSlot))
     else bindP (headerP Keys) (\<lambda>(a, n, cap).
     if n = 1 then failP (Sentinel ErrLastKey) else retP ())))"

definition removeKeyP :: "(nat \<Rightarrow> nat) \<Rightarrow> nat \<Rightarrow> int \<Rightarrow> ('d, unit) body" where
  "removeKeyP spare j slot = bindP (mayRemoveP j slot) (\<lambda>_. dropKeyP spare slot)"

definition forceRemoveKeyP :: "(nat \<Rightarrow> nat) \<Rightarrow> nat \<Rightarrow> int \<Rightarrow> ('d, unit) body" where
  "forceRemoveKeyP spare j slot =
     bindP (keyP j) (\<lambda>_.
     bindP (slotOccupiedP slot) (\<lambda>occupied.
     if \<not> occupied then failP (wrap ''%w: slot %d'' (Sentinel ErrNoSuchSlot))
     else dropKeyP spare slot))"

section \<open>Calls\<close>

datatype 'd call =
    CNames
  | CSlots
  | CLock
  | COpen string
  | CModify "'d Authenticator" operation
  | CSealed nils

datatype answer = ANames "string list" | ASlots "SlotInfo list" | ADone | AStream secretReader | ABytes bytes

definition answersP :: "('a \<Rightarrow> answer) \<Rightarrow> ('d, 'a) body \<Rightarrow> ('d, answer) body" where
  "answersP f p = bindP p (\<lambda>a. retP (f a))"

fun modifyP ::
  "(nat \<Rightarrow> nat) \<Rightarrow> 'z x509_scheme \<Rightarrow> 'd Authenticator \<Rightarrow> nat \<Rightarrow> operation \<Rightarrow> ('d, unit) body" where
  "modifyP spare x auth j (OpPut name rd) = putP spare x j name rd"
| "modifyP spare x auth j (OpDelete name) = deleteP spare j name"
| "modifyP spare x auth j (OpEnroll slot label) = enrollKeyP spare x auth j slot label"
| "modifyP spare x auth j (OpRemove slot) = removeKeyP spare j slot"
| "modifyP spare x auth j (OpForceRemove slot) = forceRemoveKeyP spare j slot"

fun callP :: "(nat \<Rightarrow> nat) \<Rightarrow> 'z x509_scheme \<Rightarrow> nat \<Rightarrow> 'd call \<Rightarrow> ('d, answer) body" where
  "callP spare x j CNames = answersP ANames namesP"
| "callP spare x j CSlots = answersP ASlots slotsP"
| "callP spare x j CLock = answersP (\<lambda>_. ADone) (lockP j)"
| "callP spare x j (COpen name) = answersP AStream (openP x j name)"
| "callP spare x j (CModify auth op) = answersP (\<lambda>_. ADone) (modifyP spare x auth j op)"
| "callP spare x j (CSealed nils) = answersP ABytes (sealedP nils)"

text \<open>The same calls as atomic methods.\<close>

definition askM :: "(session \<Rightarrow> 'a) \<Rightarrow> ('a, 'd) sessionM" where
  "askM f = (\<lambda>(s, w). (Inr (f s), (s, w)))"

definition tellM :: "(session \<Rightarrow> session) \<Rightarrow> (unit, 'd) sessionM" where
  "tellM f = (\<lambda>(s, w). (Inr (), (f s, w)))"

definition answersM :: "('a \<Rightarrow> answer) \<Rightarrow> ('a, 'd) sessionM \<Rightarrow> (answer, 'd) sessionM" where
  "answersM f m = bindE m (\<lambda>a. returnE (f a))"

fun callM :: "'z x509_scheme \<Rightarrow> 'd call \<Rightarrow> (answer, 'd) sessionM" where
  "callM x CNames = answersM ANames (askM session_Names)"
| "callM x CSlots = answersM ASlots (askM session_Slots)"
| "callM x CLock = answersM (\<lambda>_. ADone) (tellM (\<lambda>s. fst (Lock s)))"
| "callM x (COpen name) = answersM AStream (Open x name)"
| "callM x (CModify auth op) = answersM (\<lambda>_. ADone) (runOp x auth op)"
| "callM x (CSealed nils) = answersM ABytes (bindE (askM (session_Sealed nils)) liftE)"

section \<open>Every body implements its method\<close>

text \<open>
  \<open>implements j p m\<close>: run alone in memory that is well formed, the body \<open>p\<close> of session \<open>j\<close> answers what
  the method \<open>m\<close> answers on the document the memory shows, leaves the document and session that \<open>m\<close>
  leaves, and touches no other session. As the answer of a method is never a panic, no bounds check
  fails.
\<close>

definition ranAs :: "nat \<Rightarrow> 'd shared \<Rightarrow> (goerror fault + 'a) \<times> 'd shared
    \<Rightarrow> (goerror + 'a) \<times> session \<times> 'd world \<Rightarrow> bool" where
  "ranAs j sh = (\<lambda>(r, sh') (r', v). r = outcome r' \<and> wfShared sh' \<and> viewOf j sh' = v
     \<and> length (sh_sessions sh') = length (sh_sessions sh)
     \<and> (\<forall>i. i \<noteq> j \<longrightarrow> sh_sessions sh' ! i = sh_sessions sh ! i))"

definition implements :: "nat \<Rightarrow> ('d, 'a) body \<Rightarrow> ('a, 'd) sessionM \<Rightarrow> bool" where
  "implements j p m \<longleftrightarrow>
     (\<forall>sh. wfShared sh \<longrightarrow> j < length (sh_sessions sh) \<longrightarrow> ranAs j sh (exec p sh) (m (viewOf j sh)))"

lemma implementsI:
  "(\<And>sh. wfShared sh \<Longrightarrow> j < length (sh_sessions sh) \<Longrightarrow> ranAs j sh (exec p sh) (m (viewOf j sh)))
     \<Longrightarrow> implements j p m"
  by (simp add: implements_def)

lemma implementsD:
  assumes "implements j p m" "wfShared sh" "j < length (sh_sessions sh)" "exec p sh = (r, sh')"
  shows "\<exists>r'. m (viewOf j sh) = (r', viewOf j sh') \<and> r = outcome r' \<and> wfShared sh'
    \<and> length (sh_sessions sh') = length (sh_sessions sh)
    \<and> (\<forall>i. i \<noteq> j \<longrightarrow> sh_sessions sh' ! i = sh_sessions sh ! i)"
proof -
  obtain r' v where m: "m (viewOf j sh) = (r', v)" by (cases "m (viewOf j sh)")
  have "ranAs j sh (r, sh') (r', v)" using assms(1-3) unfolding implements_def assms(4) [symmetric] m [symmetric] by blast
  with m show ?thesis by (auto simp: ranAs_def)
qed

lemma implements_bind:
  assumes "implements j p m" "\<And>a. implements j (f a) (g a)"
  shows "implements j (bindP p f) (bindE m g)"
proof (rule implementsI)
  fix sh :: "'a shared" assume sh: "wfShared sh" "j < length (sh_sessions sh)"
  obtain r sh' where run: "exec p sh = (r, sh')" by (cases "exec p sh")
  from implementsD [OF assms(1) sh run] obtain r' where
    r': "m (viewOf j sh) = (r', viewOf j sh')" "r = outcome r'" "wfShared sh'"
    "length (sh_sessions sh') = length (sh_sessions sh)"
    "\<forall>i. i \<noteq> j \<longrightarrow> sh_sessions sh' ! i = sh_sessions sh ! i" by blast
  show "ranAs j sh (exec (bindP p f) sh) (bindE m g (viewOf j sh))"
  proof (cases r')
    case (Inl e)
    with run r' show ?thesis by (simp add: exec_bindP bindE_def ranAs_def)
  next
    case (Inr a)
    have "j < length (sh_sessions sh')" using sh r' by simp
    obtain r2 sh2 where run2: "exec (f a) sh' = (r2, sh2)" by (cases "exec (f a) sh'")
    from implementsD [OF assms(2) r'(3) \<open>j < length (sh_sessions sh')\<close> run2] run r' Inr run2 show ?thesis
      by (auto simp: exec_bindP bindE_def ranAs_def)
  qed
qed

lemma implements_ret: "implements j (retP a) (returnE a)"
  by (simp add: implements_def ranAs_def returnE_def)

lemma implements_fail: "implements j (failP e) (throwE e)"
  by (simp add: implements_def ranAs_def throwE_def)

lemma implements_lift: "implements j (liftP r) (liftE r)"
  by (simp add: implements_def ranAs_def liftE_def)

lemma implements_ask:
  assumes "\<And>sh. wfShared sh \<Longrightarrow> exec p sh = (Inr (f (fst (viewOf j sh))), sh)"
  shows "implements j p (askM f)"
  by (rule implementsI) (simp add: assms ranAs_def askM_def split: prod.split)

lemma implements_if:
  "implements j p m \<Longrightarrow> implements j q n \<Longrightarrow> implements j (if b then p else q) (if b then m else n)"
  by simp

lemma implements_option:
  "implements j p m \<Longrightarrow> (\<And>a. implements j (f a) (g a)) \<Longrightarrow>
     implements j (case r of None \<Rightarrow> p | Some a \<Rightarrow> f a) (case r of None \<Rightarrow> m | Some a \<Rightarrow> g a)"
  by (cases r) simp_all

lemma implements_pair:
  "(\<And>a b. implements j (f a b) (g a b)) \<Longrightarrow>
     implements j (case r of (a, b) \<Rightarrow> f a b) (case r of (a, b) \<Rightarrow> g a b)"
  by (cases r) simp

section \<open>The accesses as atomic methods\<close>

lemma wfSharedD: "wfShared sh \<Longrightarrow> wfMemory (sh_secrets sh)" "wfShared sh \<Longrightarrow> wfMemory (sh_keys sh)"
  by (simp_all add: wfShared_def)

lemma docOf_parts [simp]: "v_Keys (docOf sh) = contents (sh_keys sh)" "v_Secrets (docOf sh) = contents (sh_secrets sh)"
  by (simp_all add: docOf_def)

lemma fieldsOf_docOf: "wfShared sh \<Longrightarrow> fieldsOf (docOf sh) = sh_doc sh"
  by (simp add: wfShared_def docOf_def fieldsOf_def)

definition headM :: "(sealedVault, 'd) sessionM" where
  "headM = askM (\<lambda>s. fieldsOf (ses_doc s))"

lemma implements_head: "implements j headP headM"
  unfolding headM_def by (rule implements_ask) (simp add: viewOf_def headP_def fieldsOf_docOf)

lemma implements_opts: "implements j (optsP j) optsM"
  by (rule implementsI) (simp add: optsP_def optsM_def viewOf_def ranAs_def)

lemma implements_world: "implements j (worldP m) (onWorld m)"
  by (rule implementsI)
    (auto simp: worldP_def onWorld_def viewOf_def docOf_def wfShared_def ranAs_def split: prod.split)

lemma implements_key: "implements j (keyP j) keyM"
  by (rule implementsI)
    (auto simp: keyP_def keyM_def viewOf_def exec_bindP ranAs_def split: option.split)

lemma implements_setKey:
  "implements j (setKeyP j f) (tellM (\<lambda>s. s\<lparr>ses_dataKey := f (ses_dataKey s)\<rparr>))"
  by (rule implementsI) (auto simp: setKeyP_def tellM_def viewOf_def docOf_def wfShared_def ranAs_def)

lemma findSecretIn_find: "find (\<lambda>s. s_Name s = name) ss = findSecretIn ss name"
  by (induction ss) auto

lemma findKeyIn_find: "find (\<lambda>k. k_CredentialID k = c) ks = findKeyIn ks c"
  by (induction ks) auto

lemma implements_findSecret: "implements j (findSecretP name) (askM (\<lambda>s. findSecret (ses_doc s) name))"
  by (rule implements_ask) (simp add: findSecretP_def exec_rangeFind wfSharedD findSecretIn_find findSecret_def viewOf_def)

lemma implements_findKey: "implements j (findKeyP c) (askM (\<lambda>s. findKey (ses_doc s) c))"
  by (rule implements_ask) (simp add: findKeyP_def exec_rangeFind wfSharedD findKeyIn_find findKey_def viewOf_def)

lemma slotOccupied_find: "find (\<lambda>k. k_Slot k = slot) (v_Keys v) \<noteq> None \<longleftrightarrow> slotOccupied v slot"
  by (auto simp: slotOccupied_def find_None_iff list_ex_iff simp del: not_None_eq)

lemma implements_slotOccupied: "implements j (slotOccupiedP slot) (askM (\<lambda>s. slotOccupied (ses_doc s) slot))"
  by (rule implements_ask)
    (simp add: slotOccupiedP_def exec_bindP exec_rangeFind wfSharedD viewOf_def flip: slotOccupied_find)

lemma implements_header:
  assumes "\<And>a n cap. implements j (f (a, n, cap)) (g n)"
  shows "implements j (bindP (headerP Keys) f) (bindE (askM (\<lambda>s. length (v_Keys (ses_doc s)))) g)"
proof (rule implementsI)
  fix sh :: "'a shared" assume sh: "wfShared sh" "j < length (sh_sessions sh)"
  obtain a where "m_header (sh_keys sh) = (a, length (contents (sh_keys sh)))"
    using wfMemory_contents [OF wfSharedD(2) [OF sh(1)]] by auto
  then show "ranAs j sh (exec (bindP (headerP Keys) f) sh) (bindE (askM (\<lambda>s. length (v_Keys (ses_doc s)))) g (viewOf j sh))"
    using assms sh by (simp add: exec_bindP bindE_def askM_def viewOf_def implements_def)
qed

lemma implements_names: "implements j namesP (askM session_Names)"
  by (rule implements_ask)
    (simp add: namesP_def exec_bindP exec_range wfSharedD session_Names_def names_def viewOf_def)

lemma implements_slots: "implements j slotsP (askM session_Slots)"
  by (rule implements_ask)
    (simp add: slotsP_def exec_bindP exec_range wfSharedD session_Slots_def slots_def viewOf_def)

lemma implements_sealed: "implements j (sealedP nils) (bindE (askM (session_Sealed nils)) liftE)"
proof (rule implementsI)
  fix sh :: "'a shared" assume sh: "wfShared sh"
  show "ranAs j sh (exec (sealedP nils) sh) (bindE (askM (session_Sealed nils)) liftE (viewOf j sh))"
    using sh by (simp add: sealedP_def headP_def exec_bindP exec_reflect wfSharedD ranAs_def viewOf_def bindE_def askM_def liftE_def
        session_Sealed_def flip: docOf_def)
qed

text \<open>A procedure that leaves a slice with other contents.\<close>

lemma leaves_secrets:
  assumes "leaves Secrets sh (exec p sh) (Inr a) ss" "wfShared sh"
  shows "ranAs j sh (exec p sh) (bindE (tellM (\<lambda>s. s\<lparr>ses_doc := (ses_doc s)\<lparr>v_Secrets := ss\<rparr>\<rparr>)) (\<lambda>_. returnE a) (viewOf j sh))"
  using assms by (auto simp: leaves_def ranAs_def viewOf_def docOf_def wfShared_def bindE_def tellM_def returnE_def)

lemma leaves_keys:
  assumes "leaves Keys sh (exec p sh) (Inr a) ks" "wfShared sh"
  shows "ranAs j sh (exec p sh) (bindE (tellM (\<lambda>s. s\<lparr>ses_doc := (ses_doc s)\<lparr>v_Keys := ks\<rparr>\<rparr>)) (\<lambda>_. returnE a) (viewOf j sh))"
  using assms by (auto simp: leaves_def ranAs_def viewOf_def docOf_def wfShared_def bindE_def tellM_def returnE_def)

lemma tellM_unit: "bindE (tellM f) (\<lambda>_. returnE ()) = tellM f" "bindE (tellM f) returnE = tellM f"
  by (rule ext, auto simp: bindE_def tellM_def returnE_def)+

lemma implements_appendKey:
  "implements j (appendP spare Keys blank entry)
     (tellM (\<lambda>s. s\<lparr>ses_doc := (ses_doc s)\<lparr>v_Keys := v_Keys (ses_doc s) @ [entry]\<rparr>\<rparr>))"
proof (rule implementsI)
  fix sh :: "'a shared" assume sh: "wfShared sh"
  have "leaves Keys sh (exec (appendP spare Keys blank entry :: ('a, unit) body) sh) (Inr ()) (contents (sh_keys sh) @ [entry])"
    using keys.exec_append [of sh spare blank entry] wfSharedD [OF sh] by simp
  from leaves_keys [OF this sh, of j]
  show "ranAs j sh (exec (appendP spare Keys blank entry) sh)
     (tellM (\<lambda>s. s\<lparr>ses_doc := (ses_doc s)\<lparr>v_Keys := v_Keys (ses_doc s) @ [entry]\<rparr>\<rparr>) (viewOf j sh))"
    by (simp add: tellM_unit) (simp add: tellM_def viewOf_def)
qed

lemma implements_filterKeys:
  "implements j (filterP spare Keys blank P)
     (tellM (\<lambda>s. s\<lparr>ses_doc := (ses_doc s)\<lparr>v_Keys := filter P (v_Keys (ses_doc s))\<rparr>\<rparr>))"
proof (rule implementsI)
  fix sh :: "'a shared" assume sh: "wfShared sh"
  have "leaves Keys sh (exec (filterP spare Keys blank P :: ('a, unit) body) sh) (Inr ()) (filter P (contents (sh_keys sh)))"
    using keys.exec_filter [of sh spare blank P] wfSharedD [OF sh] by simp
  from leaves_keys [OF this sh, of j]
  show "ranAs j sh (exec (filterP spare Keys blank P) sh)
     (tellM (\<lambda>s. s\<lparr>ses_doc := (ses_doc s)\<lparr>v_Keys := filter P (v_Keys (ses_doc s))\<rparr>\<rparr>) (viewOf j sh))"
    by (simp add: tellM_unit) (simp add: tellM_def viewOf_def)
qed

lemma putSecretIn_replaceFirst:
  "putSecretIn ss name e = (case replaceFirst (\<lambda>s. s_Name s = name) e ss of Some ss' \<Rightarrow> ss' | None \<Rightarrow> ss @ [e])"
  by (induction ss) (auto split: option.split)

lemma deleteSecretIn_removeFirst: "deleteSecretIn ss name = removeFirst (\<lambda>s. s_Name s = name) ss"
  by (induction ss) auto

lemma implements_put_loop:
  "implements j (bindP (replaceP Secrets (\<lambda>s. s_Name s = name) e)
       (\<lambda>replaced. if replaced then retP () else appendP spare Secrets blank e))
     (tellM (\<lambda>s. s\<lparr>ses_doc := (ses_doc s)\<lparr>v_Secrets := putSecretIn (v_Secrets (ses_doc s)) name e\<rparr>\<rparr>))"
    (is "implements j ?p ?m")
proof (rule implementsI)
  fix sh :: "'a shared" assume sh: "wfShared sh"
  let ?ss = "contents (sh_secrets sh)"
  note ran = secrets.exec_replace [where s = sh and P = "\<lambda>s. s_Name s = name" and e' = e and 'err = goerror]
  have "leaves Secrets sh (exec ?p sh) (Inr ()) (putSecretIn ?ss name e)"
  proof (cases "replaceFirst (\<lambda>s. s_Name s = name) e ?ss")
    case None
    with ran wfSharedD [OF sh] secrets.exec_append [of sh spare blank e] show ?thesis
      by (simp add: exec_bindP putSecretIn_replaceFirst)
  next
    case (Some ss')
    with ran wfSharedD [OF sh] show ?thesis by (auto simp: exec_bindP putSecretIn_replaceFirst leaves_def)
  qed
  from leaves_secrets [OF this sh, of j] show "ranAs j sh (exec ?p sh) (?m (viewOf j sh))"
    by (simp add: tellM_unit) (simp add: tellM_def viewOf_def)
qed

lemma implements_delete_loop:
  "implements j (bindP (removeP spare Secrets blank (\<lambda>s. s_Name s = name))
       (\<lambda>removed. if removed then retP () else failP e))
     (bindE (askM (\<lambda>s. deleteSecretIn (v_Secrets (ses_doc s)) name)) (\<lambda>found.
        case found of Some ss \<Rightarrow> tellM (\<lambda>s. s\<lparr>ses_doc := (ses_doc s)\<lparr>v_Secrets := ss\<rparr>\<rparr>) | None \<Rightarrow> throwE e))"
    (is "implements j ?p ?m")
proof (rule implementsI)
  fix sh :: "'a shared" assume sh: "wfShared sh"
  let ?ss = "contents (sh_secrets sh)"
  note ran = secrets.exec_remove [where s = sh and P = "\<lambda>s. s_Name s = name" and spare = spare and blank = blank
      and 'err = goerror]
  show "ranAs j sh (exec ?p sh) (?m (viewOf j sh))"
  proof (cases "deleteSecretIn ?ss name")
    case None
    with ran sh wfSharedD [OF sh] show ?thesis
      by (simp add: exec_bindP ranAs_def viewOf_def bindE_def askM_def throwE_def deleteSecretIn_removeFirst)
  next
    case (Some ss')
    with ran wfSharedD [OF sh] have "leaves Secrets sh (exec ?p sh) (Inr ()) ss'"
      by (auto simp: exec_bindP leaves_def deleteSecretIn_removeFirst)
    from leaves_secrets [OF this sh, of j] Some show ?thesis
      by (simp add: tellM_unit bindE_def [of "askM _"] askM_def viewOf_def)
  qed
qed

lemmas implements_intros = implements_if implements_option implements_pair implements_bind implements_ret implements_fail
  implements_lift implements_head implements_world implements_key implements_opts implements_findSecret
  implements_findKey implements_slotOccupied implements_put_loop

lemmas atomically = bindE_def keyM_def docM_def optsM_def askM_def tellM_def headM_def setDocM_def onWorld_def
  returnE_def throwE_def liftE_def

text \<open>The atomic methods, reading only the fields that the code reads.\<close>

lemma fieldsOf_simps [simp]:
  "v_RPID (fieldsOf v) = v_RPID v" "v_Salt (fieldsOf v) = v_Salt v" "v_UserVerified (fieldsOf v) = v_UserVerified v"
  "aad (fieldsOf v) = aad v" "uvRequirement (fieldsOf v) = uvRequirement v"
  by (simp_all add: fieldsOf_def aad_def uvRequirement_def)

lemma boxes_fieldsOf [simp]:
  "sealSecret x (fieldsOf v) = sealSecret x v" "openSecret x (fieldsOf v) = openSecret x v"
  "wrapDataKey x (fieldsOf v) = wrapDataKey x v"
  by ((rule ext)+, simp add: sealSecret_def openSecret_def wrapDataKey_def keyAAD_def secretAAD_def)+

lemma requests_fieldsOf [simp]:
  "enrollRequest (fieldsOf v) = enrollRequest v" "firstDerive (fieldsOf v) = firstDerive v"
  by ((rule ext)+, simp add: enrollRequest_def firstDerive_def)+

lemma enrollAndDerive_fieldsOf [simp]: "enrollAndDerive x auth (fieldsOf v) = enrollAndDerive x auth v"
  by (rule ext)+ (simp add: enrollAndDerive_def cong: if_cong)

lemma Open_pieces:
  "Open x name =
     bindE keyM (\<lambda>dataKey.
     bindE (askM (\<lambda>s. findSecret (ses_doc s) name)) (\<lambda>found.
     case found of
       None \<Rightarrow> throwE (wrap ''%w: %q'' (Sentinel ErrNoSuchSecret))
     | Some entry \<Rightarrow>
         bindE headM (\<lambda>doc. bindE (liftE (openSecret x doc dataKey entry)) (\<lambda>plaintext.
         returnE \<lparr>rd_buf = plaintext, rd_src = True, rd_pos = 0, rd_once = False\<rparr>))))"
  by (rule ext) (auto simp: Open_def atomically split: option.split sum.split prod.split)

lemma Put_pieces:
  "Put x name secret =
     bindE keyM (\<lambda>dataKey.
     if name = [] then throwE (errorsNew ''touchvault: a secret must have a name'')
     else case secret of
       None \<Rightarrow> throwE (errorsNew ''touchvault: a secret must have a value'')
     | Some rd \<Rightarrow>
         bindE (liftE (wrapErr (wrap ''touchvault: reading the secret %q: %w'') rd)) (\<lambda>plaintext.
         bindE headM (\<lambda>doc.
         bindE (onWorld (sealSecret x doc dataKey name plaintext)) (\<lambda>entry.
         tellM (\<lambda>s. s\<lparr>ses_doc := (ses_doc s)\<lparr>v_Secrets := putSecretIn (v_Secrets (ses_doc s)) name entry\<rparr>\<rparr>)))))"
  by (rule ext) (auto simp: Put_def atomically split: option.split sum.split prod.split)

lemma Delete_pieces:
  "Delete name =
     bindE keyM (\<lambda>_.
     bindE (askM (\<lambda>s. deleteSecretIn (v_Secrets (ses_doc s)) name)) (\<lambda>found.
        case found of
          Some ss \<Rightarrow> tellM (\<lambda>s. s\<lparr>ses_doc := (ses_doc s)\<lparr>v_Secrets := ss\<rparr>\<rparr>)
        | None \<Rightarrow> throwE (wrap ''%w: %q'' (Sentinel ErrNoSuchSecret))))"
  by (rule ext) (auto simp: Delete_def atomically split: option.split sum.split prod.split)

lemma removeKey_pieces:
  "removeKey slot =
     tellM (\<lambda>s. s\<lparr>ses_doc := (ses_doc s)\<lparr>v_Keys := filter (\<lambda>k. k_Slot k \<noteq> slot) (v_Keys (ses_doc s))\<rparr>\<rparr>)"
  by (rule ext) (auto simp: removeKey_def atomically)

lemma RemoveKey_pieces:
  "RemoveKey slot =
     bindE (bindE keyM (\<lambda>_.
     bindE (askM (\<lambda>s. slotOccupied (ses_doc s) slot)) (\<lambda>occupied.
     if \<not> occupied then throwE (wrap ''%w: slot %d'' (Sentinel ErrNoSuchSlot))
     else bindE (askM (\<lambda>s. length (v_Keys (ses_doc s)))) (\<lambda>n.
     if n = 1 then throwE (Sentinel ErrLastKey) else returnE ())))) (\<lambda>_. removeKey slot)"
  by (rule ext) (auto simp: RemoveKey_def removeKey_pieces atomically split: option.split)

lemma ForceRemoveKey_pieces:
  "ForceRemoveKey slot =
     bindE keyM (\<lambda>_.
     bindE (askM (\<lambda>s. slotOccupied (ses_doc s) slot)) (\<lambda>occupied.
     if \<not> occupied then throwE (wrap ''%w: slot %d'' (Sentinel ErrNoSuchSlot))
     else removeKey slot))"
  by (rule ext) (auto simp: ForceRemoveKey_def removeKey_pieces atomically split: option.split)

lemma atState:
  "bindE keyM f1 (s, w) = (case ses_dataKey s of None \<Rightarrow> (failWith ErrLocked, (s, w)) | Some dk \<Rightarrow> f1 dk (s, w))"
  "bindE docM f2 (s, w) = f2 (ses_doc s) (s, w)" "bindE optsM f3 (s, w) = f3 (ses_opts s) (s, w)"
  "bindE headM f2 (s, w) = f2 (fieldsOf (ses_doc s)) (s, w)" "bindE (askM h') f4 (s, w) = f4 (h' s) (s, w)"
  "bindE (onWorld m) g (s, w) = (case m w of (Inl e, w') \<Rightarrow> (Inl e, (s, w')) | (Inr a, w') \<Rightarrow> g a (s, w'))"
  "(if b then m1 else m2) (s, w) = (if b then m1 (s, w) else m2 (s, w))"
  "throwE e (s, w) = (Inl e, (s, w))" "setDocM d (s, w) = (Inr (), (s\<lparr>ses_doc := d\<rparr>, w))"
  "tellM h (s, w) = (Inr (), (h s, w))"
  by (simp_all add: atomically split: option.split prod.split sum.split)

definition newKeyM :: "'z x509_scheme \<Rightarrow> 'd Authenticator \<Rightarrow> int \<Rightarrow> string \<Rightarrow> (sealedKey, 'd) sessionM" where
  "newKeyM x auth slot label0 =
     bindE keyM (\<lambda>dataKey.
     if slot < 0 then throwE (errorsNew ''touchvault: slot must not be negative, got %d'')
     else bindE (askM (\<lambda>s. slotOccupied (ses_doc s) slot)) (\<lambda>occupied.
     if occupied then throwE (wrap ''%w: slot %d'' (Sentinel ErrSlotOccupied))
     else
     let label = (if label0 = [] then DefaultLabel else label0) in
     bindE headM (\<lambda>doc.
     let uv = uvRequirement doc in
     bindE optsM (\<lambda>opts.
     bindE (onWorld (enrollAndDerive x auth doc opts uv)) (\<lambda>(cred, derived).
     bindE (askM (\<lambda>s. findKey (ses_doc s) (er_CredentialID cred))) (\<lambda>exists.
     if exists \<noteq> None then
       throwE (errorsNew ''touchvault: that security key is already enrolled in another slot'')
     else bindE headM (\<lambda>doc.
     if dr_UserVerified derived \<noteq> v_UserVerified doc then
       throwE (wrap ''%w: this key reported user_verified=%v, the vault was enrolled with %v''
                (Sentinel ErrUserVerificationMismatch))
     else
     bindE (onWorld (verifyDerivationDependsOnSalt auth (v_RPID doc) (er_CredentialID cred) (v_Salt doc)
              (dr_Secret derived) uv (dr_UserVerified derived))) (\<lambda>_.
     onWorld (wrapDataKey x doc dataKey (er_CredentialID cred) (dr_Secret derived) slot label)))))))))"

lemma bindE_assoc: "bindE (bindE m f) g = bindE m (\<lambda>a. bindE (f a) g)"
  by (rule ext) (auto simp: bindE_def split: prod.split sum.split)

lemma bindE_branches:
  "bindE (if b then m else n) g = (if b then bindE m g else bindE n g)"
  "bindE (throwE e) g = throwE e" "bindE (case r of (a, c) \<Rightarrow> f a c) g = (case r of (a, c) \<Rightarrow> bindE (f a c) g)"
  by (auto simp: bindE_def throwE_def split: prod.split)

lemma EnrollKey_pieces:
  "EnrollKey x auth slot label0 =
     bindE (newKeyM x auth slot label0)
       (\<lambda>entry. tellM (\<lambda>s. s\<lparr>ses_doc := (ses_doc s)\<lparr>v_Keys := v_Keys (ses_doc s) @ [entry]\<rparr>\<rparr>))"
  by (rule ext, clarify)
    (simp add: EnrollKey_def newKeyM_def bindE_assoc bindE_branches atState Let_def split_beta
       cong: if_cong option.case_cong sum.case_cong prod.case_cong)

lemma implements_open: "implements j (openP x j name) (Open x name)"
  unfolding openP_def Open_pieces by (intro implements_intros)

lemma implements_put: "implements j (putP spare x j name secret) (Put x name secret)"
  unfolding putP_def Put_pieces by (intro implements_intros)

lemma implements_delete: "implements j (deleteP spare j name) (Delete name)"
  unfolding deleteP_def Delete_pieces
  by (rule implements_bind [OF implements_key implements_delete_loop])

lemma implements_newKey: "implements j (newKeyP x auth j slot label) (newKeyM x auth slot label)"
  unfolding newKeyP_def newKeyM_def Let_def by (intro implements_intros)

lemma implements_enroll: "implements j (enrollKeyP spare x auth j slot label) (EnrollKey x auth slot label)"
  unfolding enrollKeyP_def EnrollKey_pieces by (rule implements_bind [OF implements_newKey implements_appendKey])

lemma implements_drop: "implements j (dropKeyP spare slot) (removeKey slot)"
  unfolding dropKeyP_def removeKey_pieces by (rule implements_filterKeys)

lemma implements_remove:
  "implements j (removeKeyP spare j slot) (RemoveKey slot)"
  "implements j (forceRemoveKeyP spare j slot) (ForceRemoveKey slot)"
  unfolding removeKeyP_def mayRemoveP_def RemoveKey_pieces forceRemoveKeyP_def ForceRemoveKey_pieces
  by (intro implements_bind implements_drop implements_if implements_key implements_slotOccupied implements_fail
      implements_header, simp add: implements_ret implements_fail)
    (intro implements_bind implements_drop implements_if implements_key implements_slotOccupied implements_fail)

lemma implements_lock: "implements j (lockP j) (tellM (\<lambda>s. fst (Lock s)))"
proof -
  have "tellM (\<lambda>s. fst (Lock s)) = (bindE (tellM (\<lambda>s. s\<lparr>ses_dataKey := map_option zero (ses_dataKey s)\<rparr>))
    (\<lambda>_. tellM (\<lambda>s. s\<lparr>ses_dataKey := None\<rparr>)) :: (unit, 'a) sessionM)"
    by (rule ext) (auto simp: atomically Lock_def)
  then show ?thesis
    unfolding lockP_def by (simp add: implements_bind implements_setKey [where f = "\<lambda>_. None"] implements_setKey)
qed

lemma implements_modify: "implements j (modifyP spare x auth j op) (runOp x auth op)"
  by (cases op) (simp_all add: implements_put implements_delete implements_enroll implements_remove)

theorem callP_implements: "implements j (callP spare x j c) (callM x c)"
  by (cases c)
    (simp_all add: answersP_def answersM_def implements_bind implements_ret implements_open implements_lock
       implements_modify implements_names implements_slots implements_sealed)

end
