(* ===== verification/Concurrency.thy ===== *)
theory Concurrency
  imports SessionCalls VaultGuarantees
begin

text \<open>
  What goroutines that share a session, or share the document through several sessions of one vault,
  can observe. The pool runs the bodies of \<open>SessionCalls\<close> in small steps, with a mutex for each session
  as in \<open>session.mu\<close>; threads, calls and the order of the steps are arbitrary.
\<close>

section \<open>Sequential runs\<close>

fun runCalls ::
  "'z x509_scheme \<Rightarrow> 'd call list \<Rightarrow> session \<times> 'd world \<Rightarrow> (goerror + answer) list \<times> session \<times> 'd world" where
  "runCalls x [] v = ([], v)"
| "runCalls x (c # cs) v =
     (case callM x c v of (r, v') \<Rightarrow> case runCalls x cs v' of (rs, v'') \<Rightarrow> (r # rs, v''))"

type_synonym 'd record_entry = "nat \<times> nat \<times> 'd call \<times> (goerror fault + answer)"

definition callIn :: "'d record_entry \<Rightarrow> 'd call" where
  "callIn e = fst (snd (snd e))"

definition answerIn :: "'d record_entry \<Rightarrow> goerror fault + answer" where
  "answerIn e = snd (snd (snd e))"

lemma entry_simps [simp]: "callIn (m, t, c, a) = c" "answerIn (m, t, c, a) = a"
  by (simp_all add: callIn_def answerIn_def)

lemma replay_runs:
  assumes "replay (callP spare x) h sh = Some sh'" "\<forall>e \<in> set h. fst e = j"
    and "wfShared sh" "j < length (sh_sessions sh)"
  shows "\<exists>rs. runCalls x (map callIn h) (viewOf j sh) = (rs, viewOf j sh')
    \<and> map answerIn h = map outcome rs \<and> wfShared sh'"
  using assms
proof (induction h arbitrary: sh)
  case (Cons e h)
  obtain t c a where e: "e = (j, t, c, a)" using Cons.prems(2) by (cases e) auto
  obtain sh1 where run: "exec (callP spare x j c) sh = (a, sh1)" "replay (callP spare x) h sh1 = Some sh'"
    using Cons.prems(1) e by (auto split: prod.splits if_splits)
  from implementsD [OF callP_implements Cons.prems(3,4) run(1)] obtain r where
    r: "callM x c (viewOf j sh) = (r, viewOf j sh1)" "a = outcome r" "wfShared sh1"
      "j < length (sh_sessions sh1)" using Cons.prems(4) by auto
  from Cons.IH [OF run(2) _ r(3,4)] Cons.prems(2) r e show ?case by auto
qed simp

text \<open>For runs on concrete memory: every body spelled out.\<close>

lemmas evaluate = headP_def poolTurn_def answersP_def openP_def deleteP_def keyP_def findSecretP_def rangeFindP_def
  rangeP_def removeP_def loadP_def spliceP_def headerP_def cellP_def setCellP_def setHeaderP_def changeM_def setCell_def
  setArray_def sliceOf_def contents_def bindP_def readP_def writeP_def retP_def failP_def panicP_def
  lockP_def setKeyP_def liftP_def docOf_def findSecret_def Let_def numeral_eq_Suc

section \<open>One session\<close>

interpretation oneSession: separate_objects "\<lambda>_ sh. sh" "{j}" "callP spare x" "\<lambda>_ _. True"
  by unfold_locales (auto intro: ownPart_whole)

text \<open>C19: Session safety (\<open>session.mu\<close>). Whatever goroutines call whatever methods of one session at the same
  time, in any interleaving of their loads and stores: the recorded answers are those of calling the
  methods one after the other, in the order the mutex was released, and none is a panic; and whenever
  nobody is inside, the document, the session and the world are what that sequence of calls leaves.\<close>

theorem session_calls_atomic:
  fixes sh :: "'d shared"
  assumes "wfShared sh" "j < length (sh_sessions sh)"
    and "(poolStep (callP spare x) (\<lambda>m c. m = j))\<^sup>*\<^sup>* (startPool sh) y"
  shows "\<exists>rs v. runCalls x (map callIn (p_history y)) (viewOf j sh) = (rs, v)
    \<and> map answerIn (p_history y) = map outcome rs
    \<and> (p_mutex y j = None \<longrightarrow> viewOf j (p_shared y) = v \<and> wfShared (p_shared y))"
proof -
  have steps: "(poolStep (callP spare x) (\<lambda>m c. m \<in> {j} \<and> True))\<^sup>*\<^sup>* (startPool sh) y" using assms(3) by simp
  have only: "\<forall>e \<in> set (p_history y). fst e = j" using recorded_allowed [OF assms(3)] by fastforce
  then have "callsOf j (p_history y) = p_history y" by (simp add: callsOf_def)
  with oneSession.atomic [OF steps] obtain s where
    s: "replay (callP spare x) (p_history y) sh = Some s" "p_mutex y j = None \<longrightarrow> p_shared y = s" by auto
  from replay_runs [OF s(1) only assms(1,2)] obtain rs where
    "runCalls x (map callIn (p_history y)) (viewOf j sh) = (rs, viewOf j s)"
    "map answerIn (p_history y) = map outcome rs" "wfShared s" by blast
  with s(2) show ?thesis by (intro exI [of _ rs] exI [of _ "viewOf j s"]) auto
qed

text \<open>The document with the value \<open>a\<close>, and two sessions that have it open.\<close>

definition toyShared :: "unit shared" where
  "toyShared = \<lparr>sh_secrets = sliceOf [toySecret] [], sh_keys = sliceOf [toyEntry 1] [], sh_doc = toyDoc0,
     sh_sessions = [(toyOpts, Some toyDataKey), (toyOpts, Some toyDataKey)], sh_world = toyWorld\<rparr>"

definition noSpare :: "nat \<Rightarrow> nat" where
  "noSpare n = 0"

lemma toyShared_facts:
  "wfShared toyShared" "length (sh_sessions toyShared) = 2" "docOf toyShared = ses_doc (toySession2 1)"
  "sh_sessions toyShared ! 0 = (toyOpts, Some toyDataKey)" "sh_sessions toyShared ! Suc 0 = (toyOpts, Some toyDataKey)"
  by (simp_all add: toyShared_def wfShared_def docOf_def fieldsOf_def toyDoc0_def createdDoc_def)

text \<open>Three threads wait to make these calls.\<close>

definition toyPool :: "nat \<times> unit call \<Rightarrow> nat \<times> unit call \<Rightarrow> nat \<times> unit call
    \<Rightarrow> (unit shared, unit call, goerror fault + answer) pool" where
  "toyPool c0 c1 c2 = (startPool toyShared)\<lparr>p_threads :=
     (\<lambda>_. Idle)(0 := Waiting (fst c0) (snd c0), 1 := Waiting (fst c1) (snd c1), 2 := Waiting (fst c2) (snd c2))\<rparr>"

lemma toyPool_reached:
  assumes "allowed (fst c0) (snd c0)" "allowed (fst c1) (snd c1)" "allowed (fst c2) (snd c2)"
  shows "(poolStep (callP spare x) allowed)\<^sup>*\<^sup>* (startPool toyShared) (toyPool c0 c1 c2)"
proof -
  let ?y = "\<lambda>f. (startPool toyShared)\<lparr>p_threads := f\<rparr>"
  let ?f0 = "(\<lambda>_. Idle)(0 := Waiting (fst c0) (snd c0))"
  let ?f1 = "?f0(1 := Waiting (fst c1) (snd c1))"
  let ?f2 = "?f1(2 := Waiting (fst c2) (snd c2))" and ?step = "poolStep (callP spare x) allowed"
  have one: "?step (?y (\<lambda>_. Idle)) (?y ?f0)"
    using poolStep.calls [of "?y (\<lambda>_. Idle)" 0 allowed "fst c0" "snd c0"] assms by simp
  have two: "?step (?y ?f0) (?y ?f1)"
    using poolStep.calls [of "?y ?f0" 1 allowed "fst c1" "snd c1"] assms by simp
  have three: "?step (?y ?f1) (?y ?f2)"
    using poolStep.calls [of "?y ?f1" 2 allowed "fst c2" "snd c2"] assms by simp
  have "?y (\<lambda>_. Idle) = startPool toyShared" by (simp add: startPool_def)
  moreover have "?step\<^sup>*\<^sup>* (?y (\<lambda>_. Idle)) (?y ?f2)"
    by (rule converse_rtranclp_into_rtranclp [OF one converse_rtranclp_into_rtranclp
          [OF two r_into_rtranclp [of ?step, OF three]]])
  ultimately show ?thesis unfolding toyPool_def by metis
qed

lemma toySecret_name [simp]: "s_Name toySecret = ''a''"
  by (simp add: toySecret_def)

lemma toyShared_opens [simp]:
  "openSecret toyX toyDoc0 toyDataKey toySecret = Inr [1, 2]"
  by (simp add: openSecret_Inr_iff openAEAD_def newGCM_def dataKeyLen_def aesNewCipher_def gcmNonceSize_def toyDataKey_def toySecret_def
      toyOpen_Some [THEN iffD2, OF refl])

text \<open>Thread 1 deletes in one session while threads 0 and 2 want to read.\<close>

lemma toy_one_session:
  "\<exists>y. follow (\<lambda>_. True) (callP noSpare toyX)
       (toyPool (0, COpen ''a'') (0, CModify (toyKey 1) (OpDelete ''a'')) (0, CNames))
       ([1, 0, 1, 1, 2, 1, 1, 1, 1, 1, 1, 0, 0, 2, 0, 0, 2, 2, 2]) = Some y
     \<and> p_history y = [(0, 1, CModify (toyKey 1) (OpDelete ''a''), Inr ADone),
         (0, 0, COpen ''a'', Inl (Err (wrap ''%w: %q'' (Sentinel ErrNoSuchSecret)))),
         (0, 2, CNames, Inr (ANames []))]"
  by (simp add: toyPool_def startPool_def toyShared_def namesP_def evaluate)

theorem session_calls_atomic_witness:
  "\<exists>rs v. runCalls toyX [CModify (toyKey 1) (OpDelete ''a''), COpen ''a'', CNames] (viewOf 0 toyShared) = (rs, v)
     \<and> map outcome rs = [Inr ADone, Inl (Err (wrap ''%w: %q'' (Sentinel ErrNoSuchSecret))), Inr (ANames [])]"
proof -
  let ?p0 = "toyPool (0, COpen ''a'') (0, CModify (toyKey 1) (OpDelete ''a'')) (0, CNames)"
  obtain y where y: "(stepWithin (\<lambda>_. True) (callP noSpare toyX) (\<lambda>m c. m = 0))\<^sup>*\<^sup>* ?p0 y"
    "p_history y = [(0, 1, CModify (toyKey 1) (OpDelete ''a''), Inr ADone),
         (0, 0, COpen ''a'', Inl (Err (wrap ''%w: %q'' (Sentinel ErrNoSuchSecret)))),
         (0, 2, CNames, Inr (ANames []))]"
    using toy_one_session follow_steps by blast
  have "(poolStep (callP noSpare toyX) (\<lambda>m c. m = 0))\<^sup>*\<^sup>* (startPool toyShared) ?p0"
    by (rule toyPool_reached) simp_all
  also have "(poolStep (callP noSpare toyX) (\<lambda>m c. m = 0))\<^sup>*\<^sup>* ?p0 y"
    using y(1) by (rule within_steps)
  finally show ?thesis
    using session_calls_atomic [of toyShared 0 noSpare toyX y] y(2) toyShared_facts(1,2) by auto
qed

text \<open>Session 0 is locked while it and session 1 are reading.\<close>

lemma toy_readers:
  "\<exists>y. follow (\<lambda>_. True) (callP noSpare toyX) (toyPool (0, COpen ''a'') (0, CLock) (1, COpen ''a''))
     ([1, 1, 0, 2, 2, 1, 1, 2, 2, 0, 0, 2, 2, 0, 0, 2, 0]) = Some y
    \<and> p_history y = [(0, 1, CLock, Inr ADone),
        (1, 2, COpen ''a'', Inr (AStream \<lparr>rd_buf = [1, 2], rd_src = True, rd_pos = 0, rd_once = False\<rparr>)),
        (0, 0, COpen ''a'', Inl (Err (Sentinel ErrLocked)))]"
  by (simp add: toyPool_def startPool_def toyShared_def evaluate)

section \<open>Readers on several sessions of one vault\<close>

fun readsOnly :: "'d call \<Rightarrow> bool" where
  "readsOnly (CModify auth op) = False"
| "readsOnly c = True"

definition sessionPart :: "nat \<Rightarrow> 'd shared \<Rightarrow> 'd shared \<times> nat \<times> Options \<times> bytes option" where
  "sessionPart j sh = (sh\<lparr>sh_sessions := []\<rparr>, length (sh_sessions sh), sh_sessions sh ! j)"

lemma sessionPartE:
  assumes "sessionPart j sh = sessionPart j sh'"
  obtains "sh_secrets sh = sh_secrets sh'" "sh_keys sh = sh_keys sh'" "sh_doc sh = sh_doc sh'"
    "sh_sessions sh ! j = sh_sessions sh' ! j"
  using assms by (cases sh; cases sh'; simp add: sessionPart_def)

lemma own_accesses:
  "ownPart sessionPart M j (cellP Secrets a i)" "ownPart sessionPart M j (cellP Keys a i)"
  "ownPart sessionPart M j (headerP Secrets)" "ownPart sessionPart M j (headerP Keys)"
  "ownPart sessionPart M j headP" "ownPart sessionPart M j (readP (\<lambda>sh. snd (sh_sessions sh ! j)))"
  unfolding cellP_def headerP_def headP_def by (rule ownPart_readP, erule sessionPartE, simp)+

lemma own_setKey: "ownPart sessionPart M j (setKeyP j f)"
  unfolding setKeyP_def
proof (rule ownPart_writeP)
  fix sh sh' :: "'d shared" assume "sessionPart j sh = sessionPart j sh'"
  then show "sessionPart j (sh\<lparr>sh_sessions := (sh_sessions sh)[j := (fst (sh_sessions sh ! j), f (snd (sh_sessions sh ! j)))]\<rparr>)
    = sessionPart j (sh'\<lparr>sh_sessions := (sh_sessions sh')[j := (fst (sh_sessions sh' ! j), f (snd (sh_sessions sh' ! j)))]\<rparr>)"
    by (cases "j < length (sh_sessions sh)") (auto simp: sessionPart_def list_update_beyond not_less)
qed (simp add: sessionPart_def)

lemma own_loops:
  "ownPart sessionPart M j (cellsP Secrets a i k)" "ownPart sessionPart M j (cellsP Keys a i k)"
  "ownPart sessionPart M j (searchP Secrets a i k P)"
  "ownPart sessionPart M j (loadsP Secrets i k)" "ownPart sessionPart M j (loadsP Keys i k)"
  by (induction k arbitrary: i) (auto simp: loadP_def intro!: ownPart_bindP own_accesses)

lemma own_call:
  assumes "readsOnly c"
  shows "ownPart sessionPart M j (callP spare x j c)"
  using assms
  by (cases c)
    (auto simp: answersP_def namesP_def slotsP_def lockP_def openP_def keyP_def findSecretP_def sealedP_def
       rangeP_def rangeFindP_def reflectP_def
       split: option.split intro!: ownPart_bindP own_accesses own_setKey own_loops)

interpretation readers: separate_objects sessionPart "{..<n}" "callP spare x" "\<lambda>_. readsOnly"
  by unfold_locales (rule own_call)

text \<open>What a sequence of reading calls answers.\<close>

lemma reading_call:
  assumes "readsOnly c" "callM x c (s, w) = (r, v)"
  shows "v = (if c = CLock then s\<lparr>ses_dataKey := None\<rparr> else s, w)"
  using assms
  by (cases c)
    (auto simp: answersM_def atomically Open_def Lock_def split: option.splits sum.splits prod.splits)

lemma Open_locked: "ses_dataKey s = None \<Longrightarrow> Open x name (s, w) = (Inl (Sentinel ErrLocked), (s, w))"
  by (simp add: Open_def bindE_def)

lemma reading_calls:
  assumes "runCalls x cs (s, w) = (rs, v)" "\<forall>c \<in> set cs. readsOnly c" "cs = before @ COpen name # after"
  shows "rs ! length before = (if CLock \<in> set before then Inl (Sentinel ErrLocked)
    else fst (callM x (COpen name) (s, w)))"
  using assms
proof (induction before arbitrary: cs s w rs)
  case Nil
  then show ?case by (auto split: prod.splits)
next
  case (Cons c before)
  obtain r v1 where first: "callM x c (s, w) = (r, v1)" by (cases "callM x c (s, w)")
  let ?s = "if c = CLock then s\<lparr>ses_dataKey := None\<rparr> else s"
  have v1: "v1 = (?s, w)" using reading_call [OF _ first] Cons.prems(2,3) by simp
  obtain rs1 where rs: "runCalls x (before @ COpen name # after) (?s, w) = (rs1, v)" "rs = r # rs1"
    using Cons.prems first v1 by (auto split: prod.splits)
  have "\<forall>c \<in> set (before @ COpen name # after). readsOnly c" using Cons.prems(2,3) by simp
  from Cons.IH [OF rs(1) this refl] rs(2) show ?case
    by (auto simp: answersM_def bindE_def Open_locked)
qed

text \<open>C20: The promise of \<open>Session\<close>: reads may run concurrently, in one session or in several of one vault,
  and \<open>Lock\<close> may race with them. Whatever is called at the same time, as long as nobody modifies the
  vault: an \<open>Open\<close> answers the value, or that there is no such secret when there is none, unless a \<open>Lock\<close>
  of the same session came before it; then, and only then, it answers \<open>ErrLocked\<close>.\<close>

theorem concurrent_reads:
  fixes sh :: "'d shared"
  assumes "coherent x pf dk A (docOf sh)" "wfShared sh" "j < length (sh_sessions sh)"
    and "snd (sh_sessions sh ! j) = Some dk"
    and steps: "(poolStep (callP spare x) (\<lambda>m c. m < length (sh_sessions sh) \<and> readsOnly c))\<^sup>*\<^sup>* (startPool sh) y"
    and "callsOf j (p_history y) = before @ (j, t, COpen name, r) # after"
  shows "r = (if CLock \<in> set (map callIn before) then Inl (Err (Sentinel ErrLocked))
    else case A name of
      None \<Rightarrow> Inl (Err (wrap ''%w: %q'' (Sentinel ErrNoSuchSecret)))
    | Some value \<Rightarrow> Inr (AStream \<lparr>rd_buf = value, rd_src = True, rd_pos = 0, rd_once = False\<rparr>))"
proof -
  let ?h = "callsOf j (p_history y)"
  have "(poolStep (callP spare x) (\<lambda>m c. m \<in> {..<length (sh_sessions sh)} \<and> readsOnly c))\<^sup>*\<^sup>* (startPool sh) y"
    using steps by simp
  from readers.atomic [OF this] assms(3) obtain s where "replay (callP spare x) ?h sh = Some s" by auto
  from replay_runs [OF this _ assms(2,3)] obtain rs where
    rs: "runCalls x (map callIn ?h) (viewOf j sh) = (rs, viewOf j s)" "map answerIn ?h = map outcome rs"
    by (auto simp: callsOf_def)
  have "\<forall>c \<in> set (map callIn ?h). readsOnly c"
    using recorded_allowed [OF steps] by (fastforce simp: callsOf_def)
  moreover have "map callIn ?h = map callIn before @ COpen name # map callIn after" using assms(6) by simp
  ultimately have "rs ! length before = (if CLock \<in> set (map callIn before) then Inl (Sentinel ErrLocked)
      else fst (callM x (COpen name) (viewOf j sh)))"
    using reading_calls [of x "map callIn ?h" "fst (viewOf j sh)" "snd (viewOf j sh)" rs "viewOf j s" "map callIn before" name
        "map callIn after"] rs(1) by simp
  moreover have "r = outcome (rs ! length before)"
    using arg_cong [OF rs(2), of "\<lambda>as. as ! length before"] assms(6)
      arg_cong [OF rs(2), of length] by (simp add: nth_append)
  moreover have "fst (callM x (COpen name) (viewOf j sh)) = (case A name of
      None \<Rightarrow> Inl (wrap ''%w: %q'' (Sentinel ErrNoSuchSecret))
    | Some value \<Rightarrow> Inr (AStream \<lparr>rd_buf = value, rd_src = True, rd_pos = 0, rd_once = False\<rparr>))"
    using coherentD(5) [OF assms(1)] assms(4) secretsOpen_value [of x dk A "docOf sh" name]
    by (auto simp: viewOf_def answersM_def Open_def atomically split: option.splits)
  ultimately show ?thesis by (auto split: option.split)
qed

theorem concurrent_reads_witness:
  "\<exists>y r. (poolStep (callP noSpare toyX) (\<lambda>m c. m < 2 \<and> readsOnly c))\<^sup>*\<^sup>* (startPool toyShared) y
     \<and> callsOf 1 (p_history y) = [(1, 2, COpen ''a'', r)]
     \<and> r = Inr (AStream \<lparr>rd_buf = [1, 2], rd_src = True, rd_pos = 0, rd_once = False\<rparr>)"
proof -
  let ?p0 = "toyPool (0, COpen ''a'') (0, CLock) (1, COpen ''a'')" and ?ok = "\<lambda>m c. m < length (sh_sessions toyShared) \<and> readsOnly c"
  obtain y where y: "(stepWithin (\<lambda>_. True) (callP noSpare toyX) ?ok)\<^sup>*\<^sup>* ?p0 y"
    "\<exists>r r0 r1. p_history y = [(0, 1, CLock, r0), (1, 2, COpen ''a'', r), (0, 0, COpen ''a'', r1)]"
    using toy_readers follow_steps by blast
  then obtain r r0 r1 where h: "p_history y = [(0, 1, CLock, r0), (1, 2, COpen ''a'', r), (0, 0, COpen ''a'', r1)]"
    by blast
  have "(poolStep (callP noSpare toyX) ?ok)\<^sup>*\<^sup>* (startPool toyShared) ?p0"
    by (rule toyPool_reached) (simp_all add: toyShared_facts)
  also have "(poolStep (callP noSpare toyX) ?ok)\<^sup>*\<^sup>* ?p0 y"
    using y(1) by (rule within_steps)
  finally have steps: "(poolStep (callP noSpare toyX) ?ok)\<^sup>*\<^sup>* (startPool toyShared) y" .
  have "callsOf 1 (p_history y) = [] @ (1, 2, COpen ''a'', r) # []" using h by (simp add: callsOf_def)
  from concurrent_reads [OF _ toyShared_facts(1) _ _ steps this, of toyPRF toyDataKey "[''a'' \<mapsto> [1, 2]]"]
    toySession2_coherent [of 1] have "r = Inr (AStream \<lparr>rd_buf = [1, 2], rd_src = True, rd_pos = 0, rd_once = False\<rparr>)"
    by (simp add: toyShared_facts)
  moreover have "callsOf 1 (p_history y) = [(1, 2, COpen ''a'', r)]" using h by (simp add: callsOf_def)
  ultimately show ?thesis using steps unfolding toyShared_facts(2) by blast
qed

section \<open>A reader and a writer on two sessions of one vault\<close>

text \<open>
  Any document that holds secrets \<open>a\<close>, \<open>b\<close> and \<open>c\<close>, whatever else is in it, in an array with any room to spare,
  and two unlocked sessions of its vault.
\<close>

definition three :: "(string \<Rightarrow> bytes) \<Rightarrow> (string \<Rightarrow> bytes) \<Rightarrow> sealedSecret list" where
  "three nonce ciphertext =
     [\<lparr>s_Name = ''a'', s_Nonce = nonce ''a'', s_Ciphertext = ciphertext ''a''\<rparr>,
      \<lparr>s_Name = ''b'', s_Nonce = nonce ''b'', s_Ciphertext = ciphertext ''b''\<rparr>,
      \<lparr>s_Name = ''c'', s_Nonce = nonce ''c'', s_Ciphertext = ciphertext ''c''\<rparr>]"

definition twoSessions :: "sealedVault \<Rightarrow> sealedKey memory \<Rightarrow> sealedSecret list \<Rightarrow> sealedSecret list \<Rightarrow> Options \<Rightarrow> bytes \<Rightarrow> 'd world \<Rightarrow> 'd shared" where
  "twoSessions doc ks ss room opts dk w =
     \<lparr>sh_secrets = sliceOf ss room, sh_keys = ks, sh_doc = doc,
      sh_sessions = [(opts, Some dk), (opts, Some dk)], sh_world = w\<rparr>"

lemma twoSessions_doc: "docOf (twoSessions doc ks ss room opts dk w) = doc\<lparr>v_Keys := contents ks, v_Secrets := ss\<rparr>"
  by (simp add: docOf_def twoSessions_def)

definition bothCalled :: "sealedVault \<Rightarrow> sealedKey memory \<Rightarrow> sealedSecret list \<Rightarrow> sealedSecret list \<Rightarrow> Options \<Rightarrow> bytes \<Rightarrow> 'd world \<Rightarrow> 'd call \<Rightarrow> 'd call
    \<Rightarrow> ('d shared, 'd call, goerror fault + answer) pool" where
  "bothCalled doc ks ss room opts dk w c0 c1 = (startPool (twoSessions doc ks ss room opts dk w))\<lparr>p_threads :=
     (\<lambda>_. Idle)(0 := Waiting 0 c0, 1 := Waiting 1 c1)\<rparr>"

definition stored :: "string \<Rightarrow> ('d shared, 'c, 'a) pool \<Rightarrow> bool" where
  "stored name y \<longleftrightarrow> findSecret (docOf (p_shared y)) name \<noteq> None"

lemmas twoEvaluate = bothCalled_def startPool_def twoSessions_def stored_def three_def evaluate

lemma both_called:
  fixes doc nonce ct defines "ss \<equiv> three nonce ct"
  shows "(stepWithin (stored ''b'') (callP spare x) (\<lambda>m c. m < 2))\<^sup>*\<^sup>* (startPool (twoSessions doc ks ss room opts dk w))
     (bothCalled doc ks ss room opts dk w c0 c1)" (is "?R\<^sup>*\<^sup>* ?y0 _")
proof -
  let ?y1 = "?y0\<lparr>p_threads := (\<lambda>_. Idle)(0 := Waiting 0 c0)\<rparr>"
  have "stored ''b'' ?y0" by (simp add: ss_def twoEvaluate)
  then have there: "stored ''b'' ?y0" "stored ''b'' ?y1" "stored ''b'' (bothCalled doc ks ss room opts dk w c0 c1)"
    by (simp_all add: stored_def bothCalled_def)
  have "poolStep (callP spare x) (\<lambda>m c. m < 2) ?y0
    (?y0\<lparr>p_threads := (p_threads ?y0)(0 := Waiting 0 c0)\<rparr>)"
    by (rule poolStep.calls) (simp_all add: startPool_def)
  moreover have "poolStep (callP spare x) (\<lambda>m c. m < 2) ?y1
    (?y1\<lparr>p_threads := (p_threads ?y1)(1 := Waiting 1 c1)\<rparr>)"
    by (rule poolStep.calls) simp_all
  ultimately have "?R ?y0 ?y1" "?R ?y1 (bothCalled doc ks ss room opts dk w c0 c1)"
    using there by (simp_all add: stepWithin_def startPool_def bothCalled_def)
  then show ?thesis by (blast intro: rtranclp.intros)
qed

lemma both_follow:
  assumes "\<exists>y. follow (stored ''b'') (callP spare x) (bothCalled doc ks (three nonce ct) room opts dk w c0 c1) ts = Some y \<and> p_history y = h"
  shows "\<exists>y. (stepWithin (stored ''b'') (callP spare x) (\<lambda>m c. m < 2))\<^sup>*\<^sup>* (startPool (twoSessions doc ks (three nonce ct) room opts dk w)) y
     \<and> p_history y = h"
  using assms rtranclp_trans [OF both_called follow_steps] by blast

lemma reader_schedule:
  "\<exists>y. follow (stored ''b'') (callP spare x) (bothCalled doc ks (three nonce ct) room opts dk w (COpen ''b'') (CModify auth (OpDelete ''a'')))
     ([0, 0, 0, 0] @ replicate 11 1 @ [0, 0, 0, 1, 1]) = Some y
   \<and> p_history y = [(0, 0, COpen ''b'', Inl (Err (wrap ''%w: %q'' (Sentinel ErrNoSuchSecret)))),
       (1, 1, CModify auth (OpDelete ''a''), Inr ADone)]"
  by (simp add: twoEvaluate)

lemma deletes_schedule:
  "\<exists>y. follow (stored ''b'') (callP spare x)
     (bothCalled doc ks (three nonce ct) room opts dk w (CModify auth (OpDelete ''c'')) (CModify auth (OpDelete ''a'')))
     ([0, 0, 0, 0, 0, 0, 0] @ replicate 13 1 @ [0, 0]) = Some y
   \<and> p_history y = [(1, 1, CModify auth (OpDelete ''a''), Inr ADone),
         (0, 0, CModify auth (OpDelete ''c''), Inl Panic)]"
  by (simp add: twoEvaluate)

text \<open>C21: What the mutexes do not give. A \<open>Session\<close> is documented as safe for concurrent use, but the sessions of
  one vault share its document and not their mutexes: a \<open>Delete\<close> of another secret through a second
  session moves entries under the loop of \<open>findSecret\<close>, and an \<open>Open\<close> of a secret that is stored at
  every moment answers that there is no such secret.\<close>

theorem reader_misses_secret:
  "\<exists>y. (stepWithin (stored ''b'') (callP spare x) (\<lambda>m c. m < 2))\<^sup>*\<^sup>* (startPool (twoSessions doc ks (three nonce ct) room opts dk w)) y
     \<and> p_history y = [(0, 0, COpen ''b'', Inl (Err (wrap ''%w: %q'' (Sentinel ErrNoSuchSecret)))),
         (1, 1, CModify auth (OpDelete ''a''), Inr ADone)]"
  by (rule both_follow [OF reader_schedule])

text \<open>The mutexes of two sessions of one vault do not keep administrative calls apart either: the loop of \<open>Delete\<close>
  takes the length once and indexes the slice each time, so a \<open>Delete\<close> through another session of the
  vault makes it index beyond the end, and it panics.\<close>

lemma deletes_may_panic:
  "\<exists>y. (stepWithin (stored ''b'') (callP spare x) (\<lambda>m c. m < 2))\<^sup>*\<^sup>* (startPool (twoSessions doc ks (three nonce ct) room opts dk w)) y
     \<and> p_history y = [(1, 1, CModify auth (OpDelete ''a''), Inr ADone),
         (0, 0, CModify auth (OpDelete ''c''), Inl Panic)]"
  by (rule both_follow [OF deletes_schedule])

end
