(* ===== verification/AdminRaces.thy ===== *)
theory AdminRaces
  imports Concurrency StorageGuarantees
begin

text \<open>
  Two administrators. The sessions of one vault share its document but not their mutexes, so the checks
  of \<open>EnrollKey\<close> and \<open>RemoveKey\<close> in one session and their effects come apart when another session
  changes the keys in between. The pools here start from any well-formed memory with two sessions; the
  runs are put together from whole segments of the bodies (\<open>Procedures\<close>).
\<close>

section \<open>The two halves of a call\<close>

lemma callP_enroll:
  "callP spare x j (CModify auth (OpEnroll slot label)) =
     bindP (newKeyP x auth j slot label) (\<lambda>entry. answersP (\<lambda>_. ADone) (appendP spare Keys emptyKey entry))"
  by (simp add: answersP_def enrollKeyP_def bindP_assoc)

lemma callP_remove:
  "callP spare x j (CModify auth (OpRemove slot)) =
     bindP (mayRemoveP j slot) (\<lambda>_. answersP (\<lambda>_. ADone) (dropKeyP spare slot))"
  by (simp add: answersP_def removeKeyP_def bindP_assoc)

text \<open>\<open>removeKey\<close> has read the keys and has not yet stored what it keeps of them.\<close>

definition keptP :: "int \<Rightarrow> ('d, nat \<times> sealedKey list) body" where
  "keptP slot = bindP (headerP Keys) (\<lambda>(a, made, cap). bindP (rangeP Keys) (\<lambda>ks.
     retP (made, filter (\<lambda>k. k_Slot k \<noteq> slot) ks)))"

lemma bindP_ret: "bindP (retP a) f = f a"
  by (simp add: bindP_def retP_def)

lemma dropKeyP_halves: "dropKeyP spare slot = bindP (keptP slot) (\<lambda>(made, kept). publishP spare Keys emptyKey made kept)"
  by (simp add: dropKeyP_def filterP_def keptP_def bindP_assoc bindP_ret split_def)

lemma callP_remove_late:
  "callP spare x j (CModify auth (OpRemove slot)) =
     bindP (bindP (mayRemoveP j slot) (\<lambda>_. keptP slot))
       (\<lambda>(made, kept). answersP (\<lambda>_. ADone) (publishP spare Keys emptyKey made kept))"
  by (simp add: removeKeyP_def dropKeyP_halves answersP_def bindP_assoc split_def)

text \<open>Up to its last statement \<open>EnrollKey\<close> changes nothing but the world.\<close>

definition worldOnly :: "('d, 'a) body \<Rightarrow> bool" where
  "worldOnly p \<longleftrightarrow> (\<forall>sh. \<exists>w. snd (exec p sh) = sh\<lparr>sh_world := w\<rparr>)"

lemma worldOnlyD: "worldOnly p \<Longrightarrow> exec p sh = (r, sh') \<Longrightarrow> sh' = sh\<lparr>sh_world := sh_world sh'\<rparr>"
  unfolding worldOnly_def by (metis snd_conv shared.select_convs(5) shared.surjective shared.update_convs(5))

lemma worldOnly_same: "(\<And>sh. snd (exec p sh) = sh) \<Longrightarrow> worldOnly p"
  unfolding worldOnly_def by (metis shared.surjective shared.update_convs(5))

lemma worldOnly_bindP:
  assumes "worldOnly p" "\<And>a. worldOnly (f a)"
  shows "worldOnly (bindP p f)"
  unfolding worldOnly_def
proof
  fix sh
  obtain r sh1 where p: "exec p sh = (r, sh1)" by (cases "exec p sh")
  obtain w1 where w1: "sh1 = sh\<lparr>sh_world := w1\<rparr>" using worldOnlyD [OF assms(1) p] by blast
  show "\<exists>w. snd (exec (bindP p f) sh) = sh\<lparr>sh_world := w\<rparr>"
  proof (cases r)
    case (Inl e)
    then show ?thesis using p w1 by (auto simp: exec_bindP)
  next
    case (Inr a)
    obtain w2 where "snd (exec (f a) sh1) = sh1\<lparr>sh_world := w2\<rparr>" using assms(2) unfolding worldOnly_def by blast
    then show ?thesis using p w1 Inr by (auto simp: exec_bindP)
  qed
qed

lemma worldOnly_accesses:
  "worldOnly (retP a)" "worldOnly (failP e)" "worldOnly (liftP res)" "worldOnly (readP g)"
  "worldOnly (cellP F i k)" "worldOnly (headerP F)"
  by (rule worldOnly_same, simp)+

lemma worldOnly_world: "worldOnly (worldP m)"
  by (auto simp: worldOnly_def worldP_def)

lemma worldOnly_search: "worldOnly (searchP F a i k P)"
  by (induction k arbitrary: i) (auto intro!: worldOnly_bindP worldOnly_accesses)

lemma worldOnly_rangeFind: "worldOnly (rangeFindP F P)"
  unfolding rangeFindP_def by (auto intro!: worldOnly_bindP worldOnly_accesses worldOnly_search)

lemma worldOnly_newKey: "worldOnly (newKeyP x auth j slot label)"
  unfolding newKeyP_def keyP_def slotOccupiedP_def findKeyP_def headP_def optsP_def Let_def
  by (auto intro!: worldOnly_bindP worldOnly_accesses worldOnly_world worldOnly_rangeFind split: option.split)

section \<open>Two enrollments\<close>

text \<open>An enrollment that succeeds alone gets as far as the new entry, which has the slot asked for.\<close>

lemma newKey_exec:
  assumes "wfShared sh" "j < length (sh_sessions sh)"
    and "EnrollKey x auth slot label (viewOf j sh) = (Inr (), (s', w'))"
  shows "\<exists>e. exec (newKeyP x auth j slot label) sh = (Inr e, sh\<lparr>sh_world := w'\<rparr>) \<and> k_Slot e = slot"
proof -
  obtain r sh1 where run: "exec (newKeyP x auth j slot label) sh = (r, sh1)"
    by (cases "exec (newKeyP x auth j slot label) sh")
  from implementsD [OF implements_newKey assms(1,2) run] obtain r' where
    r': "newKeyM x auth slot label (viewOf j sh) = (r', viewOf j sh1)" "r = outcome r'" by blast
  with assms(3) obtain e where e: "r' = Inr e" "w' = sh_world sh1" "v_Keys (ses_doc s') = contents (sh_keys sh1) @ [e]"
    by (cases r') (auto simp: EnrollKey_pieces bindE_def tellM_def viewOf_def)
  from EnrollKey_ok [OF assms(3)] obtain dk doc cred secret w2 entry where
    wrapped: "wrapDataKey x doc dk cred secret slot (enrollLabel label) w2 = (Inr entry, w')"
    and "s' = (fst (viewOf j sh))\<lparr>ses_doc := (docOf sh)\<lparr>v_Keys := v_Keys (docOf sh) @ [entry]\<rparr>\<rparr>"
    by (auto simp: viewOf_def)
  with e have "e = entry" by simp
  moreover have "sh1 = sh\<lparr>sh_world := w'\<rparr>" using worldOnlyD [OF worldOnly_newKey run] e(2) by simp
  ultimately show ?thesis using run r'(2) e(1) wrapped by (auto simp: wrapDataKey_ok)
qed

lemma appendKey_exec:
  assumes "wfShared sh"
  shows "\<exists>m. exec (answersP (\<lambda>_. ADone) (appendP spare Keys emptyKey e)) sh = (Inr ADone, sh\<lparr>sh_keys := m\<rparr>)
    \<and> wfShared (sh\<lparr>sh_keys := m\<rparr>) \<and> contents m = contents (sh_keys sh) @ [e]"
  using keys.exec_append [where s = sh and spare = spare and blank = emptyKey and e = e and ?'a = goerror] wfSharedD [OF assms] assms
  by (auto simp: leaves_def answersP_def exec_bindP wfShared_def)

lemma sealed_exec:
  assumes "wfShared sh" "marshal nils (docOf sh) = Inr data"
  shows "exec (callP spare x j (CSealed nils)) sh = (Inr (ABytes data), sh)"
proof -
  have "(sh_doc sh)\<lparr>v_Keys := contents (sh_keys sh), v_Secrets := contents (sh_secrets sh)\<rparr> = docOf sh"
    by (simp add: docOf_def)
  then show ?thesis using wfSharedD [OF assms(1)] assms(2)
    by (simp add: answersP_def sealedP_def headP_def exec_bindP exec_reflect)
qed

text \<open>A document with two keys in one slot cannot be opened.\<close>

lemma duplicate_slot_refused:
  assumes "marshal nils v = Inr data" "int64Doc v" "\<not> distinct (map k_Slot (v_Keys v))"
  shows "failsWith (OpenWith data opts) ErrWrongFormat"
proof -
  have "map k_Slot (v_Keys (cleanVault v)) = map k_Slot (v_Keys v)"
    by (simp add: cleanVault_def cleanKey_def)
  then have "\<not> wfVault (cleanVault v)" using assms(3) by (simp add: wfVault_def wfKeys_def del: map_map)
  then obtain e where "parseSealed data = Inl e"
    using parseSealed_marshal [OF assms(1,2)] validateSealed_Inr_iff by (metis sum.exhaust)
  with parseSealed_fails [OF this] show ?thesis by (simp add: OpenWith_def)
qed

lemma world_simps [simp]:
  "wfShared (sh\<lparr>sh_world := w\<rparr>) = wfShared sh" "docOf (sh\<lparr>sh_world := w\<rparr>) = docOf sh"
  "viewOf j (sh\<lparr>sh_world := w\<rparr>) = (fst (viewOf j sh), w)"
  by (simp_all add: wfShared_def docOf_def viewOf_def)

text \<open>C22: Two enrollments into one slot through two sessions of one vault. Each would succeed on its own;
  the check of the slot and the append of the entry are apart by the time it takes to touch a key. Both
  calls answer without an error, \<open>Sealed\<close> then writes a document with two keys in one slot, also without
  an error, and nothing opens it again.\<close>

theorem enrollments_lose_vault:
  fixes sh :: "'d shared"
  assumes "wfShared sh" "length (sh_sessions sh) = 2" "int64Doc (docOf sh)" "int64 slot"
    and "EnrollKey x authA slot labelA (viewOf 0 sh) = (Inr (), (sA, wA))"
    and "EnrollKey x authB slot labelB (fst (viewOf 1 sh), wA) = (Inr (), (sB, wB))"
  shows "\<exists>y data. (poolStep (callP spare x) (\<lambda>m c. m < 2))\<^sup>*\<^sup>* (startPool sh) y
    \<and> p_history y = [(0, 0, CModify authA (OpEnroll slot labelA), Inr ADone),
        (1, 1, CModify authB (OpEnroll slot labelB), Inr ADone), (0, 0, CSealed nils, Inr (ABytes data))]
    \<and> failsWith (OpenWith data opts) ErrWrongFormat"
proof -
  let ?shA = "sh\<lparr>sh_world := wA\<rparr>"
  let ?shB = "sh\<lparr>sh_world := wB\<rparr>"
  obtain eA where eA: "exec (newKeyP x authA 0 slot labelA) sh = (Inr eA, ?shA)" "k_Slot eA = slot"
    using newKey_exec [OF assms(1) _ assms(5)] assms(2) by auto
  obtain eB where eB: "exec (newKeyP x authB 1 slot labelB) ?shA = (Inr eB, ?shB)" "k_Slot eB = slot"
    using newKey_exec [of ?shA 1 x authB slot labelB sB wB] assms(1,2,6) by auto
  obtain m where m: "exec (answersP (\<lambda>_. ADone) (appendP spare Keys emptyKey eA)) ?shB = (Inr ADone, ?shB\<lparr>sh_keys := m\<rparr>)"
    "wfShared (?shB\<lparr>sh_keys := m\<rparr>)" "contents m = contents (sh_keys sh) @ [eA]"
    using appendKey_exec [of ?shB spare eA] assms(1) by auto
  obtain m' where m': "exec (answersP (\<lambda>_. ADone) (appendP spare Keys emptyKey eB)) (?shB\<lparr>sh_keys := m\<rparr>)
      = (Inr ADone, ?shB\<lparr>sh_keys := m'\<rparr>)" "wfShared (?shB\<lparr>sh_keys := m'\<rparr>)" "contents m' = contents m @ [eB]"
    using appendKey_exec [OF m(2), of spare eB] by auto
  let ?final = "?shB\<lparr>sh_keys := m'\<rparr>"
  have run: "quietRun (callP spare x) (\<lambda>m c. m < 2) sh [(0, 0, CModify authA (OpEnroll slot labelA), Inr ADone),
      (1, 1, CModify authB (OpEnroll slot labelB), Inr ADone)] ?final"
    using calls_overlap [where body = "callP spare x" and m = 0 and n = 1 and t = 0 and u = 1,
        OF quietRun_start _ _ _ _ callP_enroll [of spare x 0] callP_enroll [of spare x 1] eA(1) eB(1) m(1) m'(1)] by simp
  obtain data where data: "marshal nils (docOf ?final) = Inr data" by (simp add: marshal_def)
  have keys: "v_Keys (docOf ?final) = v_Keys (docOf sh) @ [eA, eB]" using m(3) m'(3) by simp
  have "int64Doc (docOf ?final)"
    using assms(3,4) keys eA(2) eB(2) by (auto simp: int64Doc_def docOf_def)
  then have "failsWith (OpenWith data opts) ErrWrongFormat"
    using duplicate_slot_refused [OF data] keys eA(2) eB(2) by simp
  moreover have "quietRun (callP spare x) (\<lambda>m c. m < 2) sh [(0, 0, CModify authA (OpEnroll slot labelA), Inr ADone),
      (1, 1, CModify authB (OpEnroll slot labelB), Inr ADone), (0, 0, CSealed nils, Inr (ABytes data))] ?final"
    using call_alone [OF run, of 0 "CSealed nils" _ _ 0] sealed_exec [OF m'(2) data, of spare x 0] by simp
  ultimately show ?thesis using quietRun_reached by fast
qed

lemma toy_two_enrollments:
  "\<exists>sA wA sB wB. EnrollKey toyX (toyKey 2) 1 ''backup'' (viewOf 0 toyShared) = (Inr (), (sA, wA))
     \<and> EnrollKey toyX (toyKey 3) 1 ''spare'' (fst (viewOf 1 toyShared), wA) = (Inr (), (sB, wB))"
  by (simp add: viewOf_def toyShared_def toyWorld_def EnrollKey_def keyM_def docM_def optsM_def docOf_def toyDoc0_def createdDoc_def
      onWorld_def setDocM_def toyRun toySession_def slotOccupied_def uvRequirement_def findKey_def toyOpts_def Let_def)

theorem enrollments_lose_vault_witness:
  "\<exists>y data. (poolStep (callP noSpare toyX) (\<lambda>m c. m < 2))\<^sup>*\<^sup>* (startPool toyShared) y
    \<and> p_history y = [(0, 0, CModify (toyKey 2) (OpEnroll 1 ''backup''), Inr ADone),
        (1, 1, CModify (toyKey 3) (OpEnroll 1 ''spare''), Inr ADone), (0, 0, CSealed (\<lambda>_. True), Inr (ABytes data))]
    \<and> failsWith (OpenWith data toyOpts) ErrWrongFormat"
proof -
  obtain sA wA sB wB where runs: "EnrollKey toyX (toyKey 2) 1 ''backup'' (viewOf 0 toyShared) = (Inr (), (sA, wA))"
    "EnrollKey toyX (toyKey 3) 1 ''spare'' (fst (viewOf 1 toyShared), wA) = (Inr (), (sB, wB))"
    using toy_two_enrollments by blast
  have "int64Doc (docOf toyShared)" "int64 1"
    by (simp_all add: toyShared_def docOf_def toyDoc0_def createdDoc_def int64Doc_def int64_def formatVersion_def toyEntry_def)
  from enrollments_lose_vault [OF toyShared_facts(1,2) this runs] show ?thesis .
qed

section \<open>Two removals\<close>

lemma mayRemove_exec:
  assumes "wfShared sh" "snd (sh_sessions sh ! j) \<noteq> None" "k \<in> set (contents (sh_keys sh))"
    and "length (contents (sh_keys sh)) \<noteq> 1"
  shows "exec (mayRemoveP j (k_Slot k)) sh = (Inr (), sh)"
proof -
  obtain a where "m_header (sh_keys sh) = (a, length (contents (sh_keys sh)))"
    using wfMemory_contents [OF wfSharedD(2) [OF assms(1)]] by auto
  moreover have "find (\<lambda>k'. k_Slot k' = k_Slot k) (contents (sh_keys sh)) \<noteq> None"
    using assms(3) by (auto simp: find_None_iff simp del: not_None_eq)
  ultimately show ?thesis using assms
    by (auto simp: mayRemoveP_def keyP_def slotOccupiedP_def exec_bindP exec_rangeFind wfSharedD)
qed

lemma dropKey_exec:
  assumes "wfShared sh"
  shows "\<exists>m. exec (answersP (\<lambda>_. ADone) (dropKeyP spare slot)) sh = (Inr ADone, sh\<lparr>sh_keys := m\<rparr>)
    \<and> wfShared (sh\<lparr>sh_keys := m\<rparr>) \<and> contents m = filter (\<lambda>k. k_Slot k \<noteq> slot) (contents (sh_keys sh))"
  using keys.exec_filter [where s = sh and spare = spare and blank = emptyKey and P = "\<lambda>k. k_Slot k \<noteq> slot" and ?'a = goerror]
    wfSharedD [OF assms] assms
  by (auto simp: leaves_def answersP_def dropKeyP_def exec_bindP wfShared_def)

lemma kept_exec:
  "wfShared sh \<Longrightarrow> exec (keptP slot) sh =
     (Inr (snd (m_header (sh_keys sh)), filter (\<lambda>k. k_Slot k \<noteq> slot) (contents (sh_keys sh))), sh)"
  by (simp add: keptP_def exec_bindP exec_range wfSharedD)

lemma publishKeys_exec:
  fixes sh :: "'d shared"
  shows "\<exists>m. exec (answersP (\<lambda>_. ADone) (publishP spare Keys emptyKey made kept)) sh = (Inr ADone, sh\<lparr>sh_keys := m\<rparr>)
    \<and> contents m = kept"
proof -
  have "leaves Keys sh (exec (publishP spare Keys emptyKey made kept :: ('d, unit) body) sh) (Inr ()) kept"
    unfolding publishP_def by (rule keys.exec_newSlice)
  then show ?thesis by (auto simp: leaves_def answersP_def exec_bindP)
qed

text \<open>Both calls have passed the check of the last key before either drops its key.\<close>

lemma removals_overlap:
  assumes "wfShared sh" "snd (sh_sessions sh ! 0) \<noteq> None" "snd (sh_sessions sh ! 1) \<noteq> None"
    and two: "contents (sh_keys sh) = [k0, k1]" "k_Slot k0 \<noteq> k_Slot k1"
  shows "\<exists>m. quietRun (callP spare x) (\<lambda>m c. m < 2) sh [(0, 0, CModify auth (OpRemove (k_Slot k0)), Inr ADone),
      (1, 1, CModify auth (OpRemove (k_Slot k1)), Inr ADone)] (sh\<lparr>sh_keys := m\<rparr>) \<and> contents m = []"
proof -
  have may: "exec (mayRemoveP 0 (k_Slot k0)) sh = (Inr (), sh)" "exec (mayRemoveP 1 (k_Slot k1)) sh = (Inr (), sh)"
    using mayRemove_exec [OF assms(1,2), of k0] mayRemove_exec [OF assms(1,3), of k1] two by simp_all
  obtain m0 where m0: "exec (answersP (\<lambda>_. ADone) (dropKeyP spare (k_Slot k0))) sh = (Inr ADone, sh\<lparr>sh_keys := m0\<rparr>)"
    "wfShared (sh\<lparr>sh_keys := m0\<rparr>)" "contents m0 = [k1]"
    using dropKey_exec [OF assms(1), of spare "k_Slot k0"] two by auto
  obtain m1 where m1: "exec (answersP (\<lambda>_. ADone) (dropKeyP spare (k_Slot k1))) (sh\<lparr>sh_keys := m0\<rparr>) = (Inr ADone, sh\<lparr>sh_keys := m1\<rparr>)"
    "contents m1 = []"
    using dropKey_exec [OF m0(2), of spare "k_Slot k1"] m0(3) by auto
  have "quietRun (callP spare x) (\<lambda>m c. m < 2) sh ([] @ [(0, 0, CModify auth (OpRemove (k_Slot k0)), Inr ADone),
      (1, 1, CModify auth (OpRemove (k_Slot k1)), Inr ADone)]) (sh\<lparr>sh_keys := m1\<rparr>)"
    by (rule calls_overlap [where body = "callP spare x" and m = 0 and n = 1, OF quietRun_start _ _ _ _
          callP_remove [of spare x 0] callP_remove [of spare x 1] may m0(1) m1(1)]) simp_all
  with m1(2) show ?thesis by auto
qed

text \<open>One call has read the keys and stores what it kept after the other has removed its key.\<close>

lemma removal_undone:
  assumes "wfShared sh" "snd (sh_sessions sh ! 0) \<noteq> None" "snd (sh_sessions sh ! 1) \<noteq> None"
    and two: "contents (sh_keys sh) = [k0, k1]" "k_Slot k0 \<noteq> k_Slot k1"
  shows "\<exists>m. quietRun (callP spare x) (\<lambda>m c. m < 2) sh [(1, 1, CModify auth (OpRemove (k_Slot k1)), Inr ADone),
      (0, 0, CModify auth (OpRemove (k_Slot k0)), Inr ADone)] (sh\<lparr>sh_keys := m\<rparr>) \<and> contents m = [k1]"
proof -
  have may: "exec (mayRemoveP 0 (k_Slot k0)) sh = (Inr (), sh)" "exec (mayRemoveP 1 (k_Slot k1)) sh = (Inr (), sh)"
    using mayRemove_exec [OF assms(1,2), of k0] mayRemove_exec [OF assms(1,3), of k1] two by simp_all
  let ?kept = "(snd (m_header (sh_keys sh)), [k1])"
  have late: "exec (bindP (mayRemoveP 0 (k_Slot k0)) (\<lambda>_. keptP (k_Slot k0))) sh = (Inr ?kept, sh)"
    using may(1) kept_exec [OF assms(1)] two by (simp add: exec_bindP)
  obtain m where m: "exec (answersP (\<lambda>_. ADone) (dropKeyP spare (k_Slot k1))) sh = (Inr ADone, sh\<lparr>sh_keys := m\<rparr>)"
    using dropKey_exec [OF assms(1), of spare "k_Slot k1"] by auto
  then have between: "exec (callP spare x 1 (CModify auth (OpRemove (k_Slot k1)))) sh = (Inr ADone, sh\<lparr>sh_keys := m\<rparr>)"
    using may(2) by (simp only: callP_remove exec_bindP prod.case sum.case)
  obtain m' where m': "exec (case ?kept of (made, kept) \<Rightarrow> answersP (\<lambda>_. ADone) (publishP spare Keys emptyKey made kept))
      (sh\<lparr>sh_keys := m\<rparr>) = (Inr ADone, sh\<lparr>sh_keys := m'\<rparr>)" "contents m' = [k1]"
    using publishKeys_exec [of spare _ "[k1]" "sh\<lparr>sh_keys := m\<rparr>"] by auto
  have "quietRun (callP spare x) (\<lambda>m c. m < 2) sh ([] @ [(1, 1, CModify auth (OpRemove (k_Slot k1)), Inr ADone),
      (0, 0, CModify auth (OpRemove (k_Slot k0)), Inr ADone)]) (sh\<lparr>sh_keys := m'\<rparr>)"
    by (rule call_between [where body = "callP spare x" and m = 0 and n = 1, OF quietRun_start _ _ _ _
          callP_remove_late [of spare x 0] late between m'(1)]) simp_all
  with m'(2) show ?thesis by auto
qed

text \<open>C23: Two removals through two sessions of a vault with two keys. \<open>RemoveKey\<close> promises not to remove the last
  key, and to remove the key. When the two calls overlap, both can answer without an error and leave no
  key at all: no authenticator unlocks the vault any more. Or both answer without an error and the key
  that was removed first is enrolled again.\<close>

theorem removals_strand_vault:
  fixes sh :: "'d shared"
  assumes "wfShared sh" "snd (sh_sessions sh ! 0) \<noteq> None" "snd (sh_sessions sh ! 1) \<noteq> None"
    and "v_Keys (docOf sh) = [k0, k1]" "k_Slot k0 \<noteq> k_Slot k1"
  shows "(\<exists>y. (poolStep (callP spare x) (\<lambda>m c. m < 2))\<^sup>*\<^sup>* (startPool sh) y
      \<and> p_history y = [(0, 0, CModify auth (OpRemove (k_Slot k0)), Inr ADone), (1, 1, CModify auth (OpRemove (k_Slot k1)), Inr ADone)]
      \<and> v_Keys (docOf (p_shared y)) = []
      \<and> (\<forall>key opts w. unlock x \<lparr>vt_doc = docOf (p_shared y), vt_opts = opts\<rparr> (key :: 'd Authenticator) w = (failWith ErrNoKeysEnrolled, w)))
    \<and> (\<exists>y. (poolStep (callP spare x) (\<lambda>m c. m < 2))\<^sup>*\<^sup>* (startPool sh) y
      \<and> p_history y = [(1, 1, CModify auth (OpRemove (k_Slot k1)), Inr ADone), (0, 0, CModify auth (OpRemove (k_Slot k0)), Inr ADone)]
      \<and> v_Keys (docOf (p_shared y)) = [k1])"
proof -
  have two: "contents (sh_keys sh) = [k0, k1]" using assms(4) by simp
  have locked: "unlock x \<lparr>vt_doc = v, vt_opts = opts\<rparr> key w = (failWith ErrNoKeysEnrolled, w)"
    if "v_Keys v = []" for v opts w and key :: "'d Authenticator"
    using that by (simp add: unlock_def throwE_def)
  obtain m m' where "quietRun (callP spare x) (\<lambda>m c. m < 2) sh [(0, 0, CModify auth (OpRemove (k_Slot k0)), Inr ADone),
      (1, 1, CModify auth (OpRemove (k_Slot k1)), Inr ADone)] (sh\<lparr>sh_keys := m\<rparr>)" "contents m = []"
    "quietRun (callP spare x) (\<lambda>m c. m < 2) sh [(1, 1, CModify auth (OpRemove (k_Slot k1)), Inr ADone),
      (0, 0, CModify auth (OpRemove (k_Slot k0)), Inr ADone)] (sh\<lparr>sh_keys := m'\<rparr>)" "contents m' = [k1]"
    using removals_overlap [OF assms(1-3) two assms(5)] removal_undone [OF assms(1-3) two assms(5)] by metis
  then show ?thesis using locked by (fastforce dest!: quietRun_reached)
qed

definition toyTwoKeys :: "unit shared" where
  "toyTwoKeys = toyShared\<lparr>sh_keys := sliceOf [toyEntry 1, (toyEntry 2)\<lparr>k_Slot := 1\<rparr>] []\<rparr>"

theorem removals_strand_vault_witness:
  "\<exists>y y'. (poolStep (callP noSpare toyX) (\<lambda>m c. m < 2))\<^sup>*\<^sup>* (startPool toyTwoKeys) y
    \<and> map answerIn (p_history y) = [Inr ADone, Inr ADone] \<and> v_Keys (docOf (p_shared y)) = []
    \<and> (poolStep (callP noSpare toyX) (\<lambda>m c. m < 2))\<^sup>*\<^sup>* (startPool toyTwoKeys) y'
    \<and> map answerIn (p_history y') = [Inr ADone, Inr ADone] \<and> map k_CredentialID (v_Keys (docOf (p_shared y'))) = [[2]]"
proof -
  have "wfShared toyTwoKeys" using toyShared_facts(1) by (simp add: toyTwoKeys_def wfShared_def)
  moreover have "snd (sh_sessions toyTwoKeys ! 0) \<noteq> None" "snd (sh_sessions toyTwoKeys ! 1) \<noteq> None"
    by (simp_all add: toyTwoKeys_def toyShared_def)
  moreover have "v_Keys (docOf toyTwoKeys) = [toyEntry 1, (toyEntry 2)\<lparr>k_Slot := 1\<rparr>]"
    "k_Slot (toyEntry 1) \<noteq> k_Slot ((toyEntry 2)\<lparr>k_Slot := 1\<rparr>)"
    by (simp_all add: toyTwoKeys_def toyEntry_def)
  ultimately have "(\<exists>y. (poolStep (callP noSpare toyX) (\<lambda>m c. m < 2))\<^sup>*\<^sup>* (startPool toyTwoKeys) y
      \<and> map answerIn (p_history y) = [Inr ADone, Inr ADone] \<and> v_Keys (docOf (p_shared y)) = [])
    \<and> (\<exists>y. (poolStep (callP noSpare toyX) (\<lambda>m c. m < 2))\<^sup>*\<^sup>* (startPool toyTwoKeys) y
      \<and> map answerIn (p_history y) = [Inr ADone, Inr ADone] \<and> v_Keys (docOf (p_shared y)) = [(toyEntry 2)\<lparr>k_Slot := 1\<rparr>])"
    using removals_strand_vault [of toyTwoKeys "toyEntry 1" "(toyEntry 2)\<lparr>k_Slot := 1\<rparr>" noSpare toyX "toyKey 1"] by fastforce
  then show ?thesis by (fastforce simp: toyEntry_def)
qed

end
