(* ===== verification/Anchors.thy ===== *)
theory Anchors
  imports SealGuarantees
begin

text \<open>
  Who owns the trust anchors (\<open>attestation.go\<close>). Certificate pools are mutable and passed by pointer: the
  bundled roots are one pool, made on first use and shared by every vault of the process, and callers
  add certificates to the pools they hold. Here the pools are an explicit store, and the functions that
  use the two singletons are effects on it.
\<close>

section \<open>The store of pools\<close>

text \<open>
  \<open>an_pools\<close> are the pools by address. \<open>an_roots\<close> and \<open>an_intermediates\<close> are the two package variables
  with their \<open>sync.Once\<close>; \<open>an_held\<close> are the pools that callers have a pointer to.
\<close>

record anchorState =
  an_pools :: "certPool list"
  an_roots :: "nat option"
  an_intermediates :: "certificate list option"
  an_held :: "nat list"

type_synonym 'a anchored = "(goerror, 'a, anchorState) effect"

definition newPool :: "certPool \<Rightarrow> nat anchored" where
  "newPool pool = (\<lambda>st. (Inr (length (an_pools st)), st\<lparr>an_pools := an_pools st @ [pool]\<rparr>))"

definition poolAt :: "nat \<Rightarrow> certPool anchored" where
  "poolAt a = (\<lambda>st. (Inr (an_pools st ! a), st))"

definition trustedFIDORootsOnce :: "'z x509_scheme \<Rightarrow> nat anchored" where
  "trustedFIDORootsOnce x = (\<lambda>st.
     case an_roots st of
       Some a \<Rightarrow> (Inr a, st)
     | None \<Rightarrow> bindE (newPool (trustedFIDORoots x)) (\<lambda>a st'. (Inr a, st'\<lparr>an_roots := Some a\<rparr>)) st)"

definition fidoIntermediatesOnce :: "'z x509_scheme \<Rightarrow> certificate list anchored" where
  "fidoIntermediatesOnce x = (\<lambda>st.
     case an_intermediates st of
       Some cs \<Rightarrow> (Inr cs, st)
     | None \<Rightarrow> (Inr (fidoIntermediates x), st\<lparr>an_intermediates := Some (fidoIntermediates x)\<rparr>))"

text \<open>\<open>trustedFIDORoots().Clone()\<close>\<close>

definition BundledRootsClone :: "'z x509_scheme \<Rightarrow> nat anchored" where
  "BundledRootsClone x =
     bindE (trustedFIDORootsOnce x) (\<lambda>a. bindE (poolAt a) (\<lambda>pool. newPool pool))"

text \<open>\<open>AddCert\<close> on a pool skips a certificate that is in it.\<close>

definition addCert :: "nat \<Rightarrow> certificate \<Rightarrow> anchorState \<Rightarrow> anchorState" where
  "addCert a c st =
     (if c_Raw c \<in> c_Raw ` set (an_pools st ! a) then st
      else st\<lparr>an_pools := (an_pools st)[a := an_pools st ! a @ [c]]\<rparr>)"

definition verifyGenuineHardwareAt :: "'z x509_scheme \<Rightarrow> EnrollResult \<Rightarrow> nat option \<Rightarrow> unit anchored" where
  "verifyGenuineHardwareAt x r roots =
     bindE (case roots of None \<Rightarrow> trustedFIDORootsOnce x | Some a \<Rightarrow> returnE a) (\<lambda>a.
     if er_AttestationFormat r \<noteq> packedFormat then
       throwE (wrap ''%w: %q'' (Sentinel ErrUnsupportedAttestationFormat))
     else case er_AttestationCerts r of
       [] \<Rightarrow> throwE (Sentinel ErrNoAttestation)
     | leafDER # ders \<Rightarrow>
         if er_AttestationAlg r \<noteq> coseAlgES256 then
           throwE (wrap ''%w: unsupported attestation algorithm %d'' (Sentinel ErrAttestationSignature))
         else
           bindE (liftE (wrapErr (wrap ''touchvault: parsing attestation certificate: %w'')
                     (parseCertificate x leafDER))) (\<lambda>leaf.
           bindE (fidoIntermediatesOnce x) (\<lambda>bundled.
           bindE (liftE (parseIntermediates x ders)) (\<lambda>presented.
           bindE (poolAt a) (\<lambda>pool.
           bindE (liftE (wrapErr (\<lambda>e. wrap ''%w: %v %s'' (Sentinel ErrUntrustedAuthenticator))
                     (certVerify x leaf pool (bundled @ presented)))) (\<lambda>_.
           liftE (checkSignature x leaf r)))))))"

section \<open>What callers can do\<close>

definition noAnchors :: anchorState where
  "noAnchors = \<lparr>an_pools = [], an_roots = None, an_intermediates = None, an_held = []\<rparr>"

definition usable :: "anchorState \<Rightarrow> nat option \<Rightarrow> bool" where
  "usable st roots = (case roots of None \<Rightarrow> True | Some a \<Rightarrow> a \<in> set (an_held st))"

inductive anchorStep :: "'z x509_scheme \<Rightarrow> anchorState \<Rightarrow> anchorState \<Rightarrow> bool" for x where
  makes: "newPool [] st = (Inr a, st') \<Longrightarrow> anchorStep x st (st'\<lparr>an_held := a # an_held st'\<rparr>)"
| clones: "BundledRootsClone x st = (Inr a, st') \<Longrightarrow> anchorStep x st (st'\<lparr>an_held := a # an_held st'\<rparr>)"
| adds: "a \<in> set (an_held st) \<Longrightarrow> anchorStep x st (addCert a c st)"
| verifies: "usable st roots \<Longrightarrow> verifyGenuineHardwareAt x r roots st = (res, st') \<Longrightarrow> anchorStep x st st'"

section \<open>The bundled anchors stay what they are\<close>

definition anchorsSafe :: "'z x509_scheme \<Rightarrow> anchorState \<Rightarrow> bool" where
  "anchorsSafe x st \<longleftrightarrow> (\<forall>a \<in> set (an_held st). a < length (an_pools st))
     \<and> (\<forall>a. an_roots st = Some a \<longrightarrow>
          a < length (an_pools st) \<and> a \<notin> set (an_held st) \<and> an_pools st ! a = trustedFIDORoots x)
     \<and> (\<forall>cs. an_intermediates st = Some cs \<longrightarrow> cs = fidoIntermediates x)"

lemma roots_once:
  assumes "anchorsSafe x st"
  shows "\<exists>a st'. trustedFIDORootsOnce x st = (Inr a, st') \<and> anchorsSafe x st' \<and> an_held st' = an_held st
    \<and> an_roots st' = Some a \<and> an_pools st' ! a = trustedFIDORoots x
    \<and> (\<forall>b < length (an_pools st). an_pools st' ! b = an_pools st ! b)"
  using assms
  by (cases "an_roots st")
    (auto simp: anchorsSafe_def trustedFIDORootsOnce_def newPool_def bindE_def nth_append less_Suc_eq)

lemma intermediates_once:
  assumes "anchorsSafe x st"
  shows "\<exists>st'. fidoIntermediatesOnce x st = (Inr (fidoIntermediates x), st') \<and> anchorsSafe x st'
    \<and> an_held st' = an_held st \<and> an_roots st' = an_roots st \<and> an_pools st' = an_pools st"
  using assms by (cases "an_intermediates st") (auto simp: anchorsSafe_def fidoIntermediatesOnce_def)

lemma clone_fresh:
  assumes "anchorsSafe x st"
  shows "\<exists>a st'. BundledRootsClone x st = (Inr a, st') \<and> anchorsSafe x st' \<and> an_held st' = an_held st
    \<and> a < length (an_pools st') \<and> a \<notin> set (an_held st') \<and> an_roots st' \<noteq> Some a
    \<and> an_pools st' ! a = trustedFIDORoots x"
proof -
  obtain a st1 where one: "trustedFIDORootsOnce x st = (Inr a, st1)" "anchorsSafe x st1"
    "an_held st1 = an_held st" "an_roots st1 = Some a" "an_pools st1 ! a = trustedFIDORoots x"
    using roots_once [OF assms] by blast
  let ?st2 = "st1\<lparr>an_pools := an_pools st1 @ [trustedFIDORoots x]\<rparr>"
  have "BundledRootsClone x st = (Inr (length (an_pools st1)), ?st2)"
    using one by (simp add: BundledRootsClone_def bindE_def poolAt_def newPool_def)
  moreover have "anchorsSafe x ?st2" using one(2) by (auto simp: anchorsSafe_def nth_append)
  moreover have "length (an_pools st1) \<notin> set (an_held st1)" "an_roots st1 \<noteq> Some (length (an_pools st1))"
    using one(2) by (auto simp: anchorsSafe_def)
  ultimately show ?thesis using one(3) by (intro exI [of _ "length (an_pools st1)"] exI [of _ ?st2]) simp
qed

text \<open>A verification decides by the content of the pool it is given, and keeps the store safe.\<close>

lemma verify_at:
  assumes "anchorsSafe x st" "usable st roots"
  shows "\<exists>st'. verifyGenuineHardwareAt x r roots st =
      (verifyGenuineHardware x r (map_option (\<lambda>a. an_pools st ! a) roots), st')
    \<and> anchorsSafe x st' \<and> an_held st' = an_held st"
proof -
  obtain a st1 where a: "(case roots of None \<Rightarrow> trustedFIDORootsOnce x | Some a \<Rightarrow> returnE a) st = (Inr a, st1)"
    "anchorsSafe x st1" "an_held st1 = an_held st"
    "an_pools st1 ! a = (case map_option (\<lambda>a. an_pools st ! a) roots of None \<Rightarrow> trustedFIDORoots x | Some pool \<Rightarrow> pool)"
    using roots_once [OF assms(1)] assms by (cases roots) (auto simp: returnE_def)
  obtain st2 where two: "fidoIntermediatesOnce x st1 = (Inr (fidoIntermediates x), st2)" "anchorsSafe x st2"
    "an_held st2 = an_held st1" "an_pools st2 = an_pools st1"
    using intermediates_once [OF a(2)] by blast
  let ?pool = "an_pools st1 ! a"
  show ?thesis
    using a two
    by (auto simp: verifyGenuineHardwareAt_def verifyGenuineHardware_def bindE_def a(1) throwE_def liftE_def poolAt_def
        bindR_def Let_def split: list.split sum.split)
qed

interpretation anchorSystem: invariant_system "\<lambda>st. st = noAnchors" "anchorStep x" "anchorsSafe x"
proof unfold_locales
  show "st = noAnchors \<Longrightarrow> anchorsSafe x st" for st by (simp add: noAnchors_def anchorsSafe_def)
  fix st st' :: anchorState
  assume "anchorStep x st st'" and safe: "anchorsSafe x st"
  then show "anchorsSafe x st'"
  proof cases
    case (makes a st1)
    with safe show ?thesis by (auto simp: newPool_def anchorsSafe_def nth_append less_Suc_eq)
  next
    case (clones a st1)
    with clone_fresh [OF safe] show ?thesis by (auto simp: anchorsSafe_def)
  next
    case (adds a c)
    with safe show ?thesis by (auto simp: addCert_def anchorsSafe_def nth_list_update)
  next
    case (verifies roots r res)
    with verify_at [OF safe verifies(1), of r] show ?thesis by auto
  qed
qed

text \<open>C12: nobody can change whom the default trusts. Whatever callers do with pools (make one, take
  \<open>BundledRoots\<close>, add certificates to those they hold, verify credentials) in any order: a verification
  without \<open>Options.Roots\<close> decides by the bundled roots as they were embedded, one with a pool by what is
  in that pool at that time, and \<open>BundledRoots\<close> gives a new pool with exactly the bundled roots.\<close>

theorem trust_anchors_isolated:
  assumes "(anchorStep x)\<^sup>*\<^sup>* noAnchors st"
  shows "fst (verifyGenuineHardwareAt x r None st) = verifyGenuineHardware x r None
    \<and> (\<forall>a \<in> set (an_held st).
          fst (verifyGenuineHardwareAt x r (Some a) st) = verifyGenuineHardware x r (Some (an_pools st ! a)))
    \<and> (\<exists>b st'. BundledRootsClone x st = (Inr b, st') \<and> an_pools st' ! b = BundledRoots x
          \<and> b \<notin> set (an_held st') \<and> an_roots st' \<noteq> Some b)"
proof (intro conjI ballI)
  have safe: "anchorsSafe x st" by (rule anchorSystem.reachable [OF refl assms])
  show "fst (verifyGenuineHardwareAt x r None st) = verifyGenuineHardware x r None"
    using verify_at [OF safe, of None r] by (auto simp: usable_def)
  show "fst (verifyGenuineHardwareAt x r (Some a) st) = verifyGenuineHardware x r (Some (an_pools st ! a))"
    if "a \<in> set (an_held st)" for a
    using verify_at [OF safe, of "Some a" r] that by (auto simp: usable_def)
  show "\<exists>b st'. BundledRootsClone x st = (Inr b, st') \<and> an_pools st' ! b = BundledRoots x
      \<and> b \<notin> set (an_held st') \<and> an_roots st' \<noteq> Some b"
    using clone_fresh [OF safe] by (auto simp: BundledRoots_def)
qed

text \<open>A caller extends a copy of the bundled roots; the default still accepts the sample credential.\<close>

theorem trust_anchors_isolated_witness:
  "\<exists>st a. (anchorStep toyX)\<^sup>*\<^sup>* noAnchors st \<and> a \<in> set (an_held st) \<and> toyLeaf \<in> set (an_pools st ! a)
     \<and> is_ok (fst (verifyGenuineHardwareAt toyX sampleCred None st))"
proof -
  let ?st1 = "\<lparr>an_pools = [trustedFIDORoots toyX, trustedFIDORoots toyX], an_roots = Some 0, an_intermediates = None,
    an_held = [1]\<rparr>"
  have roots: "trustedFIDORoots toyX = [toyRoot]"
    by (simp add: trustedFIDORoots_def toyX_def toyPEM_def toyParse_def)
  have "BundledRootsClone toyX noAnchors = (Inr 1, ?st1\<lparr>an_held := []\<rparr>)"
    by (simp add: BundledRootsClone_def trustedFIDORootsOnce_def newPool_def poolAt_def noAnchors_def bindE_def)
  then have "anchorStep toyX noAnchors ?st1"
    using anchorStep.clones [of toyX noAnchors 1] by fastforce
  moreover have "anchorStep toyX ?st1 (addCert 1 toyLeaf ?st1)" by (rule anchorStep.adds) simp
  ultimately have steps: "(anchorStep toyX)\<^sup>*\<^sup>* noAnchors (addCert 1 toyLeaf ?st1)"
    by (blast intro: rtranclp.intros)
  moreover have "fst (verifyGenuineHardwareAt toyX sampleCred None (addCert 1 toyLeaf ?st1)) = verifyGenuineHardware toyX sampleCred None \<and>
      is_ok (verifyGenuineHardware toyX sampleCred None)"
    using trust_anchors_isolated [OF steps, of sampleCred] sampleCred_accepted by simp
  moreover have "1 \<in> set (an_held (addCert 1 toyLeaf ?st1))"
    "toyLeaf \<in> set (an_pools (addCert 1 toyLeaf ?st1) ! 1)"
    by (simp_all add: addCert_def roots toyRoot_def toyLeaf_def)
  ultimately show ?thesis by metis
qed

end
