(* ===== verification/Spec2Isabelle.thy ===== *)
theory Spec2Isabelle
  imports SealGuarantees LifecycleGuarantees WinLiveness AdminRaces Anchors
begin

text \<open>
  touchvault keeps secrets in one document that only the touch of an enrolled security key opens. The
  library (package \<open>touchvault\<close>) never talks to hardware: it is given an \<open>Authenticator\<close>, and package
  \<open>fido\<close> is the only door to a real one, on Windows through \<open>webauthn.dll\<close>. This development models both
  packages and the internal package \<open>winwebauthn\<close>.

  \<^bold>\<open>How the program works.\<close> \<open>Create\<close> draws a salt, makes a credential on a key, verifies its
  attestation, derives a secret from it (hmac-secret over the salt), proves on the device that the
  derivation depends on the last byte of the salt (the entropy gate), draws a data key, and stores it
  wrapped under a key derived from the secret. A \<open>sealedVault\<close> document holds the header, one entry per
  enrolled key and one per secret; header and context of each entry are the additional data of its
  AES-GCM box. \<open>Unlock\<close> derives again, with one touch, and unwraps the data key; a session reads and,
  as an \<open>Admin\<close>, changes the document, which \<open>Sealed\<close> serializes and \<open>Open\<close> reads back.

  \<^bold>\<open>Theories, in the order of the code.\<close>

  \<^item> \<open>Prelude\<close>: words, bytes and strings, the error-and-state monad (\<open>bindE\<close>, \<open>liftE\<close>, \<open>throwE\<close>), the
    collection \<open>results\<close> of inversion rules every proof about a successful call uses, and the
    interface \<open>prefix_code\<close> with its closure under pairs.
  \<^item> \<open>Errors\<close> (\<open>errors.go\<close>, and the sentinels of \<open>fido\<close>): sentinels and \<open>fmt.Errorf\<close> wrappers with
    \<open>errors.Is\<close>. A format is kept, its arguments are not, except the wrapped errors.
  \<^item> \<open>Slots\<close> (\<open>slots.go\<close>): \<open>SlotInfo\<close>, \<open>FreeSlot\<close>. The unbounded counting loop is a partial function;
    it is shown to return.
  \<^item> \<open>Port\<close> (\<open>authenticator.go\<close>): requests, results, \<open>Validate\<close>, the time-outs, and the two promises
    the core relies on. An \<open>Authenticator\<close> is a record of two state-passing functions; the \<open>world\<close> of a
    run holds the device, the entropy source (one function per draw, which may fail), the number of
    draws, and the log of gestures asked for.
  \<^item> \<open>Sealed\<close> (\<open>sealed.go\<close>): the document, its authenticated data, look-ups, listings and validation.
  \<^item> \<open>Json\<close>, \<open>JsonTree\<close>, \<open>Base64\<close>: what \<open>sealed.go\<close> uses of \<open>encoding/json\<close> and \<open>encoding/base64\<close>,
    written out: UTF-8, the escaping and reading of strings, values and their compact text, the
    scanner with its nesting limit of 10000, numbers, padding.
  \<^item> \<open>SealedJson\<close> (\<open>sealed.go\<close>, \<open>vault.go\<close>): \<open>marshal\<close>, decoding into a document member by member,
    \<open>parseSealed\<close>, \<open>OpenWith\<close>, \<open>Open\<close> (here \<open>OpenVault\<close>) and \<open>session.Sealed\<close>. Which of its empty slices
    are nil, which the document type here does not hold, is an argument (\<open>nils\<close>) of \<open>marshal\<close>.
  \<^item> \<open>Crypto\<close> (\<open>crypto.go\<close>): key derivation, sealing and opening, the wrapped data key, the sealed
    secret. AES-GCM, HKDF and SHA-256 are the fields of \<open>prims\<close>; what is assumed of them is named
    (\<open>aead_roundtrip\<close>, \<open>aead_authentic\<close>, and \<open>aead_binding\<close>, which speaks only of opening under the key of
    the sealing, as \<open>cipher.AEAD\<close> does). The locales \<open>sealed_box\<close> and \<open>bound_box\<close> state
    what a box promises, and are interpreted on \<open>seal\<close>, on the wrapped data key and on the secret.
  \<^item> \<open>Entropy\<close> (\<open>entropy.go\<close>): the gate.
  \<^item> \<open>Attestation\<close>, \<open>Diagnostics\<close> (\<open>attestation.go\<close>): trust anchors from PEM, \<open>verifyGenuineHardware\<close>,
    and the text shown when a chain does not verify. X.509, ECDSA and PEM are the fields of \<open>x509\<close>.
    \<open>Anchors\<close> has the same functions over a store of certificate pools, which are mutable and shared:
    the two singletons behind \<open>sync.Once\<close>, \<open>Clone\<close>, and what callers do with the pools they hold.
  \<^item> \<open>Vault\<close> (\<open>vault.go\<close>): \<open>Create\<close>, \<open>Unlock\<close>, \<open>Administer\<close> and every method of a session; a method is a
    function from a session and a world to a result, a session and a world.
  \<^item> \<open>WinLayout\<close> (\<open>types_windows.go\<close>, \<open>consts_windows.go\<close>): every structure as a list of fields, the
    layout computed by the rules of the compiler on amd64, memory as a function of 64-bit addresses.
  \<^item> \<open>WinCalls\<close> (\<open>syscall_windows.go\<close>): the two calls, every field that is handed over, and the reads
    from memory at the computed offsets. The DLL is the argument \<open>winapi\<close>. \<open>WinReads\<close> states with the
    offsets of \<open>webauthn.h\<close> which bytes those reads depend on, and what an assertion is.
  \<^item> \<open>Fido\<close> (\<open>fido.go\<close>, \<open>refuse.go\<close>, \<open>webauthn_windows.go\<close>, \<open>unsupported_other.go\<close>): \<open>New\<close>, its guards
    and the Windows provider.

  \<^bold>\<open>What is proved.\<close>

  \<^item> \<open>Session\<close> has the success case of every operation and the contract \<open>session_method\<close> (locked
    sessions refuse, errors change nothing, the header never changes, well-formedness is kept), which
    is interpreted on each modifying method, on their sum and on runs of them.
  \<^item> \<open>Refine\<close> states the abstract vault, a map from names to values that every enrolled key opens, and
    the relation \<open>coherent\<close> under which every operation implements an update of the map.
  \<^item> \<open>Freshness\<close>: every call only advances the entropy source, and each nonce of a document is a draw of its
    own, through runs in which calls fail.
  \<^item> \<open>Liveness\<close>: with a device that conforms, an entropy source that does not fail and a total key
    derivation, \<open>Create\<close> and \<open>EnrollKey\<close> return. \<open>WinLiveness\<close> shows that the Windows provider is such a
    device when the platform converts strings without \<open>NUL\<close>, makes the credential it is asked for and
    asserts it over the salt it is given, so the whole program works on it.
  \<^item> \<open>Storage\<close>: which documents survive being stored, and that operations on valid UTF-8 keep that. The
    locale \<open>authenticator_port\<close> is the contract of the port: devices that answer from the allow-list and
    derive a fixed function open what other such devices made. \<open>WinVault\<close> interprets it on the Windows
    provider, under the two documented behaviours of the platform (\<open>dll_answers\<close>, \<open>dll_derives\<close>): it names no
    credential or an allowed one, and derives a fixed function wherever it names the credential or is given
    one; of unnamed answers to longer lists nothing is assumed.
  \<^item> \<open>Lifecycle\<close>: the caller's view over time, an inductive step relation over documents, vaults,
    sessions and stored files, in which sessions of one vault share its document and whole calls follow one
    another in any order; \<open>invariant_system\<close> is interpreted on it twice. That calls of different sessions do
    not overlap is a condition on callers here, the one the comment of \<open>Admin\<close> states.
  \<^item> The properties of stored vaults (\<open>created_vault_persists\<close>, \<open>windows_vault_reopens\<close>,
    \<open>reachable_documents_reopen\<close>, \<open>reachable_sessions_read\<close>) hold for callers that pass valid UTF-8 and slots
    in the range of an \<open>int64\<close> (\<open>plainOpts\<close>, \<open>plainOp\<close>, the flag of \<open>sysStep\<close>). For other strings they fail,
    which \<open>colliding_names_lose_vault\<close> and \<open>invalid_name_undecryptable\<close> show.
  \<^item> \<open>Procedures\<close>, \<open>Slices\<close>, \<open>SessionCalls\<close>, \<open>Concurrency\<close>: the methods of a session once more, in steps of
    single loads and stores (\<open>keyP\<close>, \<open>findSecretP\<close>, \<open>openP\<close>, \<open>putP\<close>, \<open>deleteP\<close>, \<open>enrollKeyP\<close>, \<open>removeKeyP\<close>, \<open>lockP\<close>
    and the others), over a memory in which \<open>doc.Secrets\<close> and \<open>doc.Keys\<close> are slices: a header and a
    backing array that \<open>Put\<close>, \<open>Delete\<close> and \<open>EnrollKey\<close> change in place, while \<open>RemoveKey\<close> stores a new
    slice. \<open>Slices\<close> has the loops and updates of a slice for any field of a state; the locale
    \<open>slice_field\<close> proves what they leave, and is interpreted on the two slices. \<open>callP_implements\<close> shows
    that each body, run alone, is the method of \<open>Vault\<close> and meets no failing bounds check. A pool of
    threads runs the bodies under one mutex per session; the locale \<open>separate_objects\<close> shows that calls
    of an object are atomic when objects keep to their parts of the memory. It is interpreted on one
    session with all methods, and on all sessions of a vault with the methods that only read.
  \<^item> The end of \<open>Concurrency\<close>, and \<open>AdminRaces\<close>, show what happens otherwise, as the sessions of a vault have
    a mutex each and one document: reads that miss, panics, keys enrolled into one slot, and keys
    removed or kept against the guards. \<open>turnsTo\<close> and \<open>quietRun\<close> (\<open>Procedures\<close>) put such runs together from
    whole segments of the bodies, so documents and devices there are arbitrary.
  \<^item> \<open>SealGuarantees\<close>, \<open>VaultGuarantees\<close>, \<open>StorageGuarantees\<close>, \<open>LifecycleGuarantees\<close>, \<open>Concurrency\<close>, \<open>AdminRaces\<close>,
    \<open>WinVault\<close> and \<open>WinLiveness\<close> hold the properties, each named by a claim number in the text before it; \<open>WinVault\<close>
    composes the core with the Windows provider, down to the calls and the bytes of their answers. The properties of
    \<open>Anchors\<close>, \<open>Slots\<close>, \<open>WinReads\<close> and \<open>Fido\<close> stand in those theories.
  \<^item> \<open>Samples\<close>, \<open>FidoSamples\<close> and \<open>WinDevice\<close> are one concrete instance of all that is a parameter, on
    which every theorem with hypotheses is applied, up to a whole \<open>Create\<close> over a concrete \<open>webauthn.dll\<close>.

  \<^bold>\<open>Bounds and fuel.\<close> Go's \<open>int\<close> is unbounded here and reduced modulo \<open>2^32\<close> where the code converts;
  what is read from a file is checked to be a 64-bit integer (\<open>int64Doc\<close>). The properties about
  authenticated data assume fields shorter than \<open>2^32\<close> bytes, the width of their length prefix. The PEM
  loop has one unit of fuel per byte and one more; each round consumes at least a byte. All other loops
  end by structure or by a measure. A rendered document nests three deep, far below the limit of 10000.

  \<^bold>\<open>Not modelled.\<close> The arguments of error messages, apart from wrapped errors, and the texts of the
  errors of the standard library; races finer than an access to one entry of the document, of which Go
  promises nothing, \<open>Unlock\<close> while a session changes the document, and concurrent use of one
  \<open>secretReader\<close>; that overwritten key material is gone from memory, beyond the buffer that is overwritten; the
  liveness of Go memory during a call of the DLL and the contents of structures beyond the fields that
  are read; the two embedded certificate files, which are arguments; tests and documentation.
\<close>

end
